(* ===== verification/Prelude.thy ===== *)
theory Prelude
  imports Main "HOL-Library.Word" "HOL-Library.Sublist" "HOL-Library.Monad_Syntax"
begin

text \<open>
  Shared vocabulary of the development: the C types the sources use, the functions of
  \<^verbatim>\<open><ctype.h>\<close>, \<^verbatim>\<open><string.h>\<close>, \<^verbatim>\<open><stdlib.h>\<close> and \<^verbatim>\<open><stdio.h>\<close> that they call, as total
  executable functions on strings, and the generic lemmas the components use.

  A C string is a \<^typ>\<open>string\<close> with no NUL in it; a pointer into a string is the suffix it
  points to. A C \<^verbatim>\<open>int\<close> is an \<^typ>\<open>int\<close> with the conversions written out (\<open>to_int32\<close>).
\<close>

named_theorems c_simps \<open>evaluation rules of the C library functions\<close>

type_synonym byte = "8 word"
type_synonym u32 = "32 word"
type_synonym u64 = "64 word"
type_synonym errno = int

section \<open>Characters\<close>

definition c_isspace :: "char \<Rightarrow> bool" where
  "c_isspace c \<longleftrightarrow> c \<in> set [CHR 0x20, CHR 0x09, CHR 0x0A, CHR 0x0B, CHR 0x0C, CHR 0x0D]"

definition c_isdigit :: "char \<Rightarrow> bool" where
  "c_isdigit c \<longleftrightarrow> 48 \<le> (of_char c :: nat) \<and> (of_char c :: nat) \<le> 57"

definition digit_val :: "char \<Rightarrow> int" where
  "digit_val c = int (of_char c) - 48"

definition digit_char :: "nat \<Rightarrow> char" where
  "digit_char d = char_of (48 + d)"

text \<open>The value of a hexadecimal digit, \<open>None\<close> for any other character.\<close>

definition hex_val :: "char \<Rightarrow> int option" where
  "hex_val c = (let n = (of_char c :: nat) in
     if 48 \<le> n \<and> n \<le> 57 then Some (int n - 48)
     else if 97 \<le> n \<and> n \<le> 102 then Some (int n - 87)
     else if 65 \<le> n \<and> n \<le> 70 then Some (int n - 55)
     else None)"

section \<open>Integer conversions\<close>

text \<open>The conversion of a wide value to a 32-bit \<^verbatim>\<open>int\<close>.\<close>

definition to_int32 :: "int \<Rightarrow> int" where
  "to_int32 n = (n + 2 ^ 31) mod 2 ^ 32 - 2 ^ 31"

definition clamp_long :: "int \<Rightarrow> int" where
  "clamp_long n = max (- (2 ^ 63)) (min (2 ^ 63 - 1) n)"

section \<open>Searching strings\<close>

text \<open>\<^verbatim>\<open>strchr\<close> and \<^verbatim>\<open>strstr\<close>: the suffix at the first occurrence.\<close>

fun c_strchr :: "string \<Rightarrow> char \<Rightarrow> string option" where
  "c_strchr [] c = None"
| "c_strchr (x # xs) c = (if x = c then Some (x # xs) else c_strchr xs c)"

fun c_strstr :: "string \<Rightarrow> string \<Rightarrow> string option" where
  "c_strstr [] needle = (if needle = [] then Some [] else None)"
| "c_strstr (x # xs) needle =
     (if take (length needle) (x # xs) = needle then Some (x # xs) else c_strstr xs needle)"

text \<open>A buffer read as a C string ends at its first NUL.\<close>

definition c_str :: "string \<Rightarrow> string" where
  "c_str s = takeWhile (\<lambda>c. c \<noteq> CHR 0x00) s"

definition c_contains :: "string \<Rightarrow> string \<Rightarrow> bool" where
  "c_contains s needle \<longleftrightarrow> c_strstr s needle \<noteq> None"

section \<open>Reading numbers\<close>

text \<open>An optional sign: the sign and what follows it.\<close>

fun c_sign :: "string \<Rightarrow> int \<times> string" where
  "c_sign [] = (1, [])"
| "c_sign (c # cs) = (if c = CHR ''-'' then (-1, cs) else if c = CHR ''+'' then (1, cs) else (1, c # cs))"

fun digits_val :: "int \<Rightarrow> string \<Rightarrow> int" where
  "digits_val acc [] = acc"
| "digits_val acc (c # cs) = digits_val (acc * 10 + digit_val c) cs"

text \<open>
  The decimal number at the start of a string: leading white space, an optional sign and
  at least one digit. The value is the mathematical one, with the rest of the string.
\<close>

definition c_scan_dec :: "string \<Rightarrow> (int \<times> string) option" where
  "c_scan_dec s = (let (sg, t) = c_sign (dropWhile c_isspace s);
                       ds = takeWhile c_isdigit t
                   in if ds = [] then None else Some (sg * digits_val 0 ds, dropWhile c_isdigit t))"

text \<open>\<^verbatim>\<open>atoi(s)\<close> is \<^verbatim>\<open>(int)strtol(s, NULL, 10)\<close>; the conversion \<^verbatim>\<open>%d\<close> reads the same number.\<close>

definition c_atoi :: "string \<Rightarrow> int" where
  "c_atoi s = (case c_scan_dec s of None \<Rightarrow> 0 | Some (n, _) \<Rightarrow> to_int32 (clamp_long n))"

definition c_scanf_d :: "string \<Rightarrow> (int \<times> string) option" where
  "c_scanf_d s = map_option (\<lambda>(n, r). (to_int32 (clamp_long n), r)) (c_scan_dec s)"

text \<open>
  \<^verbatim>\<open>strtoull(s, &end, 10)\<close>: an out-of-range value gives \<^verbatim>\<open>ULLONG_MAX\<close>, a minus sign negates
  modulo \<open>2 ^ 64\<close>, and with no digits the end pointer is the start of the string.
\<close>

definition c_strtoull :: "string \<Rightarrow> u64 \<times> string" where
  "c_strtoull s = (case c_scan_dec s of None \<Rightarrow> (0, s)
     | Some (n, r) \<Rightarrow> (if \<bar>n\<bar> \<ge> 2 ^ 64 then - 1 else word_of_int n, r))"

fun hex_digits_val :: "int \<Rightarrow> string \<Rightarrow> int \<times> string" where
  "hex_digits_val acc [] = (acc, [])"
| "hex_digits_val acc (c # cs) =
     (case hex_val c of None \<Rightarrow> (acc, c # cs) | Some d \<Rightarrow> hex_digits_val (acc * 16 + d) cs)"

definition is_hex :: "char \<Rightarrow> bool" where
  "is_hex c \<longleftrightarrow> hex_val c \<noteq> None"

text \<open>
  The conversion \<^verbatim>\<open>%x\<close>: white space, an optional sign, an optional \<^verbatim>\<open>0x\<close> and at least one
  hexadecimal digit. A prefix \<^verbatim>\<open>0x\<close> with no digit after it reads the digit \<^verbatim>\<open>0\<close> only.
\<close>

definition c_scanf_x :: "string \<Rightarrow> u32 option" where
  "c_scanf_x s =
     (let (sg, t) = c_sign (dropWhile c_isspace s);
          u = (case t of a # b # r \<Rightarrow>
                  if a = CHR ''0'' \<and> (b = CHR ''x'' \<or> b = CHR ''X'') \<and> (case r of [] \<Rightarrow> False | h # _ \<Rightarrow> is_hex h)
                  then r else t
               | _ \<Rightarrow> t)
      in case u of [] \<Rightarrow> None
         | h # _ \<Rightarrow> if is_hex h then Some (word_of_int (sg * fst (hex_digits_val 0 u))) else None)"

section \<open>Printing\<close>

fun show_nat :: "nat \<Rightarrow> string" where
  "show_nat n = (if n < 10 then [digit_char n] else show_nat (n div 10) @ [digit_char (n mod 10)])"

declare show_nat.simps [simp del]

definition show_int :: "int \<Rightarrow> string" where
  "show_int i = (if i < 0 then CHR ''-'' # show_nat (nat (- i)) else show_nat (nat i))"

text \<open>Field widths: \<^verbatim>\<open>%6s\<close> pads on the left, \<^verbatim>\<open>%-10s\<close> on the right.\<close>

definition pad_left :: "nat \<Rightarrow> string \<Rightarrow> string" where
  "pad_left n s = replicate (n - length s) CHR '' '' @ s"

definition pad_right :: "nat \<Rightarrow> string \<Rightarrow> string" where
  "pad_right n s = s @ replicate (n - length s) CHR '' ''"

text \<open>The string that \<^verbatim>\<open>snprintf(buf, size, ...)\<close> leaves in its buffer.\<close>

definition snprintf_buf :: "nat \<Rightarrow> string \<Rightarrow> string" where
  "snprintf_buf sz s = take (sz - 1) s"

section \<open>Lemmas\<close>

lemma c_strstr_append: "c_strstr s needle = Some t \<Longrightarrow> \<exists>pre. s = pre @ t"
  by (induction s needle rule: c_strstr.induct) (auto split: if_splits intro: exI [of _ "[]"] exI [of _ "_ # _"])

lemma c_strstr_starts:
  "c_strstr s needle = Some t \<Longrightarrow> take (length needle) t = needle"
  by (induction s needle rule: c_strstr.induct) (auto split: if_splits)

lemma c_strstr_Some_conv: "c_strstr s needle = Some t \<Longrightarrow> \<exists>r. t = needle @ r"
  using c_strstr_starts [of s needle t] by (metis append_take_drop_id)

lemma c_strchr_Some: "c_strchr s c = Some t \<Longrightarrow> \<exists>pre r. s = pre @ c # r \<and> t = c # r \<and> c \<notin> set pre"
  by (induction s c rule: c_strchr.induct) (fastforce split: if_splits intro: exI [of _ "_ # _"])+

lemma c_strchr_None [simp]: "c_strchr s c = None \<longleftrightarrow> c \<notin> set s"
  by (induction s c rule: c_strchr.induct) auto

lemma c_strchr_first [simp]: "c \<notin> set pre \<Longrightarrow> c_strchr (pre @ c # r) c = Some (c # r)"
  by (induction pre) auto

lemma of_char_digit_char: "d < 10 \<Longrightarrow> (of_char (digit_char d) :: nat) = 48 + d"
  by (simp add: digit_char_def)

lemma c_isdigit_digit_char [simp]: "d < 10 \<Longrightarrow> c_isdigit (digit_char d)"
  by (simp add: c_isdigit_def of_char_digit_char)

lemma digit_val_digit_char [simp]: "d < 10 \<Longrightarrow> digit_val (digit_char d) = int d"
  by (simp add: digit_val_def of_char_digit_char)

lemma isdigit_not_space: "c_isdigit c \<Longrightarrow> \<not> c_isspace c"
  by (auto simp: c_isdigit_def c_isspace_def)

lemma isdigit_not_sign: "c_isdigit c \<Longrightarrow> c \<noteq> CHR ''-'' \<and> c \<noteq> CHR ''+''"
  by (auto simp: c_isdigit_def)

lemma show_nat_digits: "list_all c_isdigit (show_nat n)"
proof (induction n rule: show_nat.induct)
  case (1 n)
  then show ?case by (cases "n < 10") (simp_all add: show_nat.simps [of n])
qed

lemma show_nat_nonempty [simp]: "show_nat n \<noteq> []"
  by (simp add: show_nat.simps [of n])

lemma digits_val_append: "digits_val acc (xs @ [c]) = digits_val acc xs * 10 + digit_val c"
  by (induction xs arbitrary: acc) auto

lemma digits_val_show_nat: "digits_val 0 (show_nat n) = int n"
proof (induction n rule: show_nat.induct)
  case (1 n)
  show ?case
  proof (cases "n < 10")
    case True
    then show ?thesis by (simp add: show_nat.simps [of n])
  next
    case False
    with 1 have "digits_val 0 (show_nat (n div 10)) = int (n div 10)" by simp
    moreover have "int (n div 10) * 10 + int (n mod 10) = int n" by presburger
    ultimately show ?thesis using False by (simp add: show_nat.simps [of n] digits_val_append)
  qed
qed

text \<open>What follows a number stops the scan: the end of the string or a non-digit.\<close>

definition ends_number :: "string \<Rightarrow> bool" where
  "ends_number r \<longleftrightarrow> (case r of [] \<Rightarrow> True | c # _ \<Rightarrow> \<not> c_isdigit c)"

lemma takeWhile_show_nat: "ends_number r \<Longrightarrow> takeWhile c_isdigit (show_nat n @ r) = show_nat n"
  and dropWhile_show_nat: "ends_number r \<Longrightarrow> dropWhile c_isdigit (show_nat n @ r) = r"
  using show_nat_digits [of n]
  by (simp_all add: takeWhile_append2 dropWhile_append2 list_all_iff ends_number_def split: list.splits)

lemma show_nat_hd: "\<exists>c cs. show_nat n = c # cs \<and> c_isdigit c"
  using show_nat_digits [of n] show_nat_nonempty [of n] by (cases "show_nat n") auto

theorem c_scan_dec_show_int: "ends_number r \<Longrightarrow> c_scan_dec (show_int i @ r) = Some (i, r)"
proof -
  assume r: "ends_number r"
  obtain c cs where c: "show_nat (nat \<bar>i\<bar>) = c # cs" "c_isdigit c" using show_nat_hd by blast
  have sp: "\<not> c_isspace c" "\<not> c_isspace CHR ''-''" "c \<noteq> CHR ''-''" "c \<noteq> CHR ''+''"
    using isdigit_not_space [OF c(2)] isdigit_not_sign [OF c(2)] by (auto simp: c_isspace_def)
  have sgn: "c_sign (dropWhile c_isspace (show_int i @ r))
      = (if i < 0 then - 1 else 1, show_nat (nat \<bar>i\<bar>) @ r)"
    using sp c(1) by (auto simp: show_int_def abs_if)
  show ?thesis
    unfolding c_scan_dec_def Let_def sgn split_def
    by (simp add: takeWhile_show_nat [OF r] dropWhile_show_nat [OF r] digits_val_show_nat)
qed

lemma to_int32_id: "- (2 ^ 31) \<le> i \<Longrightarrow> i < 2 ^ 31 \<Longrightarrow> to_int32 i = i"
  by (simp add: to_int32_def)

lemma to_int32_bounds: "- (2 ^ 31) \<le> to_int32 i \<and> to_int32 i < 2 ^ 31"
  by (simp add: to_int32_def)

lemma clamp_long_id: "- (2 ^ 63) \<le> i \<Longrightarrow> i < 2 ^ 63 \<Longrightarrow> clamp_long i = i"
  by (simp add: clamp_long_def)

lemma c_scanf_d_show_int:
  "- (2 ^ 31) \<le> i \<Longrightarrow> i < 2 ^ 31 \<Longrightarrow> ends_number r \<Longrightarrow> c_scanf_d (show_int i @ r) = Some (i, r)"
  by (simp add: c_scanf_d_def c_scan_dec_show_int clamp_long_id to_int32_id)

lemma length_snprintf_buf: "0 < sz \<Longrightarrow> length (snprintf_buf sz s) < sz"
  by (simp add: snprintf_buf_def)

lemma snprintf_buf_fits: "length s < sz \<Longrightarrow> snprintf_buf sz s = s"
  by (simp add: snprintf_buf_def)

lemma c_str_id: "CHR 0x00 \<notin> set s \<Longrightarrow> c_str s = s"
  by (auto simp: c_str_def intro: takeWhile_eq_all_conv [THEN iffD2])

lemma takeWhile_upto: "c \<notin> set a \<Longrightarrow> takeWhile (\<lambda>x. x \<noteq> c) (a @ c # r) = a"
  by (induction a) auto

lemma c_str_append: "CHR 0x00 \<notin> set a \<Longrightarrow> c_str (a @ r) = a @ c_str r"
  by (induction a) (auto simp: c_str_def)

lemma c_str_simps [simp]: "c_str [] = []" "c \<noteq> CHR 0x00 \<Longrightarrow> c_str (c # r) = c # c_str r" "c_str (CHR 0x00 # r) = []"
  by (simp_all add: c_str_def)

text \<open>A computation of the option monad that succeeded, taken apart.\<close>

lemma bind_SomeE: "Option.bind x f = Some y \<Longrightarrow> (\<And>z. x = Some z \<Longrightarrow> f z = Some y \<Longrightarrow> P) \<Longrightarrow> P"
  by (cases x) auto

end
