(* ===== verification/Os.thy ===== *)
theory Os
  imports Prelude
begin

text \<open>
  The operating system as the sources see it, and the I/O helpers of \<^verbatim>\<open>src/util.c\<close> and
  \<^verbatim>\<open>include/util.h\<close>.

  The kernel is not part of the repository, so it is a parameter: a value of type \<open>'w os\<close>
  holds one function per system call, each taking the state \<open>'w\<close> of the outside world and
  returning the call's result and the next state. Every definition that makes system calls
  takes such a value. A failing call returns \<open>Inl errno\<close>. \<^verbatim>\<open>fork\<close> returns as in C: the code
  continues in the child where the result is 0 and in the parent where it is the child's pid,
  so a run of the model under a world where \<^verbatim>\<open>fork\<close> returned 0 is a run of the child.
  What a property needs to know of the kernel is a named hypothesis on the parameter.
\<close>

section \<open>System calls\<close>

datatype ftype = Dir | Lnk | Reg

text \<open>The fields of \<^verbatim>\<open>struct stat\<close> that are read; the permission bits are \<open>st_perm\<close>.\<close>

record stat =
  st_type :: ftype
  st_perm :: nat
  st_nlink :: nat
  st_uid :: int
  st_gid :: int
  st_size :: int
  st_mtime :: int

datatype open_flag = O_RDONLY | O_WRONLY | O_RDWR | O_CREAT | O_TRUNC | O_APPEND

text \<open>The fields of \<^verbatim>\<open>struct kinfo_proc\<close> that are read.\<close>

record kinfo_proc =
  ki_pid :: int
  ki_ppid :: int
  ki_pgid :: int
  ki_sid :: int
  ki_uid :: int
  ki_stat :: int
  ki_comm :: string

text \<open>The result of \<^verbatim>\<open>waitpid\<close>: \<^verbatim>\<open>WIFEXITED\<close> with its \<^verbatim>\<open>WEXITSTATUS\<close>, or another end.\<close>

datatype wait_status = Exited_With int | Signalled int

record 'w os =
  os_read :: "int \<Rightarrow> nat \<Rightarrow> 'w \<Rightarrow> (errno + string) \<times> 'w"
  os_write :: "int \<Rightarrow> string \<Rightarrow> 'w \<Rightarrow> (errno + nat) \<times> 'w"
  os_open :: "string \<Rightarrow> open_flag list \<Rightarrow> 'w \<Rightarrow> (errno + int) \<times> 'w"
  os_close :: "int \<Rightarrow> 'w \<Rightarrow> 'w"
  os_lseek_end :: "int \<Rightarrow> 'w \<Rightarrow> int \<times> 'w"
  os_lseek_start :: "int \<Rightarrow> 'w \<Rightarrow> 'w"
  os_stat :: "string \<Rightarrow> 'w \<Rightarrow> (errno + stat) \<times> 'w"
  os_lstat :: "string \<Rightarrow> 'w \<Rightarrow> (errno + stat) \<times> 'w"
  os_readdir :: "string \<Rightarrow> 'w \<Rightarrow> (errno + string list) \<times> 'w"
  os_unlink :: "string \<Rightarrow> 'w \<Rightarrow> errno option \<times> 'w"
  os_rmdir :: "string \<Rightarrow> 'w \<Rightarrow> errno option \<times> 'w"
  os_mkdir :: "string \<Rightarrow> 'w \<Rightarrow> errno option \<times> 'w"
  os_rename :: "string \<Rightarrow> string \<Rightarrow> 'w \<Rightarrow> errno option \<times> 'w"
  os_chdir :: "string \<Rightarrow> 'w \<Rightarrow> errno option \<times> 'w"
  os_getcwd :: "'w \<Rightarrow> (errno + string) \<times> 'w"
  os_access :: "string \<Rightarrow> 'w \<Rightarrow> errno option \<times> 'w"
  os_kill :: "int \<Rightarrow> int \<Rightarrow> 'w \<Rightarrow> errno option \<times> 'w"
  os_getpid :: "'w \<Rightarrow> int"
  os_fork :: "'w \<Rightarrow> (errno + int) \<times> 'w"
  os_waitpid :: "int \<Rightarrow> 'w \<Rightarrow> wait_status \<times> 'w"
  os_sysctl_size :: "'w \<Rightarrow> (errno + int) \<times> 'w"
  os_sysctl_procs :: "int \<Rightarrow> 'w \<Rightarrow> (errno + kinfo_proc list) \<times> 'w"
  os_usleep :: "nat \<Rightarrow> 'w \<Rightarrow> 'w"
  os_socket :: "'w \<Rightarrow> (errno + int) \<times> 'w"
  os_connect :: "int \<Rightarrow> nat \<Rightarrow> 'w \<Rightarrow> errno option \<times> 'w"
  os_bind :: "int \<Rightarrow> nat \<Rightarrow> 'w \<Rightarrow> errno option \<times> 'w"
  os_listen :: "int \<Rightarrow> nat \<Rightarrow> 'w \<Rightarrow> errno option \<times> 'w"
  os_accept :: "int \<Rightarrow> 'w \<Rightarrow> (errno + int \<times> string) \<times> 'w"
  os_select :: "int \<Rightarrow> nat \<Rightarrow> 'w \<Rightarrow> (errno + bool) \<times> 'w"
  os_reuseaddr :: "int \<Rightarrow> 'w \<Rightarrow> 'w"
  os_sigaction :: "int \<Rightarrow> 'w \<Rightarrow> 'w"
  os_pipe :: "'w \<Rightarrow> (errno + int \<times> int) \<times> 'w"
  os_execvp :: "string \<Rightarrow> string list \<Rightarrow> 'w \<Rightarrow> errno option \<times> 'w"
  os_wait :: "'w \<Rightarrow> wait_status \<times> 'w"
  os_dup2 :: "int \<Rightarrow> int \<Rightarrow> 'w \<Rightarrow> 'w"
  os_setsid :: "'w \<Rightarrow> 'w"
  os_getenv :: "string \<Rightarrow> 'w \<Rightarrow> string option"
  os_setenv :: "string \<Rightarrow> string \<Rightarrow> 'w \<Rightarrow> 'w"
  os_putenv :: "string \<Rightarrow> 'w \<Rightarrow> 'w"
  os_malloc_ok :: "int \<Rightarrow> 'w \<Rightarrow> bool"
  os_set_name :: "string \<Rightarrow> 'w \<Rightarrow> int \<times> 'w"
  os_klog :: "string \<Rightarrow> 'w \<Rightarrow> 'w"
  os_klog_perror :: "string \<Rightarrow> 'w \<Rightarrow> 'w"
  os_term_signal :: "'w \<Rightarrow> bool \<times> 'w"
  os_errno :: "'w \<Rightarrow> errno"
  os_strerror :: "errno \<Rightarrow> string"
  os_strftime :: "int \<Rightarrow> string"

text \<open>
  How a piece of code ends that may end its process: it returns, or the process exits with
  a status, or its image is replaced by \<^verbatim>\<open>execvp\<close>, or it accesses memory out of bounds.
\<close>

datatype 'a outcome = Ret 'a | Exit int | Execed | Crashed

section \<open>The code of util\<close>

definition EINTR :: errno where "EINTR = 4"
definition EEXIST :: errno where "EEXIST = 17"
definition ENOTDIR :: errno where "ENOTDIR = 20"
definition EADDRINUSE :: errno where "EADDRINUSE = 48"

definition SIGTERM :: int where "SIGTERM = 15"

text \<open>\<^verbatim>\<open>dprintf\<close>, which is \<^verbatim>\<open>sshsvr_dprintf\<close>: the formatted string goes through a buffer of 1024.\<close>

definition dprintf_bytes :: "string \<Rightarrow> string" where
  "dprintf_bytes s =
     (let buf = snprintf_buf 1024 s @ [CHR 0x00];
          n = (if length s > 1024 then 1024 else length s)
      in take n buf)"

definition dprintf :: "'w os \<Rightarrow> int \<Rightarrow> string \<Rightarrow> 'w \<Rightarrow> int \<times> 'w" where
  "dprintf os fd s w =
     (case os_write os fd (dprintf_bytes s) w of
        (Inl e, w1) \<Rightarrow> (- 1, w1)
      | (Inr k, w1) \<Rightarrow> (int (length (dprintf_bytes s)), w1))"

text \<open>A \<^verbatim>\<open>dprintf(1, ...)\<close> whose result is ignored.\<close>

definition out :: "'w os \<Rightarrow> string \<Rightarrow> 'w \<Rightarrow> 'w" where
  "out os s w = snd (dprintf os 1 s w)"

definition set_proc_name :: "'w os \<Rightarrow> string \<Rightarrow> 'w \<Rightarrow> int \<times> 'w" where
  "set_proc_name os name w = os_set_name os name w"

text \<open>The loop of \<^verbatim>\<open>safe_write\<close>: \<open>rest\<close> is the part of the buffer from \<^verbatim>\<open>off\<close> on.\<close>

partial_function (option) safe_write_loop ::
    "'w os \<Rightarrow> int \<Rightarrow> string \<Rightarrow> 'w \<Rightarrow> ((errno + unit) \<times> 'w) option" where
  "safe_write_loop os fd rest w =
     (if rest = [] then Some (Inr (), w)
      else case os_write os fd rest w of
             (Inl e, w1) \<Rightarrow> if e = EINTR then safe_write_loop os fd rest w1 else Some (Inl e, w1)
           | (Inr k, w1) \<Rightarrow> safe_write_loop os fd (drop k rest) w1)"

declare safe_write_loop.simps [code]

text \<open>\<open>Inl\<close> is the return value \<^verbatim>\<open>-1\<close>, \<open>Inr n\<close> the number of bytes written.\<close>

definition safe_write :: "'w os \<Rightarrow> int \<Rightarrow> string \<Rightarrow> 'w \<Rightarrow> ((errno + nat) \<times> 'w) option" where
  "safe_write os fd buf w =
     map_option (\<lambda>(r, w1). (map_sum id (\<lambda>_. length buf) r, w1)) (safe_write_loop os fd buf w)"

text \<open>
  \<^verbatim>\<open>safe_read_line\<close>, with the bytes stored so far; carriage returns are skipped. The result
  \<open>None\<close> is the return value \<^verbatim>\<open>-1\<close>.
\<close>

partial_function (option) safe_read_line_loop ::
    "'w os \<Rightarrow> int \<Rightarrow> nat \<Rightarrow> string \<Rightarrow> 'w \<Rightarrow> (string option \<times> 'w) option" where
  "safe_read_line_loop os fd maxlen buf w =
     (if length buf + 1 < maxlen then
        case os_read os fd 1 w of
          (Inl e, w1) \<Rightarrow> if e = EINTR then safe_read_line_loop os fd maxlen buf w1 else Some (None, w1)
        | (Inr s, w1) \<Rightarrow>
            if s = [] then Some (Some buf, w1)
            else if hd s = CHR 0x0D then safe_read_line_loop os fd maxlen buf w1
            else if hd s = CHR 0x0A then Some (Some buf, w1)
            else safe_read_line_loop os fd maxlen (buf @ [hd s]) w1
      else Some (Some buf, w))"

declare safe_read_line_loop.simps [code]

definition safe_read_line :: "'w os \<Rightarrow> int \<Rightarrow> nat \<Rightarrow> 'w \<Rightarrow> (string option \<times> 'w) option" where
  "safe_read_line os fd maxlen w = safe_read_line_loop os fd maxlen [] w"

partial_function (option) copy_to_fd :: "'w os \<Rightarrow> int \<Rightarrow> int \<Rightarrow> 'w \<Rightarrow> (int \<times> 'w) option" where
  "copy_to_fd os dst_fd src_fd w =
     (case os_read os src_fd 1024 w of
        (Inl e, w1) \<Rightarrow> Some (- 1, w1)
      | (Inr b, w1) \<Rightarrow>
          if b = [] then Some (0, w1)
          else do {
            (r, w2) \<leftarrow> safe_write os dst_fd b w1;
            case r of Inl e \<Rightarrow> Some (- 1, w2) | Inr n \<Rightarrow> copy_to_fd os dst_fd src_fd w2
          })"

declare copy_to_fd.simps [code]

text \<open>\<^verbatim>\<open>print_error\<close> of \<^verbatim>\<open>src/builtins.c\<close>, given the \<^verbatim>\<open>errno\<close> it reads.\<close>

definition print_error :: "'w os \<Rightarrow> string \<Rightarrow> errno \<Rightarrow> 'w \<Rightarrow> 'w" where
  "print_error os msg e w = out os (''error: '' @ msg @ '': '' @ os_strerror os e @ ''\<newline>'') w"

section \<open>What is documented of the calls\<close>

text \<open>
  A write on \<open>fd\<close> appends a prefix of its buffer to the output seen by \<open>outv\<close>, or fails
  and appends nothing; with progress, it accepts at least one byte.
\<close>

definition writes_to :: "'w os \<Rightarrow> int \<Rightarrow> ('w \<Rightarrow> string) \<Rightarrow> bool" where
  "writes_to os fd outv \<longleftrightarrow>
     (\<forall>s w. case os_write os fd s w of
        (Inl e, w1) \<Rightarrow> outv w1 = outv w
      | (Inr k, w1) \<Rightarrow> k \<le> length s \<and> outv w1 = outv w @ take k s)"

definition write_progress :: "'w os \<Rightarrow> int \<Rightarrow> bool" where
  "write_progress os fd \<longleftrightarrow> (\<forall>s w. s \<noteq> [] \<longrightarrow> (\<exists>k w1. os_write os fd s w = (Inr k, w1) \<and> 0 < k))"

text \<open>A descriptor that takes whole buffers, as a blocking socket does.\<close>

definition writes_all :: "'w os \<Rightarrow> int \<Rightarrow> ('w \<Rightarrow> string) \<Rightarrow> bool" where
  "writes_all os fd outv \<longleftrightarrow>
     (\<forall>s w. fst (os_write os fd s w) = Inr (length s) \<and> outv (snd (os_write os fd s w)) = outv w @ s)"

text \<open>
  A read on \<open>fd\<close> returns some non-empty prefix, no longer than asked for, of what is left of
  the input seen by \<open>inp\<close>, and nothing at its end.
\<close>

definition reads_from :: "'w os \<Rightarrow> int \<Rightarrow> ('w \<Rightarrow> string) \<Rightarrow> bool" where
  "reads_from os fd inp \<longleftrightarrow>
     (\<forall>n w. 0 < n \<longrightarrow> (\<exists>k w1. os_read os fd n w = (Inr (take k (inp w)), w1)
                             \<and> inp w1 = drop k (inp w) \<and> k \<le> n \<and> (inp w \<noteq> [] \<longrightarrow> 0 < k)))"

text \<open>Calls on one descriptor leave what another one sees alone.\<close>

definition read_keeps :: "'w os \<Rightarrow> int \<Rightarrow> ('w \<Rightarrow> 'a) \<Rightarrow> bool" where
  "read_keeps os fd v \<longleftrightarrow> (\<forall>n w. v (snd (os_read os fd n w)) = v w)"

definition write_keeps :: "'w os \<Rightarrow> int \<Rightarrow> ('w \<Rightarrow> 'a) \<Rightarrow> bool" where
  "write_keeps os fd v \<longleftrightarrow> (\<forall>s w. v (snd (os_write os fd s w)) = v w)"

section \<open>Lemmas\<close>

lemma dprintf_bytes_short: "length s < 1024 \<Longrightarrow> dprintf_bytes s = s"
  by (simp add: dprintf_bytes_def snprintf_buf_def)

lemma dprintf_bytes_long: "1024 \<le> length s \<Longrightarrow> dprintf_bytes s = take 1023 s @ [CHR 0x00]"
  by (simp add: dprintf_bytes_def snprintf_buf_def)

lemma writes_toD:
  "writes_to os fd outv \<Longrightarrow> os_write os fd s w = (Inr k, w1) \<Longrightarrow> k \<le> length s \<and> outv w1 = outv w @ take k s"
  "writes_to os fd outv \<Longrightarrow> os_write os fd s w = (Inl e, w1) \<Longrightarrow> outv w1 = outv w"
  by (auto simp: writes_to_def dest!: spec [of _ s] spec [of _ w])

lemma write_keepsD: "write_keeps os fd v \<Longrightarrow> os_write os fd s w = (r, w1) \<Longrightarrow> v w1 = v w"
  unfolding write_keeps_def by (metis snd_conv)

lemma read_keepsD: "read_keeps os fd v \<Longrightarrow> os_read os fd n w = (r, w1) \<Longrightarrow> v w1 = v w"
  unfolding read_keeps_def by (metis snd_conv)

lemma reads_fromE:
  assumes "reads_from os fd inp" "0 < n"
  obtains k w1 where "os_read os fd n w = (Inr (take k (inp w)), w1)" "inp w1 = drop k (inp w)" "k \<le> n"
    "inp w \<noteq> [] \<Longrightarrow> 0 < k"
  using assms unfolding reads_from_def by meson

lemma writes_allE:
  assumes "writes_all os fd outv"
  obtains w1 where "os_write os fd s w = (Inr (length s), w1)" "outv w1 = outv w @ s"
  using assms unfolding writes_all_def by (metis prod.collapse)

text \<open>What came out of a write loop that returned: all of it, or a prefix and an error.\<close>

lemmas safe_write_induct = safe_write_loop.raw_induct [rotated 1, consumes 1, case_names step]

lemma safe_write_loop_out:
  "safe_write_loop os fd rest w = Some y \<Longrightarrow> writes_to os fd outv \<Longrightarrow>
     \<exists>k. outv (snd y) = outv w @ take k rest \<and> (fst y = Inr () \<longrightarrow> length rest \<le> k)"
proof (induction os fd rest w y rule: safe_write_induct)
  case (step f os fd rest w y)
  show ?case
  proof (cases "os_write os fd rest w")
    case (Pair r w1)
    show ?thesis
    proof (cases r)
      case (Inl e)
      then have o1: "outv w1 = outv w" using writes_toD(2) [OF step(3)] Pair by blast
      show ?thesis
      proof (cases "rest \<noteq> [] \<and> e = EINTR")
        case True
        with step(2) Pair Inl have "f os fd rest w1 = Some y" by simp
        from step(1) [OF this step(3)] o1 show ?thesis by simp
      next
        case False
        with step(2) Pair Inl o1 show ?thesis by (auto split: if_splits intro: exI [of _ 0])
      qed
    next
      case (Inr k)
      note out = writes_toD(1) [OF step(3) Pair [unfolded Inr]]
      show ?thesis
      proof (cases "rest = []")
        case True
        with step(2) show ?thesis by auto
      next
        case False
        with step(2) Pair Inr have "f os fd (drop k rest) w1 = Some y" by simp
        from step(1) [OF this step(3)] obtain j where
          "outv (snd y) = outv w1 @ take j (drop k rest)" "fst y = Inr () \<longrightarrow> length (drop k rest) \<le> j" by blast
        then show ?thesis using out by (intro exI [of _ "k + j"]) (auto simp: take_add)
      qed
    qed
  qed
qed

lemma safe_write_loop_total:
  assumes "writes_to os fd outv" "write_progress os fd"
  shows "\<exists>w1. safe_write_loop os fd rest w = Some (Inr (), w1)"
proof (induction "length rest" arbitrary: rest w rule: less_induct)
  case less
  show ?case
  proof (cases "rest = []")
    case True
    then show ?thesis by (simp add: safe_write_loop.simps)
  next
    case False
    then obtain k w1 where k: "os_write os fd rest w = (Inr k, w1)" "0 < k"
      using assms(2) unfolding write_progress_def by blast
    then have "length (drop k rest) < length rest" using False by simp
    from less [OF this, of w1] show ?thesis
      using False k by (auto simp: safe_write_loop.simps [of os fd rest w])
  qed
qed

lemma map_sum_Inr_eq: "map_sum f g r = Inr y \<Longrightarrow> (\<And>x. r = Inr x \<Longrightarrow> y = g x \<Longrightarrow> P) \<Longrightarrow> P"
  by (cases r) auto

lemma safe_write_out:
  assumes "writes_to os fd outv" "safe_write os fd buf w = Some (Inr n, w1)"
  shows "n = length buf \<and> outv w1 = outv w @ buf"
proof -
  obtain u where l: "safe_write_loop os fd buf w = Some (Inr u, w1)" "n = length buf"
    using assms(2) by (auto simp: safe_write_def elim!: map_sum_Inr_eq)
  from safe_write_loop_out [OF l(1) assms(1)] l(2) show ?thesis by auto
qed

lemma safe_write_total:
  assumes "writes_to os fd outv" "write_progress os fd"
  shows "\<exists>w1. safe_write os fd buf w = Some (Inr (length buf), w1) \<and> outv w1 = outv w @ buf"
proof -
  obtain w1 where "safe_write_loop os fd buf w = Some (Inr (), w1)"
    using safe_write_loop_total [OF assms] by blast
  then have "safe_write os fd buf w = Some (Inr (length buf), w1)" by (simp add: safe_write_def)
  with safe_write_out [OF assms(1) this] show ?thesis by blast
qed

lemma safe_write_loop_err:
  "safe_write_loop os fd rest w = Some y \<Longrightarrow> fst y = Inl e \<Longrightarrow> e \<noteq> EINTR"
proof (induction os fd rest w y rule: safe_write_induct)
  case (step f os fd rest w y)
  then show ?case by (auto split: if_splits prod.splits sum.splits)
qed

lemma safe_write_loop_keeps:
  "safe_write_loop os fd rest w = Some y \<Longrightarrow> write_keeps os fd v \<Longrightarrow> v (snd y) = v w"
proof (induction os fd rest w y rule: safe_write_induct)
  case (step f os fd rest w y)
  then show ?case
    by (auto split: if_splits prod.splits sum.splits dest: write_keepsD)
qed

lemma safe_write_keeps:
  "safe_write os fd buf w = Some (r, w1) \<Longrightarrow> write_keeps os fd v \<Longrightarrow> v w1 = v w"
  by (auto simp: safe_write_def dest: safe_write_loop_keeps)

lemma copy_to_fd_total:
  assumes "reads_from os src inp" "writes_to os dst outv" "write_progress os dst"
    "read_keeps os src outv" "write_keeps os dst inp"
  shows "\<exists>w1. copy_to_fd os dst src w = Some (0, w1) \<and> outv w1 = outv w @ inp w \<and> inp w1 = []"
proof (induction "length (inp w)" arbitrary: w rule: less_induct)
  case less
  obtain k w1 where k: "os_read os src 1024 w = (Inr (take k (inp w)), w1)" "inp w1 = drop k (inp w)"
    "inp w \<noteq> [] \<Longrightarrow> 0 < k" by (rule reads_fromE [OF assms(1), of 1024 w]) auto
  have o1: "outv w1 = outv w" using read_keepsD [OF assms(4) k(1)] .
  show ?case
  proof (cases "inp w = []")
    case True
    with k o1 show ?thesis by (simp add: copy_to_fd.simps)
  next
    case False
    obtain w2 where w2: "safe_write os dst (take k (inp w)) w1 = Some (Inr (length (take k (inp w))), w2)"
      "outv w2 = outv w1 @ take k (inp w)" using safe_write_total [OF assms(2,3)] by blast
    have i2: "inp w2 = drop k (inp w)" using safe_write_keeps [OF w2(1) assms(5)] k(2) by simp
    have "length (inp w2) < length (inp w)" using False k(3) i2 by simp
    from less [OF this] obtain w3 where w3: "copy_to_fd os dst src w2 = Some (0, w3)"
      "outv w3 = outv w2 @ inp w2" "inp w3 = []" by blast
    with w2 o1 i2 have "outv w3 = outv w @ inp w" by simp
    moreover have "copy_to_fd os dst src w = copy_to_fd os dst src w2"
      using False k w2 by (subst copy_to_fd.simps) simp
    ultimately show ?thesis using w3 by auto
  qed
qed

section \<open>Concrete kernels\<close>

text \<open>
  Kernels at which hypotheses are shown to hold: \<open>null_os\<close>, where every call that can fail
  does and nothing changes, and \<open>console_os\<close>, whose state is the input still to be read and
  the output written so far on every descriptor.
\<close>

definition ENOSYS :: errno where "ENOSYS = 78"

definition null_os :: "'w os" where
  "null_os = \<lparr>
     os_read = (\<lambda>fd n w. (Inl ENOSYS, w)), os_write = (\<lambda>fd s w. (Inr (length s), w)),
     os_open = (\<lambda>p f w. (Inl ENOSYS, w)), os_close = (\<lambda>fd w. w),
     os_lseek_end = (\<lambda>fd w. (- 1, w)), os_lseek_start = (\<lambda>fd w. w),
     os_stat = (\<lambda>p w. (Inl ENOSYS, w)), os_lstat = (\<lambda>p w. (Inl ENOSYS, w)),
     os_readdir = (\<lambda>p w. (Inl ENOSYS, w)), os_unlink = (\<lambda>p w. (Some ENOSYS, w)),
     os_rmdir = (\<lambda>p w. (Some ENOSYS, w)), os_mkdir = (\<lambda>p w. (Some ENOSYS, w)),
     os_rename = (\<lambda>p q w. (Some ENOSYS, w)), os_chdir = (\<lambda>p w. (Some ENOSYS, w)),
     os_getcwd = (\<lambda>w. (Inl ENOSYS, w)), os_access = (\<lambda>p w. (Some ENOSYS, w)),
     os_kill = (\<lambda>p s w. (Some ENOSYS, w)), os_getpid = (\<lambda>w. 100),
     os_fork = (\<lambda>w. (Inl ENOSYS, w)), os_waitpid = (\<lambda>p w. (Exited_With 0, w)),
     os_sysctl_size = (\<lambda>w. (Inl ENOSYS, w)), os_sysctl_procs = (\<lambda>n w. (Inl ENOSYS, w)), os_usleep = (\<lambda>n w. w),
     os_socket = (\<lambda>w. (Inl ENOSYS, w)), os_connect = (\<lambda>fd p w. (Some ENOSYS, w)),
     os_bind = (\<lambda>fd p w. (Some ENOSYS, w)), os_listen = (\<lambda>fd n w. (Some ENOSYS, w)),
     os_accept = (\<lambda>fd w. (Inl ENOSYS, w)), os_select = (\<lambda>fd n w. (Inl ENOSYS, w)),
     os_reuseaddr = (\<lambda>fd w. w), os_sigaction = (\<lambda>s w. w), os_pipe = (\<lambda>w. (Inl ENOSYS, w)),
     os_execvp = (\<lambda>p av w. (Some ENOSYS, w)), os_wait = (\<lambda>w. (Exited_With 0, w)),
     os_dup2 = (\<lambda>a b w. w), os_setsid = (\<lambda>w. w),
     os_getenv = (\<lambda>n w. None), os_setenv = (\<lambda>n v w. w),
     os_putenv = (\<lambda>s w. w), os_malloc_ok = (\<lambda>n w. n \<ge> 0), os_set_name = (\<lambda>n w. (0, w)), os_klog = (\<lambda>s w. w), os_klog_perror = (\<lambda>s w. w),
     os_term_signal = (\<lambda>w. (False, w)), os_errno = (\<lambda>w. 0), os_strerror = (\<lambda>e. ''error''), os_strftime = (\<lambda>t. ''1970-01-01 00:00'')\<rparr>"

definition console_os :: "(string \<times> string) os" where
  "console_os = null_os\<lparr>
     os_read := (\<lambda>fd n (i, o1). (Inr (take n i), (drop n i, o1))),
     os_write := (\<lambda>fd s (i, o1). (Inr (length s), (i, o1 @ s)))\<rparr>"

lemma console_read [simp]: "os_read console_os fd n w = (Inr (take n (fst w)), (drop n (fst w), snd w))"
  and console_write [simp]: "os_write console_os fd s w = (Inr (length s), (fst w, snd w @ s))"
  by (simp_all add: console_os_def split_def)

lemma console_laws:
  "reads_from console_os fd fst" "writes_to console_os fd snd" "write_progress console_os fd"
  "read_keeps console_os fd snd" "write_keeps console_os fd fst"
  by (auto simp: reads_from_def writes_to_def write_progress_def read_keeps_def write_keeps_def)

lemma console_writes_all: "writes_all console_os fd snd"
  by (simp add: writes_all_def)

text \<open>A descriptor that is not in a table, an association list in which the first entry counts.\<close>

definition fresh_fd :: "(int \<times> 'a) list \<Rightarrow> int" where
  "fresh_fd t = 3 + sum_list (map (\<lambda>x. \<bar>fst x\<bar>) t)"

lemma fresh_fd: "2 < fresh_fd t" "map_of t (fresh_fd t) = None" "map_of t (fresh_fd t + 1) = None"
proof -
  have nn: "0 \<le> sum_list (map (\<lambda>x. \<bar>fst x\<bar>) t)" by (rule sum_list_nonneg) auto
  then show "2 < fresh_fd t" by (simp add: fresh_fd_def)
  have "k < fresh_fd t" if "(k, v) \<in> set t" for k v
  proof -
    have "\<bar>k\<bar> \<le> sum_list (map (\<lambda>x. \<bar>fst x\<bar>) t)"
      using that by (intro member_le_sum_list) (auto simp: image_iff intro: bexI [of _ "(k, v)"])
    then show ?thesis by (simp add: fresh_fd_def)
  qed
  then show "map_of t (fresh_fd t) = None" "map_of t (fresh_fd t + 1) = None"
    by (force simp: map_of_eq_None_iff)+
qed

lemma map_of_close: "map_of (filter (\<lambda>x. fst x \<noteq> fd) t) = (map_of t)(fd := None)"
  by (induction t) (auto simp: fun_eq_iff)

section \<open>Properties\<close>

text \<open>The \<^verbatim>\<open>dprintf\<close> of \<^verbatim>\<open>include/util.h\<close> sends one \<^verbatim>\<open>write\<close> whose buffer is the formatted message when the
  message has fewer than 1024 characters; a longer message is cut to 1023 characters and
  followed by a NUL byte, since the length is clamped to \<^verbatim>\<open>sizeof(buf)\<close> and not to one less.\<close>

theorem dprintf_writes:
  "dprintf os fd s w =
     (case os_write os fd (if length s < 1024 then s else take 1023 s @ [CHR 0x00]) w of
        (Inl e, w1) \<Rightarrow> (- 1, w1)
      | (Inr k, w1) \<Rightarrow> (int (min (length s) 1024), w1))"
  by (cases "length s < 1024")
    (simp_all add: dprintf_def dprintf_bytes_short dprintf_bytes_long min_def split: prod.split sum.split)

text \<open>A kernel whose writes accept at most three bytes at a time.\<close>

definition short_os :: "(string \<times> string) os" where
  "short_os = console_os\<lparr>os_write := (\<lambda>fd s (i, o1). (Inr (min 3 (length s)), (i, o1 @ take 3 s)))\<rparr>"

lemma short_laws: "writes_to short_os fd snd" "write_progress short_os fd"
  by (auto simp: short_os_def writes_to_def write_progress_def min_def)

text \<open>Property C32.
  \<^verbatim>\<open>safe_write\<close> ends and writes the whole buffer, in order and once, on a descriptor whose
  writes may be short but make progress; it returns the length of the buffer.\<close>

theorem safe_write_complete:
  assumes "writes_to os fd outv" "write_progress os fd"
  shows "\<exists>w1. safe_write os fd buf w = Some (Inr (length buf), w1) \<and> outv w1 = outv w @ buf"
  by (rule safe_write_total [OF assms])

theorem safe_write_complete_witness:
  "\<exists>w1. safe_write short_os 1 ''abcdefgh'' ([], ''>'') = Some (Inr (length ''abcdefgh''), w1)
      \<and> snd w1 = ''>abcdefgh''"
  using safe_write_complete [OF short_laws [of 1], of "''abcdefgh''" "([], ''>'')"] by simp

text \<open>When \<^verbatim>\<open>safe_write\<close> returns, the output has grown by a prefix of the buffer; success means the
  whole buffer, and an interrupted call is never reported as an error.\<close>

theorem safe_write_prefix:
  assumes "writes_to os fd outv" "safe_write os fd buf w = Some (r, w1)"
  shows "\<exists>k. outv w1 = outv w @ take k buf
           \<and> (case r of Inr n \<Rightarrow> n = length buf \<and> outv w1 = outv w @ buf | Inl e \<Rightarrow> e \<noteq> EINTR)"
proof -
  obtain r0 where l: "safe_write_loop os fd buf w = Some (r0, w1)" "r = map_sum id (\<lambda>_. length buf) r0"
    using assms(2) by (auto simp: safe_write_def)
  from safe_write_loop_out [OF l(1) assms(1)] obtain k where k: "outv w1 = outv w @ take k buf" by auto
  show ?thesis
  proof (cases r)
    case (Inl e)
    with safe_write_loop_err [OF l(1)] l(2) k show ?thesis by (cases r0) auto
  next
    case (Inr n)
    with safe_write_out [OF assms(1)] assms(2) k show ?thesis by auto
  qed
qed

theorem safe_write_prefix_witness:
  "\<exists>k w1. safe_write short_os 1 ''abcde'' ([], ''>'') = Some (Inr 5, w1) \<and> snd w1 = ''>'' @ take k ''abcde''"
proof -
  have "\<exists>w1. safe_write short_os 1 ''abcde'' ([], ''>'') = Some (Inr 5, w1)"
    by (simp add: safe_write_def short_os_def safe_write_loop.simps)
  then show ?thesis using safe_write_prefix [OF short_laws(1), of 1 "''abcde''" "([], ''>'')"] by fastforce
qed

text \<open>\<^verbatim>\<open>copy_to_fd\<close> copies a source to its end: for a file that can be read and a destination
  whose writes make progress, it returns 0, has appended exactly the content of the source
  to the destination, and has read the source up.\<close>

theorem copy_to_fd_copies:
  assumes "reads_from os src inp" "writes_to os dst outv" "write_progress os dst"
    "read_keeps os src outv" "write_keeps os dst inp"
  shows "\<exists>w1. copy_to_fd os dst src w = Some (0, w1) \<and> outv w1 = outv w @ inp w \<and> inp w1 = []"
  by (rule copy_to_fd_total [OF assms])

theorem copy_to_fd_copies_witness:
  "\<exists>w1. copy_to_fd console_os 1 3 (''file'', ''>'') = Some (0, w1) \<and> snd w1 = ''>file'' \<and> fst w1 = []"
  using copy_to_fd_copies [OF console_laws, of 1 3 "(''file'', ''>'')"] by simp

end
