(* ===== verification/Trace.thy ===== *)
theory Trace
  imports Os
begin

text \<open>
  Traces of system calls. \<open>logged os\<close> is the kernel \<open>os\<close> that also keeps the list of the calls
  made so far that act on files, descriptors and processes. A property of the calls that a
  function makes, in any world and under any kernel, is a property of its run on \<open>logged os\<close>.
\<close>

datatype event =
    Ev_Open string "open_flag list" | Ev_Close int | Ev_Write int string
  | Ev_Unlink string | Ev_Rmdir string | Ev_Mkdir string | Ev_Rename string string
  | Ev_Kill int int | Ev_Fork | Ev_Dup2 int int | Ev_Bind int nat | Ev_Exec string "string list"

datatype 'w traced = Traced (world: 'w) (events: "event list")

text \<open>A call with a result and one without, logged as the events \<open>es\<close>.\<close>

definition tr :: "event list \<Rightarrow> ('w \<Rightarrow> 'a \<times> 'w) \<Rightarrow> 'w traced \<Rightarrow> 'a \<times> 'w traced" where
  "tr es f wl = (fst (f (world wl)), Traced (snd (f (world wl))) (events wl @ es))"

definition ts :: "event list \<Rightarrow> ('w \<Rightarrow> 'w) \<Rightarrow> 'w traced \<Rightarrow> 'w traced" where
  "ts es f wl = Traced (f (world wl)) (events wl @ es)"

definition logged :: "'w os \<Rightarrow> 'w traced os" where
  "logged os = \<lparr>
     os_read = (\<lambda>fd n. tr [] (os_read os fd n)), os_write = (\<lambda>fd s. tr [Ev_Write fd s] (os_write os fd s)),
     os_open = (\<lambda>p f. tr [Ev_Open p f] (os_open os p f)), os_close = (\<lambda>fd. ts [Ev_Close fd] (os_close os fd)),
     os_lseek_end = (\<lambda>fd. tr [] (os_lseek_end os fd)), os_lseek_start = (\<lambda>fd. ts [] (os_lseek_start os fd)),
     os_stat = (\<lambda>p. tr [] (os_stat os p)), os_lstat = (\<lambda>p. tr [] (os_lstat os p)),
     os_readdir = (\<lambda>p. tr [] (os_readdir os p)), os_unlink = (\<lambda>p. tr [Ev_Unlink p] (os_unlink os p)),
     os_rmdir = (\<lambda>p. tr [Ev_Rmdir p] (os_rmdir os p)), os_mkdir = (\<lambda>p. tr [Ev_Mkdir p] (os_mkdir os p)),
     os_rename = (\<lambda>p q. tr [Ev_Rename p q] (os_rename os p q)), os_chdir = (\<lambda>p. tr [] (os_chdir os p)),
     os_getcwd = tr [] (os_getcwd os), os_access = (\<lambda>p. tr [] (os_access os p)),
     os_kill = (\<lambda>p s. tr [Ev_Kill p s] (os_kill os p s)), os_getpid = (\<lambda>wl. os_getpid os (world wl)),
     os_fork = tr [Ev_Fork] (os_fork os), os_waitpid = (\<lambda>p. tr [] (os_waitpid os p)),
     os_sysctl_size = tr [] (os_sysctl_size os), os_sysctl_procs = (\<lambda>n. tr [] (os_sysctl_procs os n)),
     os_usleep = (\<lambda>n. ts [] (os_usleep os n)),
     os_socket = tr [] (os_socket os), os_connect = (\<lambda>fd p. tr [] (os_connect os fd p)),
     os_bind = (\<lambda>fd p. tr [Ev_Bind fd p] (os_bind os fd p)), os_listen = (\<lambda>fd n. tr [] (os_listen os fd n)),
     os_accept = (\<lambda>fd. tr [] (os_accept os fd)), os_select = (\<lambda>fd n. tr [] (os_select os fd n)),
     os_reuseaddr = (\<lambda>fd. ts [] (os_reuseaddr os fd)), os_sigaction = (\<lambda>s. ts [] (os_sigaction os s)),
     os_pipe = tr [] (os_pipe os),
     os_execvp = (\<lambda>p av. tr [Ev_Exec p av] (os_execvp os p av)), os_wait = tr [] (os_wait os),
     os_dup2 = (\<lambda>a b. ts [Ev_Dup2 a b] (os_dup2 os a b)), os_setsid = ts [] (os_setsid os),
     os_getenv = (\<lambda>n wl. os_getenv os n (world wl)), os_setenv = (\<lambda>n v. ts [] (os_setenv os n v)),
     os_putenv = (\<lambda>s. ts [] (os_putenv os s)), os_malloc_ok = (\<lambda>n wl. os_malloc_ok os n (world wl)),
     os_set_name = (\<lambda>n. tr [] (os_set_name os n)), os_klog = (\<lambda>s. ts [] (os_klog os s)),
     os_klog_perror = (\<lambda>s. ts [] (os_klog_perror os s)),
     os_term_signal = tr [] (os_term_signal os), os_errno = (\<lambda>wl. os_errno os (world wl)), os_strerror = os_strerror os, os_strftime = os_strftime os\<rparr>"

text \<open>The events that a traced run has added.\<close>

definition added :: "event set \<Rightarrow> 'w traced \<Rightarrow> 'w traced \<Rightarrow> bool" where
  "added E wl wl' \<longleftrightarrow> (\<exists>es. events wl' = events wl @ es \<and> set es \<subseteq> E)"

named_theorems traces \<open>the events of the traced calls and functions\<close>

lemma added_refl [simp, intro]: "added E wl wl"
  by (simp add: added_def)

lemma added_trans [trans]: "added E a b \<Longrightarrow> added E b c \<Longrightarrow> added E a c"
  by (force simp: added_def)

lemma added_mono: "added E a b \<Longrightarrow> E \<subseteq> F \<Longrightarrow> added F a b"
  by (force simp: added_def)

lemma added_events: "added E (Traced w []) wl \<Longrightarrow> set (events wl) \<subseteq> E"
  by (auto simp: added_def)

lemma tr_added: "added E wl v \<Longrightarrow> set es \<subseteq> E \<Longrightarrow> added E wl (snd (tr es f v))"
  by (force simp: added_def tr_def)

lemma ts_added: "added E wl v \<Longrightarrow> set es \<subseteq> E \<Longrightarrow> added E wl (ts es f v)"
  by (force simp: added_def ts_def)

lemma logged_fields:
  "os_kill (logged os) p s = tr [Ev_Kill p s] (os_kill os p s)"
  "os_write (logged os) fd b = tr [Ev_Write fd b] (os_write os fd b)"
  "os_open (logged os) f fl = tr [Ev_Open f fl] (os_open os f fl)"
  "os_close (logged os) fd = ts [Ev_Close fd] (os_close os fd)"
  "os_read (logged os) fd n = tr [] (os_read os fd n)"
  by (simp_all add: logged_def)

text \<open>Rules that follow the code: each logged call adds its own event, if any.\<close>

lemma logged_silent [traces]:
  assumes "added E wl v"
  shows "added E wl (snd (os_read (logged os) fd n v))"
    "added E wl (snd (os_stat (logged os) p v))"
    "added E wl (snd (os_lstat (logged os) p v))"
    "added E wl (snd (os_readdir (logged os) p v))"
    "added E wl (snd (os_access (logged os) p v))"
    "added E wl (snd (os_getcwd (logged os) v))"
    "added E wl (snd (os_chdir (logged os) p v))"
    "added E wl (snd (os_sysctl_size (logged os) v))"
    "added E wl (snd (os_sysctl_procs (logged os) m v))"
    "added E wl (os_usleep (logged os) n v)"
    "added E wl (os_klog (logged os) s v)"
    "added E wl (os_klog_perror (logged os) s v)"
    "added E wl (snd (os_socket (logged os) v))"
    "added E wl (os_reuseaddr (logged os) fd v)"
    "added E wl (snd (os_listen (logged os) fd n v))"
    "added E wl (snd (os_wait (logged os) v))"
    "added E wl (snd (os_waitpid (logged os) m v))"
    "added E wl (snd (os_pipe (logged os) v))"
    "added E wl (os_setenv (logged os) s p v)"
  using assms by (auto simp: logged_def intro!: tr_added ts_added)

lemma logged_calls [traces]:
  assumes "added E wl v"
  shows "Ev_Write fd s \<in> E \<Longrightarrow> added E wl (snd (os_write (logged os) fd s v))"
    "Ev_Open p fl \<in> E \<Longrightarrow> added E wl (snd (os_open (logged os) p fl v))"
    "Ev_Close fd \<in> E \<Longrightarrow> added E wl (os_close (logged os) fd v)"
    "Ev_Unlink p \<in> E \<Longrightarrow> added E wl (snd (os_unlink (logged os) p v))"
    "Ev_Rmdir p \<in> E \<Longrightarrow> added E wl (snd (os_rmdir (logged os) p v))"
    "Ev_Mkdir p \<in> E \<Longrightarrow> added E wl (snd (os_mkdir (logged os) p v))"
    "Ev_Rename p q \<in> E \<Longrightarrow> added E wl (snd (os_rename (logged os) p q v))"
    "Ev_Kill i j \<in> E \<Longrightarrow> added E wl (snd (os_kill (logged os) i j v))"
    "Ev_Bind fd n \<in> E \<Longrightarrow> added E wl (snd (os_bind (logged os) fd n v))"
    "Ev_Dup2 i j \<in> E \<Longrightarrow> added E wl (os_dup2 (logged os) i j v)"
  using assms by (auto simp: logged_def intro!: tr_added ts_added)

lemma added_branches [traces]:
  "added E wl (snd f) \<Longrightarrow> (\<And>r w1. f = (r, w1) \<Longrightarrow> added E wl w1 \<Longrightarrow> added E wl (snd (h r w1))) \<Longrightarrow> added E wl (snd (case f of (r, w1) \<Rightarrow> h r w1))"
  "added E wl (snd f) \<Longrightarrow> (\<And>r w1. f = (r, w1) \<Longrightarrow> added E wl w1 \<Longrightarrow> added E wl (h1 r w1)) \<Longrightarrow> added E wl (case f of (r, w1) \<Rightarrow> h1 r w1)"
  "(\<And>e. s = Inl e \<Longrightarrow> added E wl (snd (f1 e))) \<Longrightarrow> (\<And>y. s = Inr y \<Longrightarrow> added E wl (snd (g1 y)))
     \<Longrightarrow> added E wl (snd (case s of Inl e \<Rightarrow> f1 e | Inr y \<Rightarrow> g1 y))"
  "(\<And>e. s = Inl e \<Longrightarrow> added E wl (f2 e)) \<Longrightarrow> (\<And>y. s = Inr y \<Longrightarrow> added E wl (g2 y))
     \<Longrightarrow> added E wl (case s of Inl e \<Rightarrow> f2 e | Inr y \<Rightarrow> g2 y)"
  "(q = None \<Longrightarrow> added E wl (snd a3)) \<Longrightarrow> (\<And>x. q = Some x \<Longrightarrow> added E wl (snd (g3 x)))
     \<Longrightarrow> added E wl (snd (case q of None \<Rightarrow> a3 | Some x \<Rightarrow> g3 x))"
  "(q = None \<Longrightarrow> added E wl a4) \<Longrightarrow> (\<And>x. q = Some x \<Longrightarrow> added E wl (g4 x))
     \<Longrightarrow> added E wl (case q of None \<Rightarrow> a4 | Some x \<Rightarrow> g4 x)"
  "(b \<Longrightarrow> added E wl (snd a5)) \<Longrightarrow> (\<not> b \<Longrightarrow> added E wl (snd b5)) \<Longrightarrow> added E wl (snd (if b then a5 else b5))"
  "(b \<Longrightarrow> added E wl a6) \<Longrightarrow> (\<not> b \<Longrightarrow> added E wl b6) \<Longrightarrow> added E wl (if b then a6 else b6)"
  "added E wl v \<Longrightarrow> added E wl (snd (x, v))"
  by (cases f; cases s; cases q; simp)+

lemma out_added [traces]:
  "added E wl v \<Longrightarrow> Ev_Write 1 (dprintf_bytes s) \<in> E \<Longrightarrow> added E wl (out (logged os) s v)"
  unfolding out_def dprintf_def
  by (intro traces) simp_all

lemma out_events: "events (out (logged os) s wl) = events wl @ [Ev_Write 1 (dprintf_bytes s)]"
  by (simp add: out_def dprintf_def logged_fields tr_def split: sum.split)

end
