(* ===== verification/Files.thy ===== *)
theory Files
  imports Trace
begin

text \<open>
  The file builtins of \<^verbatim>\<open>src/builtins.c\<close>: \<^verbatim>\<open>ls\<close>, \<^verbatim>\<open>rm\<close>, \<^verbatim>\<open>mkdir\<close>, \<^verbatim>\<open>cp\<close>, \<^verbatim>\<open>mv\<close>, \<^verbatim>\<open>pwd\<close>, \<^verbatim>\<open>cd\<close>, \<^verbatim>\<open>cat\<close> and
  \<^verbatim>\<open>ps\<close>. \<^verbatim>\<open>opendir\<close> with the \<^verbatim>\<open>readdir\<close> calls that follow it is one call that returns the names.
  Where a function returns -1 and its caller prints \<^verbatim>\<open>errno\<close>, the model returns \<open>Inl errno\<close>.
\<close>

section \<open>Iteration\<close>

text \<open>
  The loops over directory entries whose body can fail: the body is run on each element,
  and the first failure ends the loop.
\<close>

primrec while_ok :: "('a \<Rightarrow> 'w \<Rightarrow> ((errno + unit) \<times> 'w) option) \<Rightarrow> 'a list \<Rightarrow> 'w \<Rightarrow> ((errno + unit) \<times> 'w) option" where
  "while_ok f [] w = Some (Inr (), w)"
| "while_ok f (x # xs) w =
     (case f x w of
        None \<Rightarrow> None
      | Some (r, w1) \<Rightarrow> (case r of Inl e \<Rightarrow> Some (Inl e, w1) | Inr u \<Rightarrow> while_ok f xs w1))"

lemma while_ok_mono [partial_function_mono]:
  assumes "\<And>x w. mono_option (\<lambda>f. F f x w)"
  shows "mono_option (\<lambda>f. while_ok (F f) xs w)"
proof (induction xs arbitrary: w)
  case Nil
  show ?case by (simp add: option.const_mono)
next
  case (Cons x xs)
  have eq: "(\<lambda>f. while_ok (F f) (x # xs) w) =
      (\<lambda>f. Option.bind (F f x w) (\<lambda>y. case fst y of Inl e \<Rightarrow> Some (Inl e, snd y) | Inr u \<Rightarrow> while_ok (F f) xs (snd y)))"
    by (rule ext) (auto split: option.split prod.split sum.split)
  show ?case unfolding eq
  proof (rule bind_mono)
    show "mono_option (\<lambda>f. F f x w)" by (rule assms)
    fix y
    show "mono_option (\<lambda>f. case fst y of Inl e \<Rightarrow> Some (Inl e, snd y) | Inr u \<Rightarrow> while_ok (F f) xs (snd y))"
      by (cases "fst y") (simp_all add: Cons option.const_mono)
  qed
qed

section \<open>The code\<close>

definition fmt_mode :: "ftype \<Rightarrow> nat \<Rightarrow> string" where
  "fmt_mode t perm =
     (case t of Dir \<Rightarrow> CHR ''d'' | Lnk \<Rightarrow> CHR ''l'' | Reg \<Rightarrow> CHR ''-'')
     # map (\<lambda>i. if bit perm (8 - i) then ''rwx'' ! (i mod 3) else CHR ''-'') [0..<9]"

definition ls_long_line :: "'w os \<Rightarrow> stat \<Rightarrow> string \<Rightarrow> string" where
  "ls_long_line os st name =
     fmt_mode (st_type st) (st_perm st) @ '' '' @ pad_left 6 (show_nat (st_nlink st)) @ '' ''
     @ pad_left 6 (show_int (st_uid st)) @ '' '' @ pad_left 6 (show_int (st_gid st)) @ '' ''
     @ pad_left 8 (show_int (st_size st)) @ '' '' @ os_strftime os (st_mtime st) @ '' '' @ name @ ''\<newline>''"

definition path_join :: "string \<Rightarrow> string \<Rightarrow> string" where
  "path_join path name = snprintf_buf 1024 (path @ ''/'' @ name)"

definition do_ls_entry :: "'w os \<Rightarrow> string \<Rightarrow> string \<Rightarrow> bool \<Rightarrow> 'w \<Rightarrow> int \<times> 'w" where
  "do_ls_entry os path name longf w =
     (if \<not> longf then (0, out os (name @ ''\<newline>'') w)
      else case os_lstat os (path_join path name) w of
             (Inl e, w1) \<Rightarrow> (- 1, w1)
           | (Inr st, w1) \<Rightarrow> (0, out os (ls_long_line os st name) w1))"

text \<open>The loop over the entries of a directory.\<close>

fun ls_entries :: "'w os \<Rightarrow> string \<Rightarrow> bool \<Rightarrow> bool \<Rightarrow> string list \<Rightarrow> 'w \<Rightarrow> 'w" where
  "ls_entries os path longf showall [] w = w"
| "ls_entries os path longf showall (n # ns) w =
     (if \<not> showall \<and> take 1 n = ''.'' then ls_entries os path longf showall ns w
      else ls_entries os path longf showall ns (snd (do_ls_entry os path n longf w)))"

definition ls_recursive :: "'w os \<Rightarrow> string \<Rightarrow> bool \<Rightarrow> bool \<Rightarrow> 'w \<Rightarrow> int \<times> 'w" where
  "ls_recursive os path longf showall w =
     (case os_readdir os path w of
        (Inl e, w1) \<Rightarrow> (- 1, print_error os path e w1)
      | (Inr ns, w1) \<Rightarrow>
          (0, out os ''\<newline>'' (ls_entries os path longf showall ns (out os (path @ '':\<newline>'') w1))))"

text \<open>The options: long, all, recursive, and the arguments that follow them.\<close>

fun ls_options :: "string list \<Rightarrow> bool \<Rightarrow> bool \<Rightarrow> bool \<Rightarrow> bool \<times> bool \<times> bool \<times> string list" where
  "ls_options [] longf all rec = (longf, all, rec, [])"
| "ls_options (a # as) longf all rec =
     (if take 1 a = ''-''
      then ls_options as (longf \<or> CHR ''l'' \<in> set a) (all \<or> CHR ''a'' \<in> set a) (rec \<or> CHR ''R'' \<in> set a)
      else (longf, all, rec, a # as))"

definition ls_one :: "'w os \<Rightarrow> bool \<Rightarrow> bool \<Rightarrow> string \<Rightarrow> 'w \<Rightarrow> 'w" where
  "ls_one os longf all a w =
     (case os_lstat os a w of
        (Inl e, w1) \<Rightarrow> print_error os a e w1
      | (Inr st, w1) \<Rightarrow>
          if st_type st = Dir then
            (case os_readdir os a w1 of
               (Inl e, w2) \<Rightarrow> print_error os a e w2
             | (Inr ns, w2) \<Rightarrow> ls_entries os a longf all ns w2)
          else snd (do_ls_entry os ''.'' a longf w1))"

fun ls_args :: "'w os \<Rightarrow> bool \<Rightarrow> bool \<Rightarrow> bool \<Rightarrow> string list \<Rightarrow> 'w \<Rightarrow> 'w" where
  "ls_args os longf all rec [] w = w"
| "ls_args os longf all rec (a # as) w =
     ls_args os longf all rec as
       (if rec then snd (ls_recursive os a longf all w) else ls_one os longf all a w)"

definition cmd_ls :: "'w os \<Rightarrow> string list \<Rightarrow> 'w \<Rightarrow> int \<times> 'w" where
  "cmd_ls os av w =
     (let (longf, all, rec, args) = ls_options (tl av) False False False
      in if args = [] then
           (if rec then ls_recursive os ''.'' longf all w
            else case os_readdir os ''.'' w of
                   (Inl e, w1) \<Rightarrow> (- 1, print_error os ''.'' e w1)
                 | (Inr ns, w1) \<Rightarrow> (0, ls_entries os ''.'' longf all ns w1))
         else (0, ls_args os longf all rec args w))"

definition dot_entry :: "string \<Rightarrow> bool" where
  "dot_entry n \<longleftrightarrow> n = ''.'' \<or> n = ''..''"

partial_function (option) recurse_rm :: "'w os \<Rightarrow> string \<Rightarrow> 'w \<Rightarrow> ((errno + unit) \<times> 'w) option" where
  "recurse_rm os path w =
     (case os_lstat os path w of
        (Inl e, w1) \<Rightarrow> Some (Inl e, w1)
      | (Inr st, w1) \<Rightarrow>
          if st_type st = Dir then
            (case os_readdir os path w1 of
               (Inl e, w2) \<Rightarrow> Some (Inl e, w2)
             | (Inr ns, w2) \<Rightarrow>
                 Option.bind (while_ok (\<lambda>n v. recurse_rm os (path_join path n) v) (filter (\<lambda>n. \<not> dot_entry n) ns) w2)
                   (\<lambda>y. case fst y of
                          Inl e \<Rightarrow> Some (Inl e, snd y)
                        | Inr u \<Rightarrow>
                            (case os_rmdir os path (snd y) of
                               (Some e, w4) \<Rightarrow> Some (Inl e, w4) | (None, w4) \<Rightarrow> Some (Inr (), w4))))
          else (case os_unlink os path w1 of
                  (Some e, w2) \<Rightarrow> Some (Inl e, w2) | (None, w2) \<Rightarrow> Some (Inr (), w2)))"

declare recurse_rm.simps [code]

text \<open>The loop of \<^verbatim>\<open>rm\<close> over its arguments.\<close>

fun rm_args :: "'w os \<Rightarrow> bool \<Rightarrow> string list \<Rightarrow> 'w \<Rightarrow> 'w option" where
  "rm_args os rec [] w = Some w"
| "rm_args os rec (a # as) w =
     (if rec then do {
        (r, w1) \<leftarrow> recurse_rm os a w;
        rm_args os rec as (case r of Inl e \<Rightarrow> print_error os a e w1 | Inr u \<Rightarrow> w1)
      }
      else case os_unlink os a w of
             (Some e, w1) \<Rightarrow> rm_args os rec as (print_error os a e w1)
           | (None, w1) \<Rightarrow> rm_args os rec as w1)"

definition cmd_rm :: "'w os \<Rightarrow> string list \<Rightarrow> 'w \<Rightarrow> (int \<times> 'w) option" where
  "cmd_rm os av w =
     (if length av < 2 then Some (- 1, out os ''usage: rm [-r] path...\<newline>'' w)
      else let rec = (av ! 1 = ''-r'')
           in map_option (\<lambda>w1. (0, w1)) (rm_args os rec (drop (if rec then 2 else 1) av) w))"

text \<open>\<open>Some e\<close> is the return value -1 with the \<^verbatim>\<open>errno\<close> \<open>e\<close>.\<close>

definition ensure_dir :: "'w os \<Rightarrow> string \<Rightarrow> 'w \<Rightarrow> errno option \<times> 'w" where
  "ensure_dir os path w =
     (case os_stat os path w of
        (Inr st, w1) \<Rightarrow> (if st_type st = Dir then None else Some ENOTDIR, w1)
      | (Inl e, w1) \<Rightarrow> os_mkdir os path w1)"

text \<open>The loop over the characters of the path: \<open>done\<close> is what precedes the cursor.\<close>

fun mkdir_parents :: "'w os \<Rightarrow> string \<Rightarrow> string \<Rightarrow> 'w \<Rightarrow> 'w" where
  "mkdir_parents os done [] w = w"
| "mkdir_parents os done (c # cs) w =
     mkdir_parents os (done @ [c]) cs
       (if c = CHR ''/'' \<and> done \<noteq> [] then snd (ensure_dir os done w) else w)"

definition mkdir_p :: "'w os \<Rightarrow> string \<Rightarrow> 'w \<Rightarrow> 'w" where
  "mkdir_p os path w =
     (let tmp = take 1023 path;
          w1 = (if take 1 tmp = ''/'' then mkdir_parents os ''/'' (drop 1 tmp) w else mkdir_parents os [] tmp w)
      in case ensure_dir os tmp w1 of
           (None, w2) \<Rightarrow> w2
         | (Some e, w2) \<Rightarrow> if e \<noteq> EEXIST then print_error os tmp e w2 else w2)"

fun mkdir_args :: "'w os \<Rightarrow> bool \<Rightarrow> string list \<Rightarrow> 'w \<Rightarrow> 'w" where
  "mkdir_args os pflag [] w = w"
| "mkdir_args os pflag (a # as) w =
     mkdir_args os pflag as
       (if pflag then mkdir_p os a w
        else case os_mkdir os a w of (Some e, w1) \<Rightarrow> print_error os a e w1 | (None, w1) \<Rightarrow> w1)"

definition cmd_mkdir :: "'w os \<Rightarrow> string list \<Rightarrow> 'w \<Rightarrow> int \<times> 'w" where
  "cmd_mkdir os av w =
     (if length av < 2 then (- 1, out os ''usage: mkdir [-p] dir...\<newline>'' w)
      else let pflag = (av ! 1 = ''-p'')
           in (0, mkdir_args os pflag (drop (if pflag then 2 else 1) av) w))"

text \<open>The copy loop and what follows it; a short write leaves \<^verbatim>\<open>errno\<close> as it was.\<close>

partial_function (option) copy_loop :: "'w os \<Rightarrow> int \<Rightarrow> int \<Rightarrow> 'w \<Rightarrow> ((errno + unit) \<times> 'w) option" where
  "copy_loop os ifd ofd w =
     (case os_read os ifd 8192 w of
        (Inl e, w1) \<Rightarrow> Some (Inl e, os_close os ofd (os_close os ifd w1))
      | (Inr buf, w1) \<Rightarrow>
          if buf = [] then Some (Inr (), os_close os ofd (os_close os ifd w1))
          else case os_write os ofd buf w1 of
                 (Inl e, w2) \<Rightarrow> Some (Inl e, os_close os ofd (os_close os ifd w2))
               | (Inr k, w2) \<Rightarrow>
                   if k \<noteq> length buf then Some (Inl (os_errno os w2), os_close os ofd (os_close os ifd w2))
                   else copy_loop os ifd ofd w2)"

declare copy_loop.simps [code]

definition copy_file :: "'w os \<Rightarrow> string \<Rightarrow> string \<Rightarrow> 'w \<Rightarrow> ((errno + unit) \<times> 'w) option" where
  "copy_file os src dst w =
     (case os_open os src [O_RDONLY] w of
        (Inl e, w1) \<Rightarrow> Some (Inl e, w1)
      | (Inr ifd, w1) \<Rightarrow>
          (case os_open os dst [O_WRONLY, O_CREAT, O_TRUNC] w1 of
             (Inl e, w2) \<Rightarrow> Some (Inl e, os_close os ifd w2)
           | (Inr ofd, w2) \<Rightarrow> copy_loop os ifd ofd w2))"

partial_function (option) recurse_cp :: "'w os \<Rightarrow> string \<Rightarrow> string \<Rightarrow> 'w \<Rightarrow> ((errno + unit) \<times> 'w) option" where
  "recurse_cp os src dst w =
     (case os_lstat os src w of
        (Inl e, w1) \<Rightarrow> Some (Inl e, w1)
      | (Inr st, w1) \<Rightarrow>
          if st_type st = Dir then
            (case os_readdir os src (snd (os_mkdir os dst w1)) of
               (Inl e, w2) \<Rightarrow> Some (Inl e, w2)
             | (Inr ns, w2) \<Rightarrow>
                 while_ok (\<lambda>n v. recurse_cp os (path_join src n) (path_join dst n) v) (filter (\<lambda>n. \<not> dot_entry n) ns) w2)
          else copy_file os src dst w1)"

declare recurse_cp.simps [code]

definition cmd_cp :: "'w os \<Rightarrow> string list \<Rightarrow> 'w \<Rightarrow> (int \<times> 'w) option" where
  "cmd_cp os av w =
     (if length av < 3 then Some (- 1, out os ''usage: cp [-r] src dst\<newline>'' w)
      else let rec = (av ! 1 = ''-r''); args = drop (if rec then 2 else 1) av in
        if length args \<noteq> 2 then Some (- 1, out os ''usage: cp [-r] src dst\<newline>'' w)
        else do {
          (r, w1) \<leftarrow> (if rec then recurse_cp os (args ! 0) (args ! 1) w else copy_file os (args ! 0) (args ! 1) w);
          Some (0, case r of Inl e \<Rightarrow> print_error os (args ! 0) e w1 | Inr u \<Rightarrow> w1)
        })"

definition cmd_mv :: "'w os \<Rightarrow> string list \<Rightarrow> 'w \<Rightarrow> int \<times> 'w" where
  "cmd_mv os av w =
     (if length av \<noteq> 3 then (- 1, out os ''usage: mv src dst\<newline>'' w)
      else case os_rename os (av ! 1) (av ! 2) w of
             (Some e, w1) \<Rightarrow> (0, print_error os (av ! 1) e w1)
           | (None, w1) \<Rightarrow> (0, w1))"

definition cmd_pwd :: "'w os \<Rightarrow> string list \<Rightarrow> 'w \<Rightarrow> int \<times> 'w" where
  "cmd_pwd os av w =
     (case os_getcwd os w of
        (Inr p, w1) \<Rightarrow> (0, out os (p @ ''\<newline>'') w1)
      | (Inl e, w1) \<Rightarrow> (0, print_error os ''pwd'' e w1))"

definition cmd_cd :: "'w os \<Rightarrow> string list \<Rightarrow> 'w \<Rightarrow> int \<times> 'w" where
  "cmd_cd os av w =
     (if length av < 2 then (case os_chdir os ''/'' w of (None, w1) \<Rightarrow> (0, w1) | (Some e, w1) \<Rightarrow> (- 1, w1))
      else case os_chdir os (av ! 1) w of
             (Some e, w1) \<Rightarrow> (0, print_error os (av ! 1) e w1)
           | (None, w1) \<Rightarrow> (0, w1))"

partial_function (option) cat_loop :: "'w os \<Rightarrow> int \<Rightarrow> 'w \<Rightarrow> 'w option" where
  "cat_loop os fd w =
     (case os_read os fd 8192 w of
        (Inl e, w1) \<Rightarrow> Some w1
      | (Inr buf, w1) \<Rightarrow> if buf = [] then Some w1 else cat_loop os fd (snd (os_write os 1 buf w1)))"

declare cat_loop.simps [code]

fun cat_files :: "'w os \<Rightarrow> string list \<Rightarrow> 'w \<Rightarrow> 'w option" where
  "cat_files os [] w = Some w"
| "cat_files os (a # as) w =
     (case os_open os a [O_RDONLY] w of
        (Inl e, w1) \<Rightarrow> cat_files os as (print_error os a e w1)
      | (Inr fd, w1) \<Rightarrow> do { w2 \<leftarrow> cat_loop os fd w1; cat_files os as (os_close os fd w2) })"

definition cmd_cat :: "'w os \<Rightarrow> string list \<Rightarrow> 'w \<Rightarrow> (int \<times> 'w) option" where
  "cmd_cat os av w =
     (if length av < 2 then Some (- 1, out os ''usage: cat file...\<newline>'' w)
      else map_option (\<lambda>w1. (0, w1)) (cat_files os (tl av) w))"

definition ps_state :: "int \<Rightarrow> string" where
  "ps_state s = (if s = 1 then ''IDL'' else if s = 2 then ''RUN'' else if s = 3 then ''SLEEP''
     else if s = 4 then ''STOP'' else if s = 5 then ''ZOMB'' else ''?'')"

definition ps_line :: "kinfo_proc \<Rightarrow> string" where
  "ps_line p =
     pad_left 5 (show_int (ki_pid p)) @ '' '' @ pad_left 5 (show_int (ki_ppid p)) @ '' ''
     @ pad_left 5 (show_int (ki_pgid p)) @ '' '' @ pad_left 5 (show_int (ki_sid p)) @ '' ''
     @ pad_left 5 (show_int (ki_uid p)) @ '' '' @ pad_left 6 (ps_state (ki_stat p)) @ '' '' @ ki_comm p @ ''\<newline>''"

fun ps_lines :: "'w os \<Rightarrow> kinfo_proc list \<Rightarrow> 'w \<Rightarrow> 'w" where
  "ps_lines os [] w = w"
| "ps_lines os (p # ps) w = ps_lines os ps (if ki_comm p = [] then w else out os (ps_line p) w)"

definition cmd_ps :: "'w os \<Rightarrow> string list \<Rightarrow> 'w \<Rightarrow> int \<times> 'w" where
  "cmd_ps os av w =
     (case os_sysctl_size os w of
        (Inl e, w1) \<Rightarrow> (- 1, print_error os ''sysctl size'' e w1)
      | (Inr len, w1) \<Rightarrow>
          if \<not> os_malloc_ok os len w1 then (- 1, w1)
          else case os_sysctl_procs os len w1 of
                 (Inl e, w2) \<Rightarrow> (- 1, print_error os ''sysctl data'' e w2)
               | (Inr ps, w2) \<Rightarrow>
                   (0, ps_lines os ps (out os ''  PID  PPID  PGID   SID   UID State    COMMAND\<newline>'' w2)))"

section \<open>Removing a tree\<close>

text \<open>A path and what is under it.\<close>

definition below :: "string \<Rightarrow> string \<Rightarrow> bool" where
  "below p q \<longleftrightarrow> prefix (p @ ''/'') q"

definition at_below :: "string \<Rightarrow> string \<Rightarrow> bool" where
  "at_below p q \<longleftrightarrow> q = p \<or> below p q"

definition entry_name :: "string \<Rightarrow> bool" where
  "entry_name n \<longleftrightarrow> n \<noteq> [] \<and> CHR ''/'' \<notin> set n \<and> \<not> dot_entry n"

text \<open>
  A file system as a map from absolute paths to types: finitely many files, nothing under a
  file that is not a directory, and every file under a directory is in one of its entries.
\<close>

type_synonym fsmap = "string \<Rightarrow> ftype option"

definition tree_fs :: "fsmap \<Rightarrow> bool" where
  "tree_fs F \<longleftrightarrow> finite (dom F)
     \<and> (\<forall>p q. F p \<noteq> None \<longrightarrow> F p \<noteq> Some Dir \<longrightarrow> below p q \<longrightarrow> F q = None)
     \<and> (\<forall>p q. F p = Some Dir \<longrightarrow> below p q \<longrightarrow> F q \<noteq> None \<longrightarrow>
          (\<exists>n. entry_name n \<and> F (p @ ''/'' @ n) \<noteq> None \<and> at_below (p @ ''/'' @ n) q))"

text \<open>The documented behaviour of the calls of \<^verbatim>\<open>rm -r\<close> on a file system seen by \<open>fs\<close>.\<close>

definition fs_laws :: "'w os \<Rightarrow> ('w \<Rightarrow> fsmap) \<Rightarrow> bool" where
  "fs_laws os fs \<longleftrightarrow>
     (\<forall>w p t. fs w p = Some t \<longrightarrow> (\<exists>st w1. os_lstat os p w = (Inr st, w1) \<and> st_type st = t \<and> fs w1 = fs w))
   \<and> (\<forall>w p. fs w p = Some Dir \<longrightarrow>
        (\<exists>ns w1. os_readdir os p w = (Inr ns, w1) \<and> fs w1 = fs w \<and> distinct ns
           \<and> (\<forall>n. \<not> dot_entry n \<longrightarrow> (n \<in> set ns \<longleftrightarrow> entry_name n \<and> fs w (p @ ''/'' @ n) \<noteq> None))))
   \<and> (\<forall>w p. fs w p \<noteq> None \<longrightarrow> fs w p \<noteq> Some Dir \<longrightarrow> (\<exists>w1. os_unlink os p w = (None, w1) \<and> fs w1 = (fs w)(p := None)))
   \<and> (\<forall>w p. fs w p = Some Dir \<longrightarrow> (\<forall>q. below p q \<longrightarrow> fs w q = None) \<longrightarrow>
        (\<exists>w1. os_rmdir os p w = (None, w1) \<and> fs w1 = (fs w)(p := None)))"

text \<open>What a tree removal does to the file system.\<close>

definition cut :: "string \<Rightarrow> fsmap \<Rightarrow> fsmap" where
  "cut p F = (\<lambda>q. if at_below p q then None else F q)"

lemma at_below_refl [simp]: "at_below p p"
  by (simp add: at_below_def)

lemma at_below_trans: "at_below p c \<Longrightarrow> at_below c q \<Longrightarrow> at_below p q"
  by (auto simp: at_below_def below_def prefix_def)

lemma below_child: "at_below (p @ ''/'' @ n) q \<Longrightarrow> below p q"
  by (auto simp: at_below_def below_def prefix_def)

lemma below_irrefl [simp]: "\<not> below p p"
  by (auto simp: below_def prefix_def)

lemma takeWhile_none: "c \<notin> set k \<Longrightarrow> takeWhile (\<lambda>x. x \<noteq> c) k = k"
  by (induction k) auto

lemma child_disjoint:
  assumes "entry_name m" "entry_name n" "at_below (p @ ''/'' @ m) q" "at_below (p @ ''/'' @ n) q"
  shows "m = n"
proof -
  obtain r where q: "q = p @ ''/'' @ r" using assms(3) by (auto simp: at_below_def below_def prefix_def)
  have t: "takeWhile (\<lambda>c. c \<noteq> CHR ''/'') r = k" if "entry_name k" "at_below (p @ ''/'' @ k) q" for k
  proof -
    have "CHR ''/'' \<notin> set k" using that(1) by (simp add: entry_name_def)
    moreover from that(2) have "r = k \<or> (\<exists>s. r = k @ CHR ''/'' # s)"
      unfolding q at_below_def below_def prefix_def by auto
    ultimately show ?thesis by (auto simp: takeWhile_upto takeWhile_none)
  qed
  show ?thesis using t [OF assms(1,3)] t [OF assms(2,4)] by simp
qed

lemma tree_fs_cut: "tree_fs F \<Longrightarrow> tree_fs (cut p F)"
proof -
  assume t: "tree_fs F"
  have "dom (cut p F) \<subseteq> dom F" by (auto simp: cut_def split: if_splits)
  then have "finite (dom (cut p F))" using t finite_subset unfolding tree_fs_def by blast
  moreover have "\<exists>n. entry_name n \<and> cut p F (d @ ''/'' @ n) \<noteq> None \<and> at_below (d @ ''/'' @ n) q"
    if d: "cut p F d = Some Dir" "below d q" "cut p F q \<noteq> None" for d q
  proof -
    have "F d = Some Dir" "F q \<noteq> None" "\<not> at_below p q" using d by (auto simp: cut_def split: if_splits)
    with t d(2) obtain n where n: "entry_name n" "F (d @ ''/'' @ n) \<noteq> None" "at_below (d @ ''/'' @ n) q"
      unfolding tree_fs_def by blast
    with \<open>\<not> at_below p q\<close> have "\<not> at_below p (d @ ''/'' @ n)" using at_below_trans by blast
    with n show ?thesis by (auto simp: cut_def)
  qed
  moreover have "cut p F q = None" if "cut p F d \<noteq> None" "cut p F d \<noteq> Some Dir" "below d q" for d q
  proof -
    have "F d \<noteq> None" "F d \<noteq> Some Dir" using that(1,2) by (auto simp: cut_def split: if_splits)
    with t that(3) have "F q = None" unfolding tree_fs_def by blast
    then show ?thesis by (simp add: cut_def)
  qed
  ultimately show ?thesis unfolding tree_fs_def by blast
qed

lemma fs_lawsD:
  assumes "fs_laws os fs"
  shows "fs w p = Some t \<Longrightarrow> \<exists>st w1. os_lstat os p w = (Inr st, w1) \<and> st_type st = t \<and> fs w1 = fs w"
    "fs w p = Some Dir \<Longrightarrow> \<exists>ns w1. os_readdir os p w = (Inr ns, w1) \<and> fs w1 = fs w \<and> distinct ns
           \<and> (\<forall>n. \<not> dot_entry n \<longrightarrow> (n \<in> set ns \<longleftrightarrow> entry_name n \<and> fs w (p @ ''/'' @ n) \<noteq> None))"
    "fs w p \<noteq> None \<Longrightarrow> fs w p \<noteq> Some Dir \<Longrightarrow> \<exists>w1. os_unlink os p w = (None, w1) \<and> fs w1 = (fs w)(p := None)"
    "fs w p = Some Dir \<Longrightarrow> (\<And>q. below p q \<Longrightarrow> fs w q = None) \<Longrightarrow>
        \<exists>w1. os_rmdir os p w = (None, w1) \<and> fs w1 = (fs w)(p := None)"
  using assms unfolding fs_laws_def by blast+

text \<open>The loop over the entries, when the body cuts each child.\<close>

lemma while_ok_cut:
  assumes "\<And>n v. n \<in> set ns \<Longrightarrow> tree_fs (fs v) \<Longrightarrow> dom (fs v) \<subseteq> D \<Longrightarrow> fs v (p @ ''/'' @ n) \<noteq> None \<Longrightarrow>
      \<exists>v1. f n v = Some (Inr (), v1) \<and> fs v1 = cut (p @ ''/'' @ n) (fs v)"
  shows "distinct ns \<Longrightarrow> \<forall>n\<in>set ns. entry_name n \<Longrightarrow> tree_fs (fs v) \<Longrightarrow> dom (fs v) \<subseteq> D \<Longrightarrow>
      \<forall>n\<in>set ns. fs v (p @ ''/'' @ n) \<noteq> None \<Longrightarrow>
    \<exists>v1. while_ok f ns v = Some (Inr (), v1) \<and> tree_fs (fs v1)
      \<and> (\<forall>q. fs v1 q = (if \<exists>n\<in>set ns. at_below (p @ ''/'' @ n) q then None else fs v q))"
  using assms
proof (induction ns arbitrary: v)
  case (Cons n ns)
  obtain v1 where v1: "f n v = Some (Inr (), v1)" "fs v1 = cut (p @ ''/'' @ n) (fs v)"
    using Cons.prems(6) [of n v] Cons.prems(3-5) by auto
  have dis: "\<not> at_below (p @ ''/'' @ n) (p @ ''/'' @ m)" if "m \<in> set ns" for m
    using child_disjoint [of n m p "p @ ''/'' @ m"] Cons.prems(1,2) that by auto
  have "\<exists>v2. while_ok f ns v1 = Some (Inr (), v2) \<and> tree_fs (fs v2)
      \<and> (\<forall>q. fs v2 q = (if \<exists>n\<in>set ns. at_below (p @ ''/'' @ n) q then None else fs v1 q))"
  proof (rule Cons.IH)
    show "dom (fs v1) \<subseteq> D" using v1(2) Cons.prems(4) by (auto simp: cut_def split: if_splits)
    show "\<forall>m\<in>set ns. fs v1 (p @ ''/'' @ m) \<noteq> None" using v1(2) Cons.prems(5) dis by (simp add: cut_def)
  qed (use Cons.prems v1(2) tree_fs_cut in auto)
  with v1 show ?case by (auto simp: cut_def)
qed simp

lemma path_join_fits: "length (p @ ''/'' @ n) < 1024 \<Longrightarrow> path_join p n = p @ ''/'' @ n"
  by (simp only: path_join_def snprintf_buf_fits)

lemma cut_leaf: "(\<And>q. below p q \<Longrightarrow> F q = None) \<Longrightarrow> F(p := None) = cut p F"
  by (auto simp: cut_def at_below_def fun_eq_iff)

lemma recurse_rm_leaf:
  assumes "fs_laws os fs" "tree_fs (fs w)" "fs w p \<noteq> None" "fs w p \<noteq> Some Dir"
  shows "\<exists>w1. recurse_rm os p w = Some (Inr (), w1) \<and> fs w1 = cut p (fs w)"
proof -
  obtain t where t: "fs w p = Some t" "t \<noteq> Dir" using assms(3,4) by auto
  obtain st w1 where l: "os_lstat os p w = (Inr st, w1)" "st_type st = t" "fs w1 = fs w"
    using fs_lawsD(1) [where p = p, OF assms(1) t(1)] by blast
  obtain w2 where u: "os_unlink os p w1 = (None, w2)" "fs w2 = (fs w1)(p := None)"
    using fs_lawsD(3) [where p = p, OF assms(1), of w1] t l(3) by auto
  have "fs w q = None" if "below p q" for q using assms(2-4) that unfolding tree_fs_def by blast
  then have "(fs w)(p := None) = cut p (fs w)" by (rule cut_leaf)
  then show ?thesis using l t(2) u by (subst recurse_rm.simps) simp
qed

lemma recurse_rm_dir:
  assumes laws: "fs_laws os fs" and tree: "tree_fs (fs w)" and dir: "fs w p = Some Dir"
    and short: "\<And>q. fs w q \<noteq> None \<Longrightarrow> at_below p q \<Longrightarrow> length q < 1024"
    and IH: "\<And>n v. entry_name n \<Longrightarrow> tree_fs (fs v) \<Longrightarrow> dom (fs v) \<subseteq> dom (fs w) \<Longrightarrow> fs v (p @ ''/'' @ n) \<noteq> None \<Longrightarrow>
      \<exists>v1. recurse_rm os (p @ ''/'' @ n) v = Some (Inr (), v1) \<and> fs v1 = cut (p @ ''/'' @ n) (fs v)"
  shows "\<exists>w1. recurse_rm os p w = Some (Inr (), w1) \<and> fs w1 = cut p (fs w)"
proof -
  obtain st w1 where l: "os_lstat os p w = (Inr st, w1)" "st_type st = Dir" "fs w1 = fs w"
    using fs_lawsD(1) [OF laws dir] by blast
  obtain ns w2 where r: "os_readdir os p w1 = (Inr ns, w2)" "fs w2 = fs w1" "distinct ns"
    "\<And>n. \<not> dot_entry n \<Longrightarrow> (n \<in> set ns \<longleftrightarrow> entry_name n \<and> fs w1 (p @ ''/'' @ n) \<noteq> None)"
    using fs_lawsD(2) [where p = p, OF laws, of w1] dir l(3) by auto
  let ?ns = "filter (\<lambda>n. \<not> dot_entry n) ns"
  have child: "entry_name n \<and> fs w (p @ ''/'' @ n) \<noteq> None" if "n \<in> set ?ns" for n using r(4) [of n] l(3) that by auto
  have join: "path_join p n = p @ ''/'' @ n" if "n \<in> set ?ns" for n
  proof (rule path_join_fits, rule short)
    show "at_below p (p @ ''/'' @ n)" by (simp add: at_below_def below_def prefix_def)
  qed (use child [OF that] in simp)
  have "\<exists>v1. while_ok (\<lambda>n v. recurse_rm os (path_join p n) v) ?ns w2 = Some (Inr (), v1) \<and> tree_fs (fs v1)
      \<and> (\<forall>q. fs v1 q = (if \<exists>n\<in>set ?ns. at_below (p @ ''/'' @ n) q then None else fs w2 q))"
    using r(2,3) l(3) child tree
    by (intro while_ok_cut [where fs = fs and D = "dom (fs w)"]) (use join IH child in auto)
  then obtain v1 where v1: "while_ok (\<lambda>n v. recurse_rm os (path_join p n) v) ?ns w2 = Some (Inr (), v1)"
    "\<And>q. fs v1 q = (if \<exists>n\<in>set ?ns. at_below (p @ ''/'' @ n) q then None else fs w2 q)" by blast
  have sub: "fs v1 q = None" if b: "below p q" for q
  proof (cases "fs w q = None")
    case False
    then obtain n where "entry_name n" "fs w (p @ ''/'' @ n) \<noteq> None" "at_below (p @ ''/'' @ n) q"
      using tree dir b unfolding tree_fs_def by blast
    then have "n \<in> set ?ns" using r(4) [of n] l(3) by (auto simp: entry_name_def)
    with \<open>at_below (p @ ''/'' @ n) q\<close> show ?thesis by (auto simp: v1(2))
  qed (use v1(2) r(2) l(3) in auto)
  have keep: "fs v1 q = fs w q" if "\<not> below p q" for q
    using v1(2) [of q] that r(2) l(3) below_child by auto
  then obtain w4 where d: "os_rmdir os p v1 = (None, w4)" "fs w4 = (fs v1)(p := None)"
    using fs_lawsD(4) [where p = p, OF laws, of v1] sub dir by auto
  have "fs w4 = cut p (fs w)" using sub keep unfolding d(2) by (auto simp: cut_def at_below_def fun_eq_iff)
  then show ?thesis using l r(1) v1(1) d(1) by (subst recurse_rm.simps) simp
qed

lemma recurse_rm_cut:
  assumes "fs_laws os fs"
  shows "tree_fs (fs w) \<Longrightarrow> fs w p \<noteq> None \<Longrightarrow> \<forall>q. fs w q \<noteq> None \<longrightarrow> at_below p q \<longrightarrow> length q < 1024 \<Longrightarrow>
    \<exists>w1. recurse_rm os p w = Some (Inr (), w1) \<and> fs w1 = cut p (fs w)"
proof (induction "card {q \<in> dom (fs w). at_below p q}" arbitrary: p w rule: less_induct)
  case less
  show ?case
  proof (cases "fs w p = Some Dir")
    case False
    with recurse_rm_leaf [OF assms less.prems(1,2)] show ?thesis by blast
  next
    case True
    show ?thesis
    proof (rule recurse_rm_dir [OF assms less.prems(1) True])
      fix n v
      assume v: "entry_name n" "tree_fs (fs v)" "dom (fs v) \<subseteq> dom (fs w)" "fs v (p @ ''/'' @ n) \<noteq> None"
      have sub: "at_below p q" if "at_below (p @ ''/'' @ n) q" for q using below_child [OF that] by (simp add: at_below_def)
      show "\<exists>v1. recurse_rm os (p @ ''/'' @ n) v = Some (Inr (), v1) \<and> fs v1 = cut (p @ ''/'' @ n) (fs v)"
      proof (rule less.hyps [OF _ v(2,4)])
        have fin: "finite {q \<in> dom (fs w). at_below p q}" using less.prems(1) by (auto simp: tree_fs_def)
        show "card {q \<in> dom (fs v). at_below (p @ ''/'' @ n) q} < card {q \<in> dom (fs w). at_below p q}"
        proof (rule psubset_card_mono [OF fin], rule psubsetI)
          show "{q \<in> dom (fs v). at_below (p @ ''/'' @ n) q} \<subseteq> {q \<in> dom (fs w). at_below p q}"
            using v(3) sub by blast
          have "p \<notin> {q \<in> dom (fs v). at_below (p @ ''/'' @ n) q}" using below_child [of p n p] by auto
          then show "{q \<in> dom (fs v). at_below (p @ ''/'' @ n) q} \<noteq> {q \<in> dom (fs w). at_below p q}"
            using True by auto
        qed
        show "\<forall>q. fs v q \<noteq> None \<longrightarrow> at_below (p @ ''/'' @ n) q \<longrightarrow> length q < 1024"
          using less.prems(3) v(3) sub by blast
      qed
    qed (use less.prems(3) in blast)
  qed
qed

section \<open>What rm -r touches\<close>

lemma while_ok_inv:
  "(\<And>n v y. n \<in> set ns \<Longrightarrow> I v \<Longrightarrow> f n v = Some y \<Longrightarrow> I (snd y)) \<Longrightarrow> I v \<Longrightarrow> while_ok f ns v = Some y \<Longrightarrow> I (snd y)"
proof (induction ns arbitrary: v)
  case (Cons n ns)
  obtain z where z: "f n v = Some z" using Cons.prems(3) by (auto split: option.splits)
  have a: "I (snd z)" using Cons.prems(1) [OF _ Cons.prems(2) z] by simp
  show ?case
  proof (cases "fst z")
    case (Inl e)
    then show ?thesis using Cons.prems(3) z a by (cases z) auto
  next
    case (Inr u)
    then have "while_ok f ns (snd z) = Some y" using Cons.prems(3) z by (cases z) auto
    with Cons.IH [OF _ a] Cons.prems(1) show ?thesis by auto
  qed
qed auto

text \<open>
  The tree of a path: the path, and every entry (a name without slashes, not \<^verbatim>\<open>.\<close> or \<^verbatim>\<open>..\<close>) of
  a directory of the tree. The directories are real ones, not symbolic links to one.
\<close>

inductive inside :: "fsmap \<Rightarrow> string \<Rightarrow> string \<Rightarrow> bool" for F root where
  root: "inside F root root"
| entry: "inside F root d \<Longrightarrow> F d = Some Dir \<Longrightarrow> entry_name n \<Longrightarrow> inside F root (d @ ''/'' @ n)"

lemma inside_at_below: "inside F root q \<Longrightarrow> at_below root q"
proof (induction rule: inside.induct)
  case (entry d n)
  have "at_below d (d @ ''/'' @ n)" by (simp add: at_below_def below_def prefix_def)
  with entry.IH show ?case by (rule at_below_trans)
qed simp

text \<open>
  What is relied on of the kernel: \<^verbatim>\<open>lstat\<close> reports the file itself, the names listed for a path that is
  not a symbolic link are those of existing entries, \<^verbatim>\<open>.\<close> and \<^verbatim>\<open>..\<close> apart (for a link they are those of some
  other directory, so nothing is said of them), and nobody makes or changes files meanwhile. Every call may fail, and
  files may vanish at any time.
\<close>

definition fs_shrinks :: "'w os \<Rightarrow> ('w \<Rightarrow> fsmap) \<Rightarrow> bool" where
  "fs_shrinks os fs \<longleftrightarrow>
     (\<forall>w p st w1. os_lstat os p w = (Inr st, w1) \<longrightarrow> fs w p = Some (st_type st))
   \<and> (\<forall>w p ns w1 n. os_readdir os p w = (Inr ns, w1) \<longrightarrow> fs w p \<noteq> Some Lnk \<longrightarrow> n \<in> set ns \<longrightarrow> \<not> dot_entry n \<longrightarrow>
        entry_name n \<and> fs w (p @ ''/'' @ n) \<noteq> None)
   \<and> (\<forall>w p. fs (snd (os_lstat os p w)) \<subseteq>\<^sub>m fs w \<and> fs (snd (os_readdir os p w)) \<subseteq>\<^sub>m fs w
        \<and> fs (snd (os_unlink os p w)) \<subseteq>\<^sub>m fs w \<and> fs (snd (os_rmdir os p w)) \<subseteq>\<^sub>m fs w)"

lemma fs_shrinksD:
  assumes "fs_shrinks os fs"
  shows "os_lstat os p w = (Inr st, w1) \<Longrightarrow> fs w p = Some (st_type st)"
    "os_readdir os p w = (Inr ns, w1) \<Longrightarrow> fs w p \<noteq> Some Lnk \<Longrightarrow> n \<in> set ns \<Longrightarrow> \<not> dot_entry n \<Longrightarrow>
        entry_name n \<and> fs w (p @ ''/'' @ n) \<noteq> None"
    "os_lstat os p w = (r1, w1) \<Longrightarrow> fs w1 \<subseteq>\<^sub>m fs w" "os_readdir os p w = (r2, w1) \<Longrightarrow> fs w1 \<subseteq>\<^sub>m fs w"
    "os_unlink os p w = (r3, w1) \<Longrightarrow> fs w1 \<subseteq>\<^sub>m fs w" "os_rmdir os p w = (r3, w1) \<Longrightarrow> fs w1 \<subseteq>\<^sub>m fs w"
  using assms unfolding fs_shrinks_def by (blast, blast, (metis snd_conv)+)

text \<open>The calls that a removal may make: \<^verbatim>\<open>unlink\<close> on what is not a directory, \<^verbatim>\<open>rmdir\<close> on directories, in
  the tree only.\<close>

definition rm_calls :: "fsmap \<Rightarrow> string \<Rightarrow> event set" where
  "rm_calls F root = {Ev_Unlink q | q. inside F root q \<and> F q \<noteq> None \<and> F q \<noteq> Some Dir}
     \<union> {Ev_Rmdir q | q. inside F root q \<and> F q = Some Dir}"

text \<open>The state of a run so far: only calls in the tree, and a file system that has at most shrunk.\<close>

definition rm_state :: "('w \<Rightarrow> fsmap) \<Rightarrow> fsmap \<Rightarrow> string \<Rightarrow> 'w traced \<Rightarrow> bool" where
  "rm_state fs F root wl \<longleftrightarrow> set (events wl) \<subseteq> rm_calls F root \<and> fs (world wl) \<subseteq>\<^sub>m F"

lemma rm_state_tr:
  assumes "rm_state fs F root v" "tr es f v = (r, v1)" "\<And>r w1. f (world v) = (r, w1) \<Longrightarrow> fs w1 \<subseteq>\<^sub>m fs (world v)"
    "set es \<subseteq> rm_calls F root"
  shows "rm_state fs F root v1" "\<exists>w1. f (world v) = (r, w1)"
proof -
  obtain w1 where w1: "f (world v) = (r, w1)" "v1 = Traced w1 (events v @ es)"
    using assms(2) by (cases "f (world v)") (simp add: tr_def)
  then show "\<exists>w1. f (world v) = (r, w1)" by blast
  have "fs w1 \<subseteq>\<^sub>m F" using assms(3) [OF w1(1)] assms(1) map_le_trans unfolding rm_state_def by blast
  then show "rm_state fs F root v1" using assms(1,4) w1(2) by (simp add: rm_state_def)
qed

lemmas recurse_rm_induct = recurse_rm.raw_induct [rotated 1, consumes 1, case_names step]

lemma recurse_rm_state:
  assumes laws: "fs_shrinks os fs" and short: "\<And>q. F q \<noteq> None \<Longrightarrow> at_below root q \<Longrightarrow> length q < 1024"
  shows "recurse_rm lo p v = Some y \<Longrightarrow> lo = logged os \<Longrightarrow> inside F root p \<Longrightarrow> rm_state fs F root v \<Longrightarrow> rm_state fs F root (snd y)"
proof (induction lo p v y rule: recurse_rm_induct)
  case (step f lo p v y)
  note lo = step.prems(1) and ins = step.prems(2)
  note D = fs_shrinksD [OF laws]
  obtain r1 w1 where l: "os_lstat lo p v = (r1, w1)" by fastforce
  then have tl: "tr [] (os_lstat os p) v = (r1, w1)" by (simp add: lo logged_def)
  have s1: "rm_state fs F root w1" by (rule rm_state_tr(1) [OF step.prems(3) tl D(3)]) simp_all
  have o1: "\<exists>u. os_lstat os p (world v) = (r1, u)" by (rule rm_state_tr(2) [OF step.prems(3) tl D(3)]) simp_all
  have lty: "F p = Some (st_type st)" if "r1 = Inr st" for st
    using o1 D(1) that step.prems(3) by (fastforce simp: rm_state_def map_le_def dom_def)
  show ?case
  proof (cases "\<exists>st. r1 = Inr st \<and> st_type st = Dir")
    case False
    show ?thesis
    proof (cases r1)
      case (Inl e)
      with step.hyps l s1 show ?thesis by auto
    next
      case (Inr st)
      obtain r2 w2 where u: "os_unlink lo p w1 = (r2, w2)" by fastforce
      then have tu: "tr [Ev_Unlink p] (os_unlink os p) w1 = (r2, w2)" by (simp add: lo logged_def)
      have "Ev_Unlink p \<in> rm_calls F root" using lty [OF Inr] False Inr ins by (auto simp: rm_calls_def)
      then have "rm_state fs F root w2" using rm_state_tr(1) [OF s1 tu D(5)] by simp
      with step.hyps l u Inr False show ?thesis by (auto split: option.splits)
    qed
  next
    case True
    have dir: "F p = Some Dir" using lty True by auto
    obtain r2 w2 where r: "os_readdir lo p w1 = (r2, w2)" by fastforce
    then have tr2: "tr [] (os_readdir os p) w1 = (r2, w2)" by (simp add: lo logged_def)
    have s2: "rm_state fs F root w2" by (rule rm_state_tr(1) [OF s1 tr2 D(4)]) simp_all
    have o2: "\<exists>u. os_readdir os p (world w1) = (r2, u)" by (rule rm_state_tr(2) [OF s1 tr2 D(4)]) simp_all
    show ?thesis
    proof (cases r2)
      case (Inl e)
      with True l r s2 step.hyps show ?thesis by auto
    next
      case (Inr ns)
      obtain z where z: "while_ok (\<lambda>n v. f lo (path_join p n) v) (filter (\<lambda>n. \<not> dot_entry n) ns) w2 = Some z"
        using step.hyps True l r Inr by (auto simp: bind_eq_Some_conv)
      have le: "fs (world w1) \<subseteq>\<^sub>m F" using s1 by (simp add: rm_state_def)
      then have nl: "fs (world w1) p \<noteq> Some Lnk" using dir by (fastforce simp: map_le_def dom_def)
      have entry: "inside F root (path_join p n)" if n: "n \<in> set ns" "\<not> dot_entry n" for n
      proof -
        have e: "entry_name n" "fs (world w1) (p @ ''/'' @ n) \<noteq> None" using o2 D(2) [OF _ nl n] Inr by auto
        have i: "inside F root (p @ ''/'' @ n)" using ins dir e(1) by (rule inside.entry)
        have "F (p @ ''/'' @ n) \<noteq> None" using e(2) le by (fastforce simp: map_le_def dom_def)
        then have "path_join p n = p @ ''/'' @ n" using short inside_at_below [OF i] by (intro path_join_fits) blast
        with i show ?thesis by simp
      qed
      have s3: "rm_state fs F root (snd z)"
      proof (rule while_ok_inv [where I = "rm_state fs F root", OF _ s2 z])
        fix n u y1
        assume "n \<in> set (filter (\<lambda>n. \<not> dot_entry n) ns)" "rm_state fs F root u" "f lo (path_join p n) u = Some y1"
        then show "rm_state fs F root (snd y1)" using step.IH [OF _ lo] entry by auto
      qed
      obtain r4 w4 where d: "os_rmdir lo p (snd z) = (r4, w4)" by fastforce
      then have td: "tr [Ev_Rmdir p] (os_rmdir os p) (snd z) = (r4, w4)" by (simp add: lo logged_def)
      have "Ev_Rmdir p \<in> rm_calls F root" using dir ins by (simp add: rm_calls_def)
      then have "rm_state fs F root w4" using rm_state_tr(1) [OF s3 td D(6)] by simp
      with s3 step.hyps True l r Inr z d show ?thesis by (auto split: sum.splits option.splits)
    qed
  qed
qed

section \<open>A file system\<close>

text \<open>A kernel whose state is a list of paths and their types.\<close>

type_synonym flist = "(string \<times> ftype) list"

definition stat_of :: "ftype \<Rightarrow> stat" where
  "stat_of t = \<lparr>st_type = t, st_perm = 420, st_nlink = 1, st_uid = 0, st_gid = 0, st_size = 0, st_mtime = 0\<rparr>"

definition names_in :: "string \<Rightarrow> flist \<Rightarrow> string list" where
  "names_in p fl = remdups (filter entry_name (map (\<lambda>(q, t). drop (length p + 1) q) (filter (\<lambda>(q, t). below p q) fl)))"

definition tree_os :: "flist os" where
  "tree_os = null_os\<lparr>
     os_lstat := (\<lambda>p fl. (case map_of fl p of None \<Rightarrow> Inl 2 | Some t \<Rightarrow> Inr (stat_of t), fl)),
     os_readdir := (\<lambda>p fl. (if map_of fl p = Some Dir then Inr (''.'' # ''..'' # names_in p fl) else Inl ENOTDIR, fl)),
     os_unlink := (\<lambda>p fl. if map_of fl p \<noteq> None \<and> map_of fl p \<noteq> Some Dir
        then (None, filter (\<lambda>(q, t). q \<noteq> p) fl) else (Some 2, fl)),
     os_rmdir := (\<lambda>p fl. if map_of fl p = Some Dir \<and> (\<forall>q\<in>set fl. \<not> below p (fst q))
        then (None, filter (\<lambda>(q, t). q \<noteq> p) fl) else (Some 66, fl))\<rparr>"

lemma map_of_remove: "map_of (filter (\<lambda>(q, t). q \<noteq> p) fl) = (map_of fl)(p := None)"
  by (induction fl) (auto simp: fun_eq_iff)

lemma below_name: "below p q \<and> drop (length p + 1) q = n \<longleftrightarrow> q = p @ ''/'' @ n"
  by (auto simp: below_def prefix_def)

lemma names_in_set: "n \<in> set (names_in p fl) \<longleftrightarrow> entry_name n \<and> map_of fl (p @ ''/'' @ n) \<noteq> None"
proof -
  have "n \<in> set (names_in p fl) \<longleftrightarrow> entry_name n \<and> (\<exists>x\<in>set fl. below p (fst x) \<and> drop (length p + 1) (fst x) = n)"
    unfolding names_in_def split_def set_remdups set_filter set_map image_def mem_Collect_eq by blast
  then show ?thesis unfolding below_name map_of_eq_None_iff image_iff by fastforce
qed

lemma tree_os_laws: "fs_laws tree_os map_of"
  unfolding fs_laws_def
proof (intro conjI allI impI)
  fix w :: flist and p assume "map_of w p = Some Dir"
  then show "\<exists>ns w1. os_readdir tree_os p w = (Inr ns, w1) \<and> map_of w1 = map_of w \<and> distinct ns
     \<and> (\<forall>n. \<not> dot_entry n \<longrightarrow> (n \<in> set ns) = (entry_name n \<and> map_of w (p @ ''/'' @ n) \<noteq> None))"
    by (auto simp: tree_os_def names_in_set dot_entry_def entry_name_def)
      (auto simp: names_in_def entry_name_def dot_entry_def)
next
  fix w :: flist and p assume "map_of w p = Some Dir" "\<forall>q. below p q \<longrightarrow> map_of w q = None"
  then show "\<exists>w1. os_rmdir tree_os p w = (None, w1) \<and> map_of w1 = (map_of w)(p := None)"
    by (auto simp: tree_os_def map_of_remove map_of_eq_None_iff)
qed (auto simp: tree_os_def stat_of_def map_of_remove)

definition tree1 :: flist where
  "tree1 = [(''/d'', Dir), (''/d/a'', Reg), (''/d/s'', Dir), (''/d/s/l'', Lnk), (''/dx'', Reg)]"


lemma tree1_fs: "tree_fs (map_of tree1)" "\<forall>q. map_of tree1 q \<noteq> None \<longrightarrow> length q < 1024"
proof -
  have m: "\<exists>x\<in>set tree1. q = fst x \<and> map_of tree1 q = Some (snd x)" if "map_of tree1 q \<noteq> None" for q
    using that by (auto dest: map_of_SomeD intro: bexI [rotated])
  have c: "\<forall>x\<in>set tree1. \<forall>y\<in>set tree1. below (fst x) (fst y) \<longrightarrow> snd x = Dir \<and>
      (\<exists>z\<in>set tree1. below (fst x) (fst z) \<and> entry_name (drop (length (fst x) + 1) (fst z)) \<and> at_below (fst z) (fst y))"
    "\<forall>x\<in>set tree1. length (fst x) < 1024" by code_simp+
  then show "\<forall>q. map_of tree1 q \<noteq> None \<longrightarrow> length q < 1024" using m by blast
  show "tree_fs (map_of tree1)" unfolding tree_fs_def
  proof (intro conjI allI impI)
    show "finite (dom (map_of tree1))" by (rule finite_dom_map_of)
  next
    fix p q assume "map_of tree1 p \<noteq> None" "map_of tree1 p \<noteq> Some Dir" "below p q"
    with m [of p] m [of q] c(1) show "map_of tree1 q = None" by (metis option.discI)
  next
    fix p q assume "map_of tree1 p = Some Dir" "below p q" "map_of tree1 q \<noteq> None"
    with m [of p] m [of q] c(1) obtain z where z: "z \<in> set tree1" "below p (fst z)"
      "entry_name (drop (length p + 1) (fst z))" "at_below (fst z) q" by (metis option.discI)
    have "map_of tree1 (fst z) \<noteq> None" using z(1) by (auto simp: map_of_eq_None_iff)
    with z show "\<exists>n. entry_name n \<and> map_of tree1 (p @ ''/'' @ n) \<noteq> None \<and> at_below (p @ ''/'' @ n) q"
      by (intro exI [of _ "drop (length p + 1) (fst z)"]) (metis below_name)
  qed
qed

section \<open>Properties\<close>

text \<open>Property C2.
  \<^verbatim>\<open>rm -r\<close> removes the tree: on a file system that behaves as documented, for an existing path
  under which every path is shorter than the 1024 byte buffer, the recursion ends with success, and
  afterwards the path and everything under it are gone and every other file is still there.
  Symbolic links are removed, not followed.\<close>

theorem rm_r_removes_tree:
  assumes "fs_laws os fs" "tree_fs (fs w)" "fs w path \<noteq> None"
    "\<forall>q. fs w q \<noteq> None \<longrightarrow> at_below path q \<longrightarrow> length q < 1024"
  shows "\<exists>w1. recurse_rm os path w = Some (Inr (), w1)
    \<and> (\<forall>q. fs w1 q = (if q = path \<or> prefix (path @ ''/'') q then None else fs w q))"
  using recurse_rm_cut [OF assms] by (auto simp: cut_def at_below_def below_def fun_eq_iff)

theorem rm_r_removes_tree_witness:
  "\<exists>w1. recurse_rm tree_os ''/d'' tree1 = Some (Inr (), w1)
    \<and> (\<forall>q. map_of w1 q = (if q = ''/d'' \<or> prefix (''/d'' @ ''/'') q then None else map_of tree1 q))"
  by (rule rm_r_removes_tree [OF tree_os_laws tree1_fs(1)]) (use tree1_fs(2) in \<open>auto simp: tree1_def\<close>)

text \<open>
  The bound on the names is needed: the buffer cuts the joined path, and below a directory whose path has 1020
  characters the entry \<open>..x\<close> becomes the parent of the directory, which the recursion then empties.
\<close>

lemma path_join_escapes: "length path = 1020 \<Longrightarrow> path_join path (''..'' @ x) = path @ ''/..''"
  by (simp add: path_join_def snprintf_buf_def)

lemma recurse_rm_escapes:
  assumes "length path = 1020" "os_lstat os path w = (Inr st, w1)" "st_type st = Dir"
    "os_readdir os path w1 = (Inr [''..x''], w2)"
  shows "recurse_rm os path w =
    Option.bind (recurse_rm os (path @ ''/..'') w2)
      (\<lambda>(r, w3). case r of Inl e \<Rightarrow> Some (Inl e, w3)
        | Inr u \<Rightarrow> (case os_rmdir os path w3 of (Some e, w4) \<Rightarrow> Some (Inl e, w4) | (None, w4) \<Rightarrow> Some (Inr (), w4)))"
proof -
  have "path_join path ''..x'' = path @ ''/..''" using path_join_escapes [OF assms(1), of "''x''"] by simp
  then show ?thesis using assms(2-)
    by (subst recurse_rm.simps)
      (auto simp: dot_entry_def split: option.splits sum.splits prod.splits intro!: Option.bind_cong)
qed

text \<open>Property C28.
  \<^verbatim>\<open>rm -r\<close> stays inside its tree: when the names under the path are shorter than the 1024 byte
  buffer and nobody makes new files meanwhile, whichever calls fail and whatever has vanished in between, \<^verbatim>\<open>unlink\<close> is
  called only on files and symbolic links, and \<^verbatim>\<open>rmdir\<close> only on directories, that are the path itself or
  are reached from it through entries of real directories. So the recursion never goes
  through \<^verbatim>\<open>.\<close> or \<^verbatim>\<open>..\<close>, and it removes a symbolic link and does not follow it out of the tree.\<close>

theorem rm_r_confined:
  assumes "fs_shrinks os fs" "\<forall>q. fs w q \<noteq> None \<longrightarrow> at_below path q \<longrightarrow> length q < 1024"
    "recurse_rm (logged os) path (Traced w []) = Some (r, wl)"
  shows "set (events wl) \<subseteq> {Ev_Unlink q | q. inside (fs w) path q \<and> fs w q \<noteq> None \<and> fs w q \<noteq> Some Dir}
     \<union> {Ev_Rmdir q | q. inside (fs w) path q \<and> fs w q = Some Dir}"
proof -
  have "rm_state fs (fs w) path (snd (r, wl))"
    by (rule recurse_rm_state [OF assms(1) _ assms(3) refl inside.root]) (use assms(2) in \<open>auto simp: rm_state_def\<close>)
  then show ?thesis by (simp add: rm_state_def rm_calls_def)
qed

lemma tree_os_shrinks: "fs_shrinks tree_os map_of"
  unfolding fs_shrinks_def
proof (intro conjI allI impI)
  fix w :: flist and p ns w1 n
  assume "os_readdir tree_os p w = (Inr ns, w1)" "n \<in> set ns" "\<not> dot_entry n"
  then have "n \<in> set (names_in p w)" by (auto simp: tree_os_def dot_entry_def split: if_splits)
  then show "entry_name n" "map_of w (p @ ''/'' @ n) \<noteq> None" by (simp_all add: names_in_set)
qed (auto simp: tree_os_def stat_of_def map_of_remove map_le_def split: option.splits)

theorem rm_r_confined_witness:
  "\<exists>r wl. recurse_rm (logged tree_os) ''/d'' (Traced tree1 []) = Some (r, wl)
    \<and> events wl = [Ev_Unlink ''/d/a'', Ev_Unlink ''/d/s/l'', Ev_Rmdir ''/d/s'', Ev_Rmdir ''/d'']
    \<and> inside (map_of tree1) ''/d'' ''/d/s/l'' \<and> map_of tree1 ''/d/s/l'' = Some Lnk"
proof -
  have "recurse_rm (logged tree_os) ''/d'' (Traced tree1 []) = Some (Inr (), Traced [(''/dx'', Reg)]
     [Ev_Unlink ''/d/a'', Ev_Unlink ''/d/s/l'', Ev_Rmdir ''/d/s'', Ev_Rmdir ''/d''])" by code_simp
  moreover from rm_r_confined [OF tree_os_shrinks _ this] tree1_fs(2)
  have "inside (map_of tree1) ''/d'' ''/d/s/l''" by auto
  ultimately show ?thesis by (simp add: tree1_def)
qed

section \<open>Copying, creating, listing\<close>

lemma copy_loop_copies:
  assumes "reads_from os ifd inp" "writes_all os ofd dstv" "read_keeps os ifd dstv" "write_keeps os ofd inp"
    "\<And>fd v. dstv (os_close os fd v) = dstv v"
  shows "\<exists>w1. copy_loop os ifd ofd w = Some (Inr (), w1) \<and> dstv w1 = dstv w @ inp w"
proof (induction "length (inp w)" arbitrary: w rule: less_induct)
  case less
  obtain k w1 where k: "os_read os ifd 8192 w = (Inr (take k (inp w)), w1)" "inp w1 = drop k (inp w)"
    "inp w \<noteq> [] \<Longrightarrow> 0 < k" by (rule reads_fromE [OF assms(1), of 8192 w]) auto
  note o1 = read_keepsD [OF assms(3) k(1)]
  show ?case
  proof (cases "inp w = []")
    case True
    with k o1 assms(5) show ?thesis by (subst copy_loop.simps) simp
  next
    case False
    obtain w2 where w2: "os_write os ofd (take k (inp w)) w1 = (Inr (length (take k (inp w))), w2)"
      "dstv w2 = dstv w1 @ take k (inp w)" using writes_allE [OF assms(2)] by blast
    have i2: "inp w2 = drop k (inp w)" using write_keepsD [OF assms(4) w2(1)] k(2) by simp
    with less [of w2] False k(3) obtain w3 where
      "copy_loop os ifd ofd w2 = Some (Inr (), w3)" "dstv w3 = dstv w2 @ inp w2" by auto
    with False k w2 o1 i2 show ?thesis by (subst copy_loop.simps) simp
  qed
qed

text \<open>\<^verbatim>\<open>cp\<close> copies a file: when both files open, the source can be read and the destination takes the
  data, \<^verbatim>\<open>copy_file\<close> ends with success and the destination holds what it held after truncation
  followed by exactly the source.\<close>

theorem copy_file_copies:
  assumes "os_open os src [O_RDONLY] w = (Inr ifd, w1)"
    "os_open os dst [O_WRONLY, O_CREAT, O_TRUNC] w1 = (Inr ofd, w2)" "dstv w2 = []"
    "reads_from os ifd inp" "writes_all os ofd dstv" "read_keeps os ifd dstv" "write_keeps os ofd inp"
    "\<And>fd v. dstv (os_close os fd v) = dstv v"
  shows "\<exists>w3. copy_file os src dst w = Some (Inr (), w3) \<and> dstv w3 = inp w2"
  using copy_loop_copies [OF assms(4-8), of w2] assms(1-3) by (simp add: copy_file_def)

text \<open>A kernel with a source that opens as 3 and a destination that opens as 4.\<close>

definition copy_os :: "(string \<times> string) os" where
  "copy_os = null_os\<lparr>
     os_open := (\<lambda>p fl (s, d). if O_TRUNC \<in> set fl then (Inr 4, (s, [])) else (Inr 3, (s, d))),
     os_read := (\<lambda>fd n (s, d). (Inr (take n s), (drop n s, d))),
     os_write := (\<lambda>fd b (s, d). (Inr (length b), (s, d @ b)))\<rparr>"

theorem copy_file_copies_witness:
  "\<exists>w3. copy_file copy_os ''a'' ''b'' (''data'', ''old'') = Some (Inr (), w3) \<and> snd w3 = ''data''"
proof -
  have laws: "reads_from copy_os 3 fst" "writes_all copy_os 4 snd" "read_keeps copy_os 3 snd" "write_keeps copy_os 4 fst"
    by (auto simp: copy_os_def reads_from_def writes_all_def read_keeps_def write_keeps_def)
  have o: "os_open copy_os ''a'' [O_RDONLY] (''data'', ''old'') = (Inr 3, (''data'', ''old''))"
    "os_open copy_os ''b'' [O_WRONLY, O_CREAT, O_TRUNC] (''data'', ''old'') = (Inr 4, (''data'', []))"
    by (simp_all add: copy_os_def)
  have "\<exists>w3. copy_file copy_os ''a'' ''b'' (''data'', ''old'') = Some (Inr (), w3) \<and> snd w3 = fst (''data'', [] :: string)"
    by (rule copy_file_copies [OF o _ laws]) (simp_all add: copy_os_def null_os_def)
  then show ?thesis by simp
qed

text \<open>The proper prefixes of a path that end before a slash, shortest first.\<close>

definition parents :: "string \<Rightarrow> string list" where
  "parents s = map (\<lambda>i. take i s) (filter (\<lambda>i. s ! i = CHR ''/'') [1..<length s])"

lemma mkdir_parents_fold:
  "mkdir_parents os a s w =
     fold (\<lambda>d w. snd (ensure_dir os d w))
       (map (\<lambda>i. take i (a @ s)) (filter (\<lambda>i. (a @ s) ! i = CHR ''/'' \<and> 0 < i) [length a..<length (a @ s)])) w"
proof (induction s arbitrary: a w)
  case (Cons c s)
  have u: "[length a..<length (a @ c # s)] = length a # [length (a @ [c])..<length ((a @ [c]) @ s)]"
    by (simp add: upt_rec)
  show ?case
    unfolding u using Cons [of "a @ [c]"] by (simp add: nth_append)
qed simp

text \<open>\<^verbatim>\<open>mkdir -p\<close> makes the parents first: the loop that cuts the path at each slash in place ensures
  the directories of \<open>parents\<close> in order, from the shortest on and never an empty path, and
  then the path itself; only an error on the last one is reported.\<close>

theorem mkdir_p_parents:
  "mkdir_p os path w =
     (let tmp = take 1023 path; w1 = fold (\<lambda>d w. snd (ensure_dir os d w)) (parents tmp) w
      in case ensure_dir os tmp w1 of
           (None, w2) \<Rightarrow> w2
         | (Some e, w2) \<Rightarrow> if e = EEXIST then w2 else print_error os tmp e w2)"
proof -
  have p: "(if take 1 tmp = ''/'' then mkdir_parents os ''/'' (drop 1 tmp) w else mkdir_parents os [] tmp w)
      = fold (\<lambda>d w. snd (ensure_dir os d w)) (parents tmp) w" for tmp
  proof (cases "take 1 tmp = ''/''")
    case True
    then obtain r where r: "tmp = CHR ''/'' # r" by (cases tmp) auto
    have "filter (\<lambda>i. (''/'' @ r) ! i = CHR ''/'' \<and> 0 < i) [1..<length (''/'' @ r)]
        = filter (\<lambda>i. (''/'' @ r) ! i = CHR ''/'') [1..<length (''/'' @ r)]"
      by (rule filter_cong) auto
    then show ?thesis using True r by (simp add: mkdir_parents_fold parents_def)
  next
    case False
    have "filter (\<lambda>i. tmp ! i = CHR ''/'' \<and> 0 < i) [0..<length tmp] = filter (\<lambda>i. tmp ! i = CHR ''/'') [1..<length tmp]"
    proof (cases tmp)
      case (Cons c r)
      have "[0..<length tmp] = 0 # [1..<length tmp]" using Cons by (simp add: upt_rec)
      moreover have "filter (\<lambda>i. tmp ! i = CHR ''/'' \<and> 0 < i) [1..<length tmp] = filter (\<lambda>i. tmp ! i = CHR ''/'') [1..<length tmp]"
        by (rule filter_cong) auto
      ultimately show ?thesis by simp
    qed simp
    then show ?thesis using False by (simp add: mkdir_parents_fold parents_def)
  qed
  show ?thesis unfolding mkdir_p_def Let_def p by (auto split: option.split prod.split)
qed

text \<open>\<^verbatim>\<open>ls -l\<close> of an absolute path that is not a directory looks at the wrong file: the entry is looked up
  as \<^verbatim>\<open>./\<close> followed by the path, and when that relative path does not exist nothing at all is
  printed, although the file exists, and the result is 0.\<close>

theorem ls_long_absolute:
  assumes "os_lstat os path w = (Inr st, w1)" "st_type st \<noteq> Dir" "take 1 path = ''/''" "length path < 1020"
    "os_lstat os (''./'' @ path) w1 = (Inl e, w2)"
  shows "cmd_ls os [''ls'', ''-l'', path] w = (0, w2)"
proof -
  have "take 1 path \<noteq> ''-''" using assms(3) by simp
  moreover have "path_join ''.'' path = ''./'' @ path" using assms(4) by (simp add: path_join_def snprintf_buf_def)
  ultimately show ?thesis using assms(1,2,5) by (simp add: cmd_ls_def ls_one_def do_ls_entry_def)
qed

theorem ls_long_absolute_witness:
  "\<exists>w2. cmd_ls tree_os [''ls'', ''-l'', ''/d/a''] tree1 = (0, w2)"
proof -
  have "os_lstat tree_os ''/d/a'' tree1 = (Inr (stat_of Reg), tree1)" "os_lstat tree_os (''./'' @ ''/d/a'') tree1 = (Inl 2, tree1)"
    by (simp_all add: tree_os_def tree1_def)
  from ls_long_absolute [OF this(1) _ _ _ this(2)] show ?thesis by (simp add: stat_of_def)
qed

end
