(* ===== verification/Install.thy ===== *)
theory Install
  imports Os
begin

text \<open>
  The package installer of \<^verbatim>\<open>src/builtins.c\<close>: the URL encoder, the two DirectPKGInstaller
  clients (JSON on port 9090, HTTP on port 12800), the KLOG monitor on port 9081 and the
  builtin \<^verbatim>\<open>install\<close>. A buffer read as a C string ends at its first NUL (\<open>c_str\<close>).
\<close>

section \<open>The code\<close>

definition PATH_MAX :: nat where "PATH_MAX = 1024"

subsection \<open>Requests to DirectPKGInstaller\<close>

fun enc_spaces_loop :: "string \<Rightarrow> string \<Rightarrow> nat \<Rightarrow> string" where
  "enc_spaces_loop [] o1 outsz = o1"
| "enc_spaces_loop (c # cs) o1 outsz =
     (if length o1 + 3 < outsz
      then enc_spaces_loop cs (if c = CHR '' '' then o1 @ ''%20'' else o1 @ [c]) outsz
      else o1)"

definition enc_spaces :: "string \<Rightarrow> nat \<Rightarrow> string" where
  "enc_spaces inp outsz =
     (let o1 = enc_spaces_loop inp [] outsz
      in if length o1 < outsz then o1 else take (outsz - 1) o1)"

definition dpi_json :: "string \<Rightarrow> string" where
  "dpi_json url = snprintf_buf (PATH_MAX + 64) (''{\"url\":\"'' @ url @ ''\"}'')"

text \<open>The verdict on the JSON response: the number after \<^verbatim>\<open>"res":"\<close>, -1 without one.\<close>

definition dpi_json_res :: "string \<Rightarrow> int" where
  "dpi_json_res resp =
     (case c_strstr resp ''\"res\":\"'' of None \<Rightarrow> - 1 | Some p \<Rightarrow> c_atoi (drop 7 p))"

text \<open>Waiting for an answer and reading it, then closing: \<open>None\<close> where the code returns -1.\<close>

definition dpi_response :: "'w os \<Rightarrow> int \<Rightarrow> nat \<Rightarrow> 'w \<Rightarrow> string option \<times> 'w" where
  "dpi_response os fd n w =
     (case os_select os fd 5 w of
        (Inr True, w1) \<Rightarrow>
          (case os_read os fd n w1 of
             (Inr s, w2) \<Rightarrow> (if s = [] then None else Some (c_str s), os_close os fd w2)
           | (Inl e, w2) \<Rightarrow> (None, os_close os fd w2))
      | (_, w1) \<Rightarrow> (None, os_close os fd w1))"

definition dpi_send_json_9090 :: "'w os \<Rightarrow> string \<Rightarrow> 'w \<Rightarrow> int \<times> 'w" where
  "dpi_send_json_9090 os url w =
     (case os_socket os w of
        (Inl e, w1) \<Rightarrow> (- 1, w1)
      | (Inr fd, w1) \<Rightarrow>
          (case os_connect os fd 9090 w1 of
             (Some e, w2) \<Rightarrow> (- 1, os_close os fd w2)
           | (None, w2) \<Rightarrow>
               (case os_write os fd (dpi_json url) w2 of
                  (Inl e, w3) \<Rightarrow> (- 1, os_close os fd w3)
                | (Inr k, w3) \<Rightarrow>
                    (case dpi_response os fd 255 w3 of
                       (None, w4) \<Rightarrow> (- 1, w4)
                     | (Some resp, w4) \<Rightarrow>
                         if dpi_json_res resp = 0 then (0, w4)
                         else (- 1, out os (''DPI v1 response: '' @ resp @ ''\<newline>'') w4)))))"

definition crlf :: string where "crlf = [CHR 0x0D, CHR 0x0A]"

definition dpi_v2_body :: "string \<Rightarrow> string" where
  "dpi_v2_body url = snprintf_buf (PATH_MAX * 3 + 8) (''url='' @ enc_spaces url (PATH_MAX * 3))"

definition dpi_v2_head :: "nat \<Rightarrow> string" where
  "dpi_v2_head blen =
     ''POST /upload HTTP/1.1'' @ crlf @ ''Host: 127.0.0.1'' @ crlf
     @ ''Content-Type: application/x-www-form-urlencoded'' @ crlf
     @ ''Content-Length: '' @ show_nat blen @ crlf @ ''Connection: close'' @ crlf @ crlf"

definition dpi_v2_post_url_12800 :: "'w os \<Rightarrow> string \<Rightarrow> 'w \<Rightarrow> int \<times> 'w" where
  "dpi_v2_post_url_12800 os url w =
     (let body = dpi_v2_body url; blen = length body in
      case os_socket os w of
        (Inl e, w1) \<Rightarrow> (- 1, w1)
      | (Inr fd, w1) \<Rightarrow>
          (case os_connect os fd 12800 w1 of
             (Some e, w2) \<Rightarrow> (- 1, os_close os fd w2)
           | (None, w2) \<Rightarrow>
               (let req = dpi_v2_head blen in
                if length req \<ge> 4096 then (- 1, os_close os fd w2)
                else case os_write os fd req w2 of
                  (Inl e, w3) \<Rightarrow> (- 1, os_close os fd w3)
                | (Inr k, w3) \<Rightarrow>
                    (case os_write os fd body w3 of
                       (Inl e, w4) \<Rightarrow> (- 1, os_close os fd w4)
                     | (Inr k, w4) \<Rightarrow>
                         (case dpi_response os fd 1023 w4 of
                            (None, w5) \<Rightarrow> (- 1, w5)
                          | (Some resp, w5) \<Rightarrow>
                              if c_contains resp ''SUCCESS'' then (0, w5)
                              else (- 1, out os (''DPI v2 response:\<newline>'' @ resp @ ''\<newline>'') w5))))))"

subsection \<open>The KLOG monitor\<close>

record klog_st =
  kl_line :: string
  kl_elapsed :: int
  kl_result :: int
  kl_final_state :: int
  kl_final_err :: u32

definition klog_init :: klog_st where
  "klog_init = \<lparr>kl_line = [], kl_elapsed = 0, kl_result = - 1, kl_final_state = - 1, kl_final_err = 0xFFFFFFFF\<rparr>"

text \<open>\<^verbatim>\<open>%.2f\<close> of \<^verbatim>\<open>bytes / 1048576.0\<close>, which is exact: rounding is to nearest, ties to even.\<close>

definition show_mb :: "int \<Rightarrow> string" where
  "show_mb b =
     (let n = nat \<bar>b\<bar> * 100; q = n div 1048576; r = n mod 1048576;
          h = (if r > 524288 \<or> r = 524288 \<and> odd q then q + 1 else q)
      in (if b < 0 then ''-'' else []) @ show_nat (h div 100) @ ''.''
         @ [digit_char (h mod 100 div 10), digit_char (h mod 10)])"

text \<open>\<^verbatim>\<open>sscanf(p, "%d/%d", &cur, &tot)\<close> with both read.\<close>

definition scan_progress :: "string \<Rightarrow> (int \<times> int) option" where
  "scan_progress p =
     (case c_scanf_d p of
        Some (cur, c # r) \<Rightarrow> if c = CHR ''/'' then map_option (\<lambda>(tot, _). (cur, tot)) (c_scanf_d r) else None
      | _ \<Rightarrow> None)"

text \<open>The progress messages of a complete line (from the first non-blank on).\<close>

definition klog_messages :: "'w os \<Rightarrow> string \<Rightarrow> 'w \<Rightarrow> 'w" where
  "klog_messages os s w0 =
     (let w1 = (if c_contains s ''Staring Pre-allocation transfer''
                then out os ''[install] pre-allocation transfer started.\<newline>'' w0 else w0);
          w2 = (if c_contains s ''[PlayGoCore][RequestInstall] begin''
                then out os ''[install] Installation requested\<newline>'' w1 else w1);
          w3 = (case c_strstr s ''application data size ('' of None \<Rightarrow> w2
                | Some p \<Rightarrow> (case c_scanf_d (drop 23 p) of None \<Rightarrow> w2
                             | Some (bytes, _) \<Rightarrow> out os (''[install] Game Size: '' @ show_mb bytes @ '' MB\<newline>'') w2));
          w4 = (if c_contains s ''transfer started'' then out os ''[install] transfer started\<newline>'' w3 else w3);
          w5 = (case c_strstr s ''started ('' of None \<Rightarrow> w4
                | Some p \<Rightarrow> (case scan_progress (drop 9 p) of None \<Rightarrow> w4
                             | Some (cur, tot) \<Rightarrow> if cur = tot \<and> tot > 0
                                 then out os ''[install] Transfer completed\<newline>'' w4 else w4))
      in w5)"

text \<open>
  The \<^verbatim>\<open>Whole Process\<close> line: its time is printed with trailing blanks cut off, and the cut
  is made in the line itself.
\<close>

definition klog_whole_process :: "'w os \<Rightarrow> string \<Rightarrow> 'w \<Rightarrow> string \<times> 'w" where
  "klog_whole_process os s w =
     (case c_strstr s ''Whole Process    : '' of None \<Rightarrow> (s, w)
      | Some p \<Rightarrow>
          (let time_str = rev (dropWhile (\<lambda>c. c = CHR 0x0A \<or> c = CHR '' '') (rev (drop 19 p)));
               s1 = take (length s - length (drop 19 p)) s @ time_str
           in (s1, out os (''[install] Completed in: '' @ time_str @ ''\<newline>'') w)))"

text \<open>The final status on a \<^verbatim>\<open>request ended\<close> line: the new state where the code leaves the loop.\<close>

definition klog_request_ended :: "string \<Rightarrow> klog_st \<Rightarrow> klog_st option" where
  "klog_request_ended s st =
     (if c_contains s ''request ended'' \<and> c_contains s ''state ='' \<and> c_contains s ''error = 0x'' then
        (case (c_strstr s ''state = '', c_strstr s ''error = 0x'') of
           (Some st_pos, Some err_pos) \<Rightarrow>
             (let fs = c_atoi (drop 8 st_pos);
                  fe = (case c_scanf_x (drop 9 err_pos) of None \<Rightarrow> kl_final_err st | Some x \<Rightarrow> x)
              in Some (st\<lparr>kl_final_state := fs, kl_final_err := fe,
                          kl_result := (if fs = 7 \<and> fe = 0 then 0 else - 1)\<rparr>))
         | _ \<Rightarrow> None)
      else None)"

text \<open>The fallback on a \<^verbatim>\<open>playgo.progress\<close> line.\<close>

definition klog_playgo :: "string \<Rightarrow> klog_st \<Rightarrow> klog_st option" where
  "klog_playgo s st =
     (if c_contains s ''playgo.progress.state='' then
        (case c_strstr s ''state='' of None \<Rightarrow> None
         | Some p \<Rightarrow>
           (case (c_scanf_d (drop 6 p), c_strstr s ''error_code=0x'') of
              (Some (stt, _), Some q) \<Rightarrow>
                (let er = (case c_scanf_x (drop 12 q) of None \<Rightarrow> 0xFFFFFFFF | Some x \<Rightarrow> x)
                 in Some (st\<lparr>kl_result := (if stt = 7 \<and> er = 0 then 0 else - 1)\<rparr>))
            | _ \<Rightarrow> None))
      else None)"

text \<open>A complete line: \<open>True\<close> where the code jumps to \<^verbatim>\<open>finished\<close>, else the line is reset.\<close>

definition klog_process_line :: "'w os \<Rightarrow> klog_st \<Rightarrow> 'w \<Rightarrow> (bool \<times> klog_st) \<times> 'w" where
  "klog_process_line os st w =
     (let s0 = dropWhile (\<lambda>c. c = CHR '' '' \<or> c = CHR 0x09) (c_str (kl_line st));
          w1 = klog_messages os s0 w;
          (s, w2) = klog_whole_process os s0 w1
      in case klog_request_ended s st of
           Some st1 \<Rightarrow> ((True, st1), w2)
         | None \<Rightarrow>
             (case klog_playgo s st of
                Some st1 \<Rightarrow> ((True, st1), w2)
              | None \<Rightarrow> ((False, st\<lparr>kl_line := []\<rparr>), w2)))"

definition klog_append :: "string \<Rightarrow> klog_st \<Rightarrow> klog_st" where
  "klog_append chunk st = st\<lparr>kl_line := kl_line st @ take (1023 - length (kl_line st)) chunk\<rparr>"

text \<open>
  The loop over the bytes of one read. \<^verbatim>\<open>strchr\<close> stops at a NUL, so a line feed after a NUL
  is not seen and the rest of the buffer is one chunk.
\<close>

function klog_chunk :: "'w os \<Rightarrow> string \<Rightarrow> klog_st \<Rightarrow> 'w \<Rightarrow> (bool \<times> klog_st) \<times> 'w" where
  "klog_chunk os p st w =
     (if p = [] then ((False, st), w)
      else if CHR 0x0A \<in> set (c_str p) then
        (let chunk = takeWhile (\<lambda>c. c \<noteq> CHR 0x0A) p;
             ((fin, st1), w1) = klog_process_line os (klog_append chunk st) w
         in if fin then ((True, st1), w1)
            else klog_chunk os (drop (length chunk + 1) p) st1 w1)
      else ((False, klog_append p st), w))"
  by pat_completeness auto
termination
  by (relation "measure (\<lambda>(os, p, st, w). length p)") auto

declare klog_chunk.simps [simp del]

datatype klog_end = Klog_Return int | Klog_Finished klog_st

text \<open>The \<^verbatim>\<open>select\<close> loop.\<close>

partial_function (option) klog_loop ::
    "'w os \<Rightarrow> int \<Rightarrow> int \<Rightarrow> klog_st \<Rightarrow> 'w \<Rightarrow> (klog_end \<times> 'w) option" where
  "klog_loop os fd timeout_sec st w =
     (case os_select os fd 1 w of
        (Inl e, w1) \<Rightarrow> Some (Klog_Return (- 1), os_close os fd w1)
      | (Inr ready, w1) \<Rightarrow>
          if \<not> ready then
            (if kl_elapsed st + 1 \<ge> timeout_sec
             then Some (Klog_Finished (st\<lparr>kl_elapsed := kl_elapsed st + 1\<rparr>),
                        out os ''[install] timeout waiting for completion\<newline>'' w1)
             else klog_loop os fd timeout_sec (st\<lparr>kl_elapsed := kl_elapsed st + 1\<rparr>) w1)
          else
            (case os_read os fd 4095 w1 of
               (Inl e, w2) \<Rightarrow> Some (Klog_Finished st, w2)
             | (Inr buf, w2) \<Rightarrow>
                 if buf = [] then Some (Klog_Finished st, w2)
                 else if fst (fst (klog_chunk os buf st w2))
                 then Some (Klog_Finished (snd (fst (klog_chunk os buf st w2))), snd (klog_chunk os buf st w2))
                 else klog_loop os fd timeout_sec (snd (fst (klog_chunk os buf st w2)))
                        (snd (klog_chunk os buf st w2))))"

declare klog_loop.simps [code]

fun show_hex :: "nat \<Rightarrow> string" where
  "show_hex n = (if n < 16 then [''0123456789abcdef'' ! n] else show_hex (n div 16) @ [''0123456789abcdef'' ! (n mod 16)])"

declare show_hex.simps [simp del]

definition klog_failed_msg :: "klog_st \<Rightarrow> string" where
  "klog_failed_msg st = ''[install] Installation failed (state='' @ show_int (kl_final_state st)
     @ '', error=0x'' @ show_hex (unat (kl_final_err st)) @ '')\<newline>''"

text \<open>From the label \<^verbatim>\<open>finished\<close> on.\<close>

definition klog_finish :: "'w os \<Rightarrow> int \<Rightarrow> klog_st \<Rightarrow> 'w \<Rightarrow> int \<times> 'w" where
  "klog_finish os fd st w =
     (let w1 = os_close os fd w;
          w2 = (if kl_result st = 0 then
                  os_klog os ''[install] Installation completed successfully\<newline>''
                    (out os ''[install] Installation completed successfully\<newline>'' w1)
                else if kl_result st = - 1 then
                  os_klog os (klog_failed_msg st) (out os (klog_failed_msg st) w1)
                else out os (''[install] Did not detect completion status '' @ [CHR 0xE2, CHR 0x80, CHR 0x94]
                          @ '' check manually\<newline>'') w1)
      in (kl_result st, w2))"

definition klog_watch_msg :: "int \<Rightarrow> string" where
  "klog_watch_msg timeout_sec =
     ''[install] watching KLOG for completion (up to '' @ show_int timeout_sec @ '' s)...\<newline>''"

definition klog_wait_install :: "'w os \<Rightarrow> int \<Rightarrow> 'w \<Rightarrow> (int \<times> 'w) option" where
  "klog_wait_install os timeout_sec w =
     (case os_socket os w of
        (Inl e, w1) \<Rightarrow> Some (- 1, w1)
      | (Inr fd, w1) \<Rightarrow>
          (case os_connect os fd 9081 w1 of
             (Some e, w2) \<Rightarrow>
               Some (0, out os ''[install] KLOG monitoring not available, install may still succeed\<newline>''
                          (os_close os fd w2))
           | (None, w2) \<Rightarrow>
               do {
                 (r, w3) \<leftarrow> klog_loop os fd timeout_sec klog_init
                   (out os (klog_watch_msg timeout_sec) w2);
                 Some (case r of Klog_Return rc \<Rightarrow> (rc, w3) | Klog_Finished st \<Rightarrow> klog_finish os fd st w3)
               }))"

subsection \<open>The builtin install\<close>

fun install_flags :: "string list \<Rightarrow> bool \<times> string list" where
  "install_flags [] = (False, [])"
| "install_flags (a # as) = (if a = ''-w'' then (True, snd (install_flags as)) else (False, a # as))"

definition is_url :: "string \<Rightarrow> bool" where
  "is_url arg \<longleftrightarrow> take 7 arg = ''http://'' \<or> take 8 arg = ''https://''"

definition install_target :: "string \<Rightarrow> string" where
  "install_target arg =
     (if is_url arg \<or> take 1 arg = ''/'' then take (PATH_MAX - 1) arg
      else snprintf_buf PATH_MAX (''/mnt/usb0/'' @ arg))"

text \<open>\<open>av\<close> is the argument vector, \<^verbatim>\<open>argv[0]\<close> included.\<close>

definition cmd_install :: "'w os \<Rightarrow> string list \<Rightarrow> 'w \<Rightarrow> (int \<times> 'w) option" where
  "cmd_install os av w =
     (let (wait_flag, args) = install_flags (tl av) in
      case args of
        [] \<Rightarrow> Some (- 1, out os ''usage: install [-w] <pkgfile or http(s) URL>\<newline>'' w)
      | arg # _ \<Rightarrow>
          (let target = install_target arg;
               (missing, w1) = (if is_url arg then (None, w)
                                else case os_stat os target w of
                                       (Inl e, w1) \<Rightarrow> (Some e, w1) | (Inr s, w1) \<Rightarrow> (None, w1))
           in case missing of
                Some e \<Rightarrow> Some (- 1, print_error os target e w1)
              | None \<Rightarrow>
                  (let w2 = out os (''Installing: '' @ target @ ''\<newline>'') w1;
                       w3 = out os (''Starting installation sequence for '' @ target @ ''\<newline>'') w2;
                       (r1, w4) = dpi_send_json_9090 os target w3;
                       (r2, w5) = (if r1 = 0 then (0, w4) else dpi_v2_post_url_12800 os target w4)
                   in if r1 = 0 \<or> r2 = 0 then
                        (let w6 = out os ''Install started. See on-screen notifications.\<newline>'' w5
                         in if wait_flag then klog_wait_install os 600 w6 else Some (0, w6))
                      else Some (- 1, out os ''DirectPKGInstaller not reachable (9090/12800). Enable it and retry.\<newline>'' w5))))"

section \<open>The URL encoder\<close>

fun percent_spaces :: "string \<Rightarrow> string" where
  "percent_spaces [] = []"
| "percent_spaces (c # cs) = (if c = CHR '' '' then ''%20'' else [c]) @ percent_spaces cs"

lemma enc_spaces_loop_bound: "length o1 < outsz \<Longrightarrow> length (enc_spaces_loop s o1 outsz) < outsz"
  by (induction s o1 outsz rule: enc_spaces_loop.induct) auto

lemma enc_spaces_loop_prefix:
  "\<exists>k. enc_spaces_loop s o1 outsz = o1 @ percent_spaces (take k s)"
proof (induction s o1 outsz rule: enc_spaces_loop.induct)
  case (2 c cs o1 outsz)
  show ?case
  proof (cases "length o1 + 3 < outsz")
    case True
    with 2 obtain k where "enc_spaces_loop cs (if c = CHR '' '' then o1 @ ''%20'' else o1 @ [c]) outsz
        = (if c = CHR '' '' then o1 @ ''%20'' else o1 @ [c]) @ percent_spaces (take k cs)" by blast
    with True show ?thesis by (intro exI [of _ "Suc k"]) auto
  qed (auto intro: exI [of _ 0])
qed auto

lemma enc_spaces_loop_fits:
  "length o1 + length (percent_spaces s) + 3 \<le> outsz \<Longrightarrow> enc_spaces_loop s o1 outsz = o1 @ percent_spaces s"
  by (induction s o1 outsz rule: enc_spaces_loop.induct) (auto split: if_splits)

lemma enc_spaces_loop_of: "0 < outsz \<Longrightarrow> enc_spaces s outsz = enc_spaces_loop s [] outsz"
  using enc_spaces_loop_bound [of "[]" outsz s] by (simp add: enc_spaces_def)

section \<open>The KLOG monitor never sees success\<close>

lemma scanf_x_at_x: "c_scanf_x (CHR ''x'' # r) = None"
  by (auto simp: c_scanf_x_def c_isspace_def is_hex_def hex_val_def split: list.split)

lemma after_error: "c_strstr s ''error = 0x'' = Some p \<Longrightarrow> c_scanf_x (drop 9 p) = None"
  by (drule c_strstr_Some_conv) (auto simp: scanf_x_at_x)

lemma after_error_code: "c_strstr s ''error_code=0x'' = Some p \<Longrightarrow> c_scanf_x (drop 12 p) = None"
  by (drule c_strstr_Some_conv) (auto simp: scanf_x_at_x)

definition klog_bad :: "klog_st \<Rightarrow> bool" where
  "klog_bad st \<longleftrightarrow> kl_result st = - 1 \<and> kl_final_err st = 0xFFFFFFFF"

lemma klog_bad_init: "klog_bad klog_init"
  by (simp add: klog_bad_def klog_init_def)

lemma request_ended_bad: "klog_bad st \<Longrightarrow> klog_request_ended s st = Some st1 \<Longrightarrow> klog_bad st1"
  by (auto simp: klog_request_ended_def klog_bad_def Let_def dest: after_error split: if_splits option.splits)

lemma playgo_bad: "klog_bad st \<Longrightarrow> klog_playgo s st = Some st1 \<Longrightarrow> klog_bad st1"
  using after_error_code [of s]
  by (fastforce simp: klog_playgo_def klog_bad_def Let_def split: if_splits option.splits)

lemma process_line_bad: "klog_bad st \<Longrightarrow> klog_process_line os st w = ((fin, st1), w1) \<Longrightarrow> klog_bad st1"
  unfolding klog_process_line_def
  by (auto simp: Let_def klog_bad_def split: prod.splits option.splits
      dest: request_ended_bad [unfolded klog_bad_def, rotated] playgo_bad [unfolded klog_bad_def, rotated])

lemma append_bad: "klog_bad st \<Longrightarrow> klog_bad (klog_append c st)"
  by (simp add: klog_bad_def klog_append_def)

lemma chunk_bad: "klog_bad st \<Longrightarrow> klog_bad (snd (fst (klog_chunk os p st w)))"
proof (induction os p st w rule: klog_chunk.induct)
  case (1 os p st w)
  show ?case
  proof (cases "p \<noteq> [] \<and> CHR 0x0A \<in> set (c_str p)")
    case True
    obtain fin st1 w1 where pl: "klog_process_line os (klog_append (takeWhile (\<lambda>c. c \<noteq> CHR 0x0A) p) st) w = ((fin, st1), w1)"
      by (metis prod.exhaust_sel)
    have "klog_bad st1" using process_line_bad [OF append_bad [OF "1.prems"] pl] .
    then show ?thesis
      using True pl "1.IH" by (subst klog_chunk.simps) (auto simp: Let_def)
  next
    case False
    then show ?thesis using "1.prems" append_bad by (subst klog_chunk.simps) auto
  qed
qed

lemmas klog_loop_induct = klog_loop.raw_induct [rotated 1, consumes 1, case_names step]

lemma klog_loop_bad:
  "klog_loop os fd t st w = Some y \<Longrightarrow> klog_bad st \<Longrightarrow>
     (case fst y of Klog_Return rc \<Rightarrow> rc = - 1 | Klog_Finished st1 \<Rightarrow> klog_bad st1)"
proof (induction os fd t st w y rule: klog_loop_induct)
  case (step f os fd t st w y)
  have el: "klog_bad (st\<lparr>kl_elapsed := e\<rparr>)" for e using step.prems by (simp add: klog_bad_def)
  note IH = step.IH
  obtain r w1 where sel: "os_select os fd 1 w = (r, w1)" by (metis prod.exhaust)
  obtain b w2 where rd: "os_read os fd 4095 w1 = (b, w2)" by (metis prod.exhaust)
  note body = step.hyps [unfolded sel, simplified rd prod.case]
  show ?case
  proof (cases r)
    case (Inl e)
    with body show ?thesis by auto
  next
    case (Inr ready)
    show ?thesis
    proof (cases ready)
      case False
      with body Inr el show ?thesis by (auto split: if_splits intro: IH [OF _ el])
    next
      case True
      with body Inr step.prems chunk_bad [OF step.prems] show ?thesis
        by (cases b) (auto split: if_splits intro: IH [OF _ chunk_bad [OF step.prems]])
    qed
  qed
qed

lemma klog_wait_connected:
  assumes "os_socket os w = (Inr fd, w1)" "os_connect os fd 9081 w1 = (None, w2)"
  shows "klog_wait_install os t w =
    map_option (\<lambda>(r, w3). case r of Klog_Return rc \<Rightarrow> (rc, w3) | Klog_Finished st \<Rightarrow> klog_finish os fd st w3)
      (klog_loop os fd t klog_init (out os (klog_watch_msg t) w2))"
  using assms by (simp add: klog_wait_install_def map_option_case split: option.split)

lemma klog_wait_connected_fails:
  assumes "os_socket os w = (Inr fd, w1)" "os_connect os fd 9081 w1 = (None, w2)"
    "klog_wait_install os t w = Some (rc, w3)"
  shows "rc = - 1"
proof -
  obtain r w4 where l: "klog_loop os fd t klog_init (out os (klog_watch_msg t) w2) = Some (r, w4)"
    "(rc, w3) = (case r of Klog_Return rc \<Rightarrow> (rc, w4) | Klog_Finished st \<Rightarrow> klog_finish os fd st w4)"
    using assms(3) by (auto simp: klog_wait_connected [OF assms(1,2)])
  from klog_loop_bad [OF l(1) klog_bad_init] l(2) show ?thesis
    by (cases r) (auto simp: klog_finish_def klog_bad_def Let_def)
qed

lemma klog_wait_ends:
  assumes "os_socket os w = (Inr fd, w1)" "os_connect os fd 9081 w1 = (None, w2)"
    "klog_loop os fd t klog_init (out os (klog_watch_msg t) w2) = Some y"
  shows "\<exists>rc w3. klog_wait_install os t w = Some (rc, w3)"
  by (cases "klog_wait_install os t w") (use assms klog_wait_connected [OF assms(1,2), of t] in auto)

section \<open>Line reassembly\<close>

lemma klog_append_append: "klog_append y (klog_append x st) = klog_append (x @ y) st"
proof -
  have "1023 - (l + min n (1023 - l)) = 1023 - (l + n)" for l n :: nat by linarith
  then show ?thesis by (simp add: klog_append_def)
qed

lemma klog_append_nil [simp]: "klog_append [] st = st"
  by (simp add: klog_append_def)

lemma klog_chunk_no_lf: "CHR 0x0A \<notin> set p \<Longrightarrow> klog_chunk os p st w = ((False, klog_append p st), w)"
  using set_takeWhileD [of _ "\<lambda>c. c \<noteq> CHR 0x00" p] by (subst klog_chunk.simps) (auto simp: c_str_def)

lemma klog_chunk_lf:
  assumes "CHR 0x0A \<notin> set a" "CHR 0x00 \<notin> set a"
  shows "klog_chunk os (a @ CHR 0x0A # b) st w =
    (let ((fin, st1), w1) = klog_process_line os (klog_append a st) w
     in if fin then ((True, st1), w1) else klog_chunk os b st1 w1)"
proof -
  have "takeWhile (\<lambda>c. c \<noteq> CHR 0x0A) (a @ CHR 0x0A # b) = a"
    using assms(1) by (subst takeWhile_append2) auto
  moreover have "CHR 0x0A \<in> set (c_str (a @ CHR 0x0A # b))"
    using assms(2) unfolding c_str_def by (subst takeWhile_append2) auto
  moreover have "drop (length a + 1) (a @ CHR 0x0A # b) = b" by simp
  ultimately show ?thesis by (subst klog_chunk.simps) (simp only: Let_def, simp)
qed

lemma split_lf: "CHR 0x0A \<in> set p \<Longrightarrow> \<exists>a b. p = a @ CHR 0x0A # b \<and> CHR 0x0A \<notin> set a"
  by (meson split_list_first)

lemma klog_chunk_append:
  assumes "CHR 0x00 \<notin> set (p @ q)"
  shows "klog_chunk os (p @ q) st w =
    (let ((fin, st1), w1) = klog_chunk os p st w in if fin then ((True, st1), w1) else klog_chunk os q st1 w1)"
  using assms
proof (induction "length p" arbitrary: p st w rule: less_induct)
  case less
  show ?case
  proof (cases "CHR 0x0A \<in> set p")
    case False
    show ?thesis
    proof (cases "CHR 0x0A \<in> set q")
      case True
      then obtain a b where q: "q = a @ CHR 0x0A # b" "CHR 0x0A \<notin> set a" using split_lf by blast
      then show ?thesis
        using False less.prems klog_chunk_lf [of "p @ a" os b st w]
          klog_chunk_lf [of a os b "klog_append p st" w] klog_chunk_no_lf [of p os st w]
        by (simp add: klog_append_append)
    next
      case False
      with \<open>CHR 0x0A \<notin> set p\<close> show ?thesis by (simp add: klog_chunk_no_lf klog_append_append)
    qed
  next
    case True
    then obtain a b where p: "p = a @ CHR 0x0A # b" "CHR 0x0A \<notin> set a" using split_lf by blast
    obtain fin st1 w1 where pl: "klog_process_line os (klog_append a st) w = ((fin, st1), w1)"
      by (metis prod.exhaust_sel)
    show ?thesis
      using p pl less.prems klog_chunk_lf [of a os "b @ q" st w] klog_chunk_lf [of a os b st w]
        less.hyps [of b st1 w1] by (auto simp: Let_def split: prod.splits)
  qed
qed

text \<open>Feeding the reads of a log one after the other.\<close>

fun klog_feed :: "'w os \<Rightarrow> string list \<Rightarrow> klog_st \<Rightarrow> 'w \<Rightarrow> (bool \<times> klog_st) \<times> 'w" where
  "klog_feed os [] st w = ((False, st), w)"
| "klog_feed os (p # ps) st w =
     (let ((fin, st1), w1) = klog_chunk os p st w in if fin then ((True, st1), w1) else klog_feed os ps st1 w1)"

lemma klog_feed_concat:
  "CHR 0x00 \<notin> set (concat ps) \<Longrightarrow> klog_feed os ps st w = klog_chunk os (concat ps) st w"
proof (induction ps arbitrary: st w)
  case Nil
  show ?case by (simp add: klog_chunk.simps)
next
  case (Cons p ps)
  have "klog_feed os ps st1 w1 = klog_chunk os (concat ps) st1 w1" for st1 w1
    by (rule Cons.IH) (use Cons.prems in auto)
  then show ?case using Cons.prems by (simp add: klog_chunk_append split: prod.splits)
qed

section \<open>The time limit\<close>

lemma klog_loop_silent:
  assumes "\<And>w. \<exists>w1. os_select os fd 1 w = (Inr False, w1)"
  shows "\<exists>w1. klog_loop os fd t st w = Some (Klog_Finished (st\<lparr>kl_elapsed := max t (kl_elapsed st + 1)\<rparr>), w1)"
proof (induction "nat (t - kl_elapsed st)" arbitrary: st w rule: less_induct)
  case less
  obtain w1 where w1: "os_select os fd 1 w = (Inr False, w1)" using assms by blast
  show ?case
  proof (cases "kl_elapsed st + 1 \<ge> t")
    case True
    with w1 show ?thesis by (subst klog_loop.simps) (simp add: max_def)
  next
    case False
    have "\<exists>w2. klog_loop os fd t (st\<lparr>kl_elapsed := kl_elapsed st + 1\<rparr>) w1
       = Some (Klog_Finished (st\<lparr>kl_elapsed := kl_elapsed st + 1\<rparr>
           \<lparr>kl_elapsed := max t (kl_elapsed (st\<lparr>kl_elapsed := kl_elapsed st + 1\<rparr>) + 1)\<rparr>), w2)"
      by (rule less) (use False in simp)
    with w1 False show ?thesis by (subst klog_loop.simps) (auto simp: max_def)
  qed
qed

definition chatty :: "'w os \<Rightarrow> int \<Rightarrow> bool" where
  "chatty os fd \<longleftrightarrow> (\<forall>w. \<exists>w1. os_select os fd 1 w = (Inr True, w1)) \<and>
     (\<forall>w. \<exists>buf w1. os_read os fd 4095 w = (Inr buf, w1) \<and> buf \<noteq> [] \<and> CHR ''='' \<notin> set buf)"

lemma c_contains_set: "c_contains s needle \<Longrightarrow> set needle \<subseteq> set s"
proof -
  assume "c_contains s needle"
  then obtain t where "c_strstr s needle = Some t" by (auto simp: c_contains_def)
  with c_strstr_Some_conv c_strstr_append show ?thesis by fastforce
qed

lemma whole_process_set: "set (fst (klog_whole_process os s w)) \<subseteq> set s"
proof (cases "c_strstr s ''Whole Process    : ''")
  case (Some p)
  then obtain pre where "s = pre @ p" using c_strstr_append by blast
  with Some show ?thesis
    by (auto simp: klog_whole_process_def Let_def dest!: set_dropWhileD in_set_takeD in_set_dropD)
qed (simp add: klog_whole_process_def)

lemma process_line_quiet:
  assumes "CHR ''='' \<notin> set (kl_line st)"
  shows "\<exists>w1. klog_process_line os st w = ((False, st\<lparr>kl_line := []\<rparr>), w1)"
proof -
  define s0 where "s0 = dropWhile (\<lambda>c. c = CHR '' '' \<or> c = CHR 0x09) (c_str (kl_line st))"
  obtain s w2 where s: "klog_whole_process os s0 (klog_messages os s0 w) = (s, w2)" by (metis prod.exhaust)
  have "CHR ''='' \<notin> set s0"
    using assms by (auto simp: s0_def c_str_def dest!: set_dropWhileD set_takeWhileD)
  then have ns: "CHR ''='' \<notin> set s" using whole_process_set [of os s0 "klog_messages os s0 w"] s by auto
  have "klog_request_ended s st = None" "klog_playgo s st = None"
    using ns c_contains_set [of s "''state =''"] c_contains_set [of s "''playgo.progress.state=''"]
    by (auto simp: klog_request_ended_def klog_playgo_def)
  then show ?thesis using s by (simp add: klog_process_line_def s0_def [symmetric] Let_def)
qed

lemma chunk_quiet:
  assumes "CHR ''='' \<notin> set (kl_line st)" "CHR ''='' \<notin> set p"
  shows "\<not> fst (fst (klog_chunk os p st w)) \<and> CHR ''='' \<notin> set (kl_line (snd (fst (klog_chunk os p st w))))"
  using assms
proof (induction os p st w rule: klog_chunk.induct)
  case (1 os p st w)
  have app: "CHR ''='' \<notin> set (kl_line (klog_append c st))" if "CHR ''='' \<notin> set c" for c
    using that "1.prems"(1) by (auto simp: klog_append_def dest: in_set_takeD)
  show ?case
  proof (cases "p \<noteq> [] \<and> CHR 0x0A \<in> set (c_str p)")
    case True
    let ?c = "takeWhile (\<lambda>c. c \<noteq> CHR 0x0A) p"
    have "CHR ''='' \<notin> set ?c" using "1.prems"(2) by (auto dest: set_takeWhileD)
    from process_line_quiet [OF app [OF this], of os w] obtain w1 where
      pl: "klog_process_line os (klog_append ?c st) w = ((False, klog_append ?c st\<lparr>kl_line := []\<rparr>), w1)" by blast
    have "CHR ''='' \<notin> set (drop (length ?c + 1) p)" using "1.prems"(2) by (auto dest: in_set_dropD)
    with "1.IH" [OF _ _ refl pl [symmetric] refl refl] True pl show ?thesis
      by (subst (1 2) klog_chunk.simps) (auto simp: Let_def)
  next
    case False
    then show ?thesis using "1.prems" app [of p] by (subst (1 2) klog_chunk.simps) auto
  qed
qed

lemma klog_loop_chatty:
  "klog_loop os fd t st w = Some y \<Longrightarrow> chatty os fd \<Longrightarrow> CHR ''='' \<notin> set (kl_line st) \<Longrightarrow> False"
proof (induction os fd t st w y rule: klog_loop_induct)
  case (step f os fd t st w y)
  obtain w1 where w1: "os_select os fd 1 w = (Inr True, w1)"
    using step.prems(1) unfolding chatty_def by blast
  obtain buf w2 where b: "os_read os fd 4095 w1 = (Inr buf, w2)" "buf \<noteq> []" "CHR ''='' \<notin> set buf"
    using step.prems(1) unfolding chatty_def by blast
  note q = chunk_quiet [OF step.prems(2) b(3), of os w2]
  from step.hyps w1 b q
  have "f os fd t (snd (fst (klog_chunk os buf st w2))) (snd (klog_chunk os buf st w2)) = Some y" by simp
  from step.IH [OF this step.prems(1)] q show ?case by blast
qed

section \<open>Properties\<close>

lemma length_percent_spaces: "length (percent_spaces s) \<le> 3 * length s"
  by (induction s) auto

lemma percent_spaces_no_space: "CHR '' '' \<notin> set (percent_spaces s)"
  by (induction s) auto

lemma length_install_target: "length (install_target arg) < PATH_MAX"
  by (auto simp: install_target_def PATH_MAX_def snprintf_buf_def)

lemma enc_spaces_fits: "3 * length s + 3 \<le> outsz \<Longrightarrow> enc_spaces s outsz = percent_spaces s"
  using length_percent_spaces [of s] by (simp add: enc_spaces_loop_of enc_spaces_loop_fits)

text \<open>Property C33.
  The requests of \<^verbatim>\<open>install\<close> are never cut by their buffers: for every argument, the JSON request
  of the first protocol holds the whole target, and the body of the second one is the whole
  target with its spaces, and nothing else, percent-encoded, so that it holds no space.\<close>

theorem install_requests_complete:
  "dpi_json (install_target arg) = ''{\"url\":\"'' @ install_target arg @ ''\"}''
   \<and> dpi_v2_body (install_target arg) = ''url='' @ percent_spaces (install_target arg)
   \<and> CHR '' '' \<notin> set (dpi_v2_body (install_target arg))"
proof -
  let ?t = "install_target arg"
  have l: "length ?t < 1024" using length_install_target [of arg] by (simp add: PATH_MAX_def)
  then have "enc_spaces ?t (PATH_MAX * 3) = percent_spaces ?t" by (simp add: PATH_MAX_def enc_spaces_fits)
  moreover have "length (percent_spaces ?t) < 3076" using l length_percent_spaces [of ?t] by linarith
  ultimately have b: "dpi_v2_body ?t = ''url='' @ percent_spaces ?t"
    by (simp add: dpi_v2_body_def PATH_MAX_def snprintf_buf_def)
  moreover have "dpi_json ?t = ''{\"url\":\"'' @ ?t @ ''\"}''"
    using l by (simp add: dpi_json_def PATH_MAX_def snprintf_buf_def)
  ultimately show ?thesis using percent_spaces_no_space [of ?t] by simp
qed

text \<open>Property C29.
  How the log is cut into reads does not matter to the KLOG monitor: for log data without NUL
  bytes, processing the reads one after the other, with the partial line kept between them,
  has the same result, state and effects as processing all of the data at once.\<close>

theorem klog_reassembles:
  assumes "CHR 0x00 \<notin> set (concat ps)"
  shows "klog_feed os ps st w = klog_chunk os (concat ps) st w"
  by (rule klog_feed_concat [OF assms])

theorem klog_reassembles_witness:
  "klog_feed console_os [''request en'', ''ded'', ''\<newline>x''] klog_init ([], [])
     = klog_chunk console_os ''request ended\<newline>x'' klog_init ([], [])"
  using klog_reassembles [of "[''request en'', ''ded'', ''\<newline>x'']" console_os klog_init "([], [])"] by simp

text \<open>A kernel with a KLOG server that sends the input of the console.\<close>

definition klog_os :: "(string \<times> string) os" where
  "klog_os = console_os\<lparr>os_socket := (\<lambda>w. (Inr 5, w)), os_connect := (\<lambda>fd p w. (None, w)),
     os_select := (\<lambda>fd n w. (Inr True, w))\<rparr>"

definition klog_success_line :: string where
  "klog_success_line = ''request ended state = 7 error = 0x0\<newline>''"


lemma klog_success_read: "klog_chunk klog_os klog_success_line klog_init w =
   ((True, \<lparr>kl_line = ''request ended state = 7 error = 0x0'', kl_elapsed = 0, kl_result = - 1, kl_final_state = 7, kl_final_err = 0xFFFFFFFF\<rparr>), w)"
  by code_simp

text \<open>Property C37.
  \<^verbatim>\<open>install -w\<close> never reports success: once the monitor is connected to KLOG, whatever the log says
  and whenever the wait ends, its result is -1 (and with it the message that the installation
  failed). The code is read with \<^verbatim>\<open>%x\<close> from one character too early, at the \<^verbatim>\<open>x\<close> of \<^verbatim>\<open>0x\<close>, so
  the error code is never 0.\<close>

theorem klog_never_succeeds:
  assumes "os_socket os w = (Inr fd, w1)" "os_connect os fd 9081 w1 = (None, w2)"
    "klog_wait_install os t w = Some (rc, w3)"
  shows "rc = - 1"
  by (rule klog_wait_connected_fails [OF assms])

theorem klog_never_succeeds_witness:
  "\<exists>w3. klog_wait_install klog_os 600 (klog_success_line, []) = Some (- 1, w3)"
proof -
  have e: "klog_success_line \<noteq> []" "length klog_success_line < 4095" by (simp_all add: klog_success_line_def)
  have con: "os_socket klog_os w = (Inr 5, w)" "os_connect klog_os 5 9081 w = (None, w)" for w
    by (simp_all add: klog_os_def)
  have r: "fst (out klog_os s w) = fst w" for s w
    by (simp add: out_def klog_os_def dprintf_def console_os_def split: prod.split)
  have rd: "os_read klog_os fd n w = (Inr (take n (fst w)), (drop n (fst w), snd w))" 
     "os_select klog_os fd n w = (Inr True, w)" for fd n w
    by (simp_all add: klog_os_def)
  have "\<exists>y. klog_loop klog_os 5 600 klog_init (out klog_os s (klog_success_line, [])) = Some y" for s
    using e by (subst klog_loop.simps) (simp add: rd r klog_success_read)
  then obtain rc w3 where "klog_wait_install klog_os 600 (klog_success_line, []) = Some (rc, w3)"
    using klog_wait_ends [OF con] by metis
  with klog_never_succeeds [OF con this] show ?thesis by blast
qed

text \<open>The wait of \<^verbatim>\<open>install -w\<close> ends on a silent log: when no data arrives, the monitor returns -1
  after its seconds of one-second ticks, for every limit.\<close>

theorem klog_silent_timeout:
  assumes "os_socket os w = (Inr fd, w1)" "os_connect os fd 9081 w1 = (None, w2)"
    "\<And>v. \<exists>v1. os_select os fd 1 v = (Inr False, v1)"
  shows "\<exists>w3. klog_wait_install os t w = Some (- 1, w3)"
proof -
  obtain rc w3 where "klog_wait_install os t w = Some (rc, w3)"
    using klog_loop_silent [OF assms(3)] klog_wait_ends [OF assms(1,2)] by metis
  with klog_wait_connected_fails [OF assms(1,2) this] show ?thesis by blast
qed

definition silent_klog_os :: "(string \<times> string) os" where
  "silent_klog_os = klog_os\<lparr>os_select := (\<lambda>fd n w. (Inr False, w))\<rparr>"

theorem klog_silent_timeout_witness:
  "\<exists>w3. klog_wait_install silent_klog_os 600 ([], []) = Some (- 1, w3)"
  by (rule klog_silent_timeout [of _ _ 5 "([], [])" "([], [])"]) (simp_all add: silent_klog_os_def klog_os_def)

text \<open>Property C38.
  The time limit does not bound the wait: only ticks without data are counted, so a log that
  always has data ready, of which no line carries an equals sign and hence a status, keeps the
  monitor from ever returning, whatever the limit.\<close>

theorem klog_busy_log_never_returns:
  assumes "os_socket os w = (Inr fd, w1)" "os_connect os fd 9081 w1 = (None, w2)" "chatty os fd"
  shows "klog_wait_install os t w = None"
proof -
  have "klog_loop os fd t klog_init v = None" for v
    using klog_loop_chatty [OF _ assms(3), of t klog_init v] by (cases "klog_loop os fd t klog_init v") (auto simp: klog_init_def)
  then show ?thesis by (simp add: klog_wait_connected [OF assms(1,2)])
qed

definition busy_klog_os :: "(string \<times> string) os" where
  "busy_klog_os = klog_os\<lparr>os_read := (\<lambda>fd n w. (Inr ''tick\<newline>'', w))\<rparr>"

theorem klog_busy_log_never_returns_witness:
  "klog_wait_install busy_klog_os 600 ([], []) = None"
  by (rule klog_busy_log_never_returns [of _ _ 5 "([], [])" "([], [])"])
    (simp_all add: busy_klog_os_def klog_os_def chatty_def)

end
