(* ===== verification/Base64.thy ===== *)
theory Base64
  imports Prelude
begin

unbundle bit_operations_syntax

text \<open>
  The Base64 codec of \<^verbatim>\<open>src/base64.c\<close>, used by the builtins \<^verbatim>\<open>get\<close> and \<^verbatim>\<open>put\<close>. The loops
  keep their index and their output cursor (the output list is what has been stored in
  \<^verbatim>\<open>out[0 .. olen)\<close>); shifts and masks are on 32-bit words as in the C code.
\<close>

section \<open>The code\<close>

definition b64_tab :: string where
  "b64_tab = ''ABCDEFGHIJKLMNOPQRSTUVWXYZabcdefghijklmnopqrstuvwxyz0123456789+/''"

definition b64_char :: "u32 \<Rightarrow> char" where
  "b64_char v = b64_tab ! unat (v AND 0x3F)"

text \<open>The loop of \<^verbatim>\<open>b64_encode_block\<close>, at index \<open>i\<close>.\<close>

function b64_encode_loop :: "byte list \<Rightarrow> nat \<Rightarrow> nat \<Rightarrow> string \<Rightarrow> string" where
  "b64_encode_loop inp inlen i out =
     (if i < inlen then
        let v0 = push_bit 16 (ucast (inp ! i)) :: u32;
            v1 = (if i + 1 < inlen then v0 OR push_bit 8 (ucast (inp ! (i + 1))) else v0);
            v = (if i + 2 < inlen then v1 OR ucast (inp ! (i + 2)) else v1)
        in b64_encode_loop inp inlen (i + 3)
             (out @ [b64_char (drop_bit 18 v), b64_char (drop_bit 12 v),
                     if i + 1 < inlen then b64_char (drop_bit 6 v) else CHR ''='',
                     if i + 2 < inlen then b64_char v else CHR ''=''])
      else out)"
  by pat_completeness auto
termination
  by (relation "measure (\<lambda>(inp, inlen, i, out). inlen - i)") auto

declare b64_encode_loop.simps [simp del]

definition b64_encode_block :: "byte list \<Rightarrow> nat \<Rightarrow> string" where
  "b64_encode_block inp inlen = b64_encode_loop inp inlen 0 []"

definition b64_rev :: "char \<Rightarrow> int" where
  "b64_rev c = (let n = int (of_char c) in
     if 65 \<le> n \<and> n \<le> 90 then n - 65
     else if 97 \<le> n \<and> n \<le> 122 then n - 97 + 26
     else if 48 \<le> n \<and> n \<le> 57 then n - 48 + 52
     else if c = CHR ''+'' then 62
     else if c = CHR ''/'' then 63
     else if c = CHR ''='' then - 2
     else - 1)"

text \<open>The loop of \<^verbatim>\<open>b64_decode_block\<close>; \<open>None\<close> is the return value \<^verbatim>\<open>-1\<close>.\<close>

function b64_decode_loop :: "string \<Rightarrow> nat \<Rightarrow> nat \<Rightarrow> byte list \<Rightarrow> byte list option" where
  "b64_decode_loop inp inlen i out =
     (if i < inlen then
        let a = b64_rev (inp ! i); b = b64_rev (inp ! (i + 1));
            c = b64_rev (inp ! (i + 2)); d = b64_rev (inp ! (i + 3))
        in if a < 0 \<or> b < 0 \<or> c < - 2 \<or> d < - 2 then None
           else
             let v = push_bit 18 (word_of_int a) OR push_bit 12 (word_of_int b)
                       OR push_bit 6 (word_of_int (if c < 0 then 0 else c))
                       OR word_of_int (if d < 0 then 0 else d) :: u32
             in b64_decode_loop inp inlen (i + 4)
                  (out @ [ucast (drop_bit 16 v AND 0xFF)]
                       @ (if c \<noteq> - 2 then [ucast (drop_bit 8 v AND 0xFF)] else [])
                       @ (if d \<noteq> - 2 then [ucast (v AND 0xFF)] else []))
      else Some out)"
  by pat_completeness auto
termination
  by (relation "measure (\<lambda>(inp, inlen, i, out). inlen - i)") auto

declare b64_decode_loop.simps [simp del]

definition b64_decode_block :: "string \<Rightarrow> nat \<Rightarrow> byte list option" where
  "b64_decode_block inp inlen =
     (if inlen mod 4 \<noteq> 0 then None else b64_decode_loop inp inlen 0 [])"

section \<open>Reference definitions\<close>

text \<open>
  RFC 4648, section 4, on groups of three octets: the digits of the 24-bit group value in
  base 64, and the octets of a group value in base 256. The digits are those of table 1 of the
  RFC, given by its ranges and not by the table of the code: the values from 0 on are the
  capital letters, those from 26 on the small letters, those from 52 on the decimal digits,
  62 is the plus sign and 63 the slash.
\<close>

definition rfc_digit :: "nat \<Rightarrow> char" where
  "rfc_digit n = (let m = n mod 64 in
     if m < 26 then char_of (of_char (CHR ''A'') + m)
     else if m < 52 then char_of (of_char (CHR ''a'') + (m - 26))
     else if m < 62 then char_of (of_char (CHR ''0'') + (m - 52))
     else if m = 62 then CHR ''+'' else CHR ''/'')"

fun rfc_encode :: "byte list \<Rightarrow> string" where
  "rfc_encode [] = []"
| "rfc_encode [a] =
     (let n = unat a * 65536 in [rfc_digit (n div 262144), rfc_digit (n div 4096), CHR ''='', CHR ''=''])"
| "rfc_encode [a, b] =
     (let n = unat a * 65536 + unat b * 256
      in [rfc_digit (n div 262144), rfc_digit (n div 4096), rfc_digit (n div 64), CHR ''=''])"
| "rfc_encode (a # b # c # rest) =
     (let n = unat a * 65536 + unat b * 256 + unat c
      in [rfc_digit (n div 262144), rfc_digit (n div 4096), rfc_digit (n div 64), rfc_digit n]
         @ rfc_encode rest)"

text \<open>
  What the decoder computes on a group of four characters: a character outside the alphabet
  in the third or fourth place counts as zero, and only \<^verbatim>\<open>=\<close> drops an octet.
\<close>

definition sextet :: "char \<Rightarrow> nat" where
  "sextet c = (if b64_rev c < 0 then 0 else nat (b64_rev c))"

definition decode_group :: "char \<Rightarrow> char \<Rightarrow> char \<Rightarrow> char \<Rightarrow> byte list option" where
  "decode_group a b c d =
     (if b64_rev a < 0 \<or> b64_rev b < 0 then None
      else let n = sextet a * 262144 + sextet b * 4096 + sextet c * 64 + sextet d
           in Some ([word_of_nat (n div 65536)]
                    @ (if c = CHR ''='' then [] else [word_of_nat (n div 256)])
                    @ (if d = CHR ''='' then [] else [word_of_nat n])))"

fun decode_groups :: "string \<Rightarrow> byte list option" where
  "decode_groups [] = Some []"
| "decode_groups (a # b # c # d # rest) =
     (case decode_group a b c d of None \<Rightarrow> None
      | Some g \<Rightarrow> map_option ((@) g) (decode_groups rest))"
| "decode_groups _ = None"

section \<open>Words\<close>

lemma byte_lt: "unat (a::byte) < 256"
  using unsigned_less [of a, where 'a=nat] by simp

lemma nat_or_shift: "x < 2 ^ k \<Longrightarrow> (y * 2 ^ k) OR x = y * 2 ^ k + (x::nat)"
proof -
  assume "x < 2 ^ k"
  then have x: "take_bit k x = x" by (simp add: take_bit_nat_eq_self_iff)
  have "push_bit k y AND take_bit k x = 0"
    by (rule bit_eqI) (auto simp: bit_simps)
  then have "push_bit k y OR x = push_bit k y + x" by (simp add: disjunctive_add_eq_or x)
  then show ?thesis by (simp add: push_bit_eq_mult)
qed

lemma unat_and63: "unat ((x::u32) AND 0x3F) = unat x mod 64"
proof -
  have "x AND 0x3F = take_bit 6 x" by (simp add: take_bit_eq_mask mask_eq_exp_minus_1)
  then show ?thesis by (simp add: take_bit_eq_mod unat_mod)
qed

lemma unat_and255: "unat ((x::u32) AND 0xFF) = unat x mod 256"
proof -
  have "x AND 0xFF = take_bit 8 x" by (simp add: take_bit_eq_mask mask_eq_exp_minus_1)
  then show ?thesis by (simp add: take_bit_eq_mod unat_mod)
qed

lemma unat_shl: "n < 32 \<Longrightarrow> unat x * 2 ^ n < 2 ^ 32 \<Longrightarrow> unat (push_bit n x :: u32) = unat x * 2 ^ n"
proof -
  assume n: "n < 32" "unat x * 2 ^ n < 2 ^ 32"
  have "unat (push_bit n x) = take_bit LENGTH(32) (push_bit n (unat x))" using n by (simp only: unsigned_push_bit_eq)
  with n show ?thesis by (simp add: push_bit_eq_mult take_bit_eq_mod)
qed

lemma unat_byte_u32 [simp]: "unat (ucast (a::byte) :: u32) = unat a"
proof -
  have "unat (ucast a :: u32) = take_bit LENGTH(32) (unat a)" by (rule unsigned_ucast_eq)
  with byte_lt [of a] show ?thesis by (simp add: take_bit_eq_mod)
qed

lemma unat_shr: "unat (drop_bit n x :: u32) = unat x div 2 ^ n"
  by (metis drop_bit_eq_div unat_drop_bit_eq)

lemma unat_group3:
  "unat ((push_bit 16 (ucast (a::byte)) OR push_bit 8 (ucast (b::byte))) OR ucast (c::byte) :: u32)
     = unat a * 65536 + unat b * 256 + unat c"
  using byte_lt [of a] byte_lt [of b] byte_lt [of c]
    nat_or_shift [of "unat c" 8 "unat b"] nat_or_shift [of "unat b * 256 + unat c" 16 "unat a"]
  by (simp add: unsigned_or_eq unat_shl or.assoc)
lemma unat_group4:
  assumes "a < 64" "b < 64" "c < 64" "d < 64"
  shows "unat (push_bit 18 (word_of_int (int a)) OR push_bit 12 (word_of_int (int b))
           OR push_bit 6 (word_of_int (int c)) OR word_of_int (int d) :: u32)
     = a * 262144 + b * 4096 + c * 64 + d"
proof -
  have w: "unat (word_of_nat n :: u32) = n" if "n < 64" for n
    using that by (simp add: unat_of_nat)
  show ?thesis
    using assms nat_or_shift [of d 6 c] nat_or_shift [of "c * 64 + d" 12 b]
      nat_or_shift [of "b * 4096 + (c * 64 + d)" 18 a]
    by (simp add: unsigned_or_eq unat_shl w or.assoc)
qed


lemma b64_rev_tab_map: "map b64_rev b64_tab = map int [0..<64]"
  by (simp add: b64_tab_def b64_rev_def) code_simp

lemma length_b64_tab [simp]: "length b64_tab = 64"
  by (simp add: b64_tab_def)

lemma b64_rev_tab: "n < 64 \<Longrightarrow> b64_rev (b64_tab ! n) = int n"
  using arg_cong [OF b64_rev_tab_map, of "\<lambda>xs. xs ! n"] by simp

section \<open>Encoding\<close>

text \<open>The table of the code is the alphabet of the RFC.\<close>

lemma b64_tab_rfc: "map rfc_digit [0..<64] = b64_tab"
  by code_simp

lemma rfc_digit_mod: "rfc_digit (n mod 64) = rfc_digit n"
  by (simp add: rfc_digit_def)

lemma rfc_digit_tab: "rfc_digit n = b64_tab ! (n mod 64)"
proof -
  have "b64_tab ! (n mod 64) = rfc_digit (n mod 64)" by (simp only: b64_tab_rfc [symmetric]) simp
  then show ?thesis by (simp only: rfc_digit_mod)
qed

lemma rfc_digit_image: "rfc_digit ` {0..<64} = set b64_tab"
proof -
  have "set b64_tab = set (map rfc_digit [0..<64])" by (simp only: b64_tab_rfc)
  then show ?thesis by simp
qed

lemma b64_char_rfc: "b64_char (drop_bit k v) = rfc_digit (unat v div 2 ^ k)"
  by (simp only: b64_char_def rfc_digit_tab unat_and63 unat_shr)

lemma b64_char_rfc0: "b64_char v = rfc_digit (unat v)"
  by (simp only: b64_char_def rfc_digit_tab unat_and63)

lemma unat_group2:
  "unat (push_bit 16 (ucast (a::byte)) OR push_bit 8 (ucast (b::byte)) :: u32)
     = unat a * 65536 + unat b * 256"
  using unat_group3 [of a b 0] by simp

lemma unat_group1: "unat (push_bit 16 (ucast (a::byte)) :: u32) = unat a * 65536"
  using unat_group3 [of a 0 0] by simp

lemma drop_group3: "i + 2 < length xs \<Longrightarrow> drop i xs = xs ! i # xs ! (i + 1) # xs ! (i + 2) # drop (i + 3) xs"
  by (simp add: Cons_nth_drop_Suc numeral_2_eq_2 numeral_3_eq_3 add.commute)

lemma b64_encode_loop_rfc:
  "length inp = inlen \<Longrightarrow> b64_encode_loop inp inlen i out = out @ rfc_encode (drop i inp)"
proof (induction inp inlen i out rule: b64_encode_loop.induct)
  case (1 inp inlen i out)
  note len = \<open>length inp = inlen\<close>
  consider "inlen \<le> i" | "i + 1 = inlen" | "i + 2 = inlen" | "i + 2 < inlen" by linarith
  then show ?case
  proof cases
    case 1
    with len show ?thesis by (simp add: b64_encode_loop.simps [of inp])
  next
    case 2
    then have "drop i inp = [inp ! i]" using len
      by (metis Cons_nth_drop_Suc Suc_eq_plus1 drop_eq_Nil2 le_refl less_add_one)
    with 2 len "1.IH" show ?thesis
      by (simp add: b64_encode_loop.simps [of inp] Let_def b64_char_rfc unat_group1)
  next
    case 3
    then have "drop i inp = [inp ! i, inp ! (i + 1)]" using len
      by (simp add: Cons_nth_drop_Suc [symmetric])
    with 3 len "1.IH" show ?thesis
      by (simp add: b64_encode_loop.simps [of inp] Let_def b64_char_rfc unat_group2 del: drop_bit_or)
  next
    case 4
    with len have "drop i inp = inp ! i # inp ! (i + 1) # inp ! (i + 2) # drop (i + 3) inp"
      by (simp add: drop_group3)
    with 4 len "1.IH" show ?thesis
      by (simp add: b64_encode_loop.simps [of inp inlen i] Let_def b64_char_rfc0 unat_shr unat_group3
          del: drop_bit_or)
  qed
qed


section \<open>Decoding\<close>

lemma b64_rev_range: "- 2 \<le> b64_rev c \<and> b64_rev c < 64"
  by (auto simp: b64_rev_def Let_def)

lemma b64_rev_pad: "b64_rev c = - 2 \<longleftrightarrow> c = CHR ''=''"
  by (auto simp: b64_rev_def Let_def)

lemma sextet_lt: "sextet c < 64"
  using b64_rev_range [of c] by (auto simp: sextet_def)

lemma word_of_sextet: "word_of_int (if b64_rev c < 0 then 0 else b64_rev c) = (word_of_int (int (sextet c)) :: u32)"
  by (simp add: sextet_def)

lemma byte_of_u32: "(ucast (v AND 0xFF) :: byte) = word_of_nat (unat (v :: u32))"
proof -
  have "unat (ucast (v AND 0xFF) :: byte) = unat v mod 256"
  proof -
    have "unat (ucast (v AND 0xFF) :: byte) = take_bit LENGTH(8) (unat (v AND 0xFF))" by (rule unsigned_ucast_eq)
    then show ?thesis by (simp only: unat_and255) (simp add: take_bit_eq_mod)
  qed
  then show ?thesis by (simp only: word_unat_eq_iff unat_of_nat) simp
qed

lemma b64_decode_step:
  "i < inlen \<Longrightarrow> b64_decode_loop inp inlen i out =
     (case decode_group (inp ! i) (inp ! (i + 1)) (inp ! (i + 2)) (inp ! (i + 3)) of
        None \<Rightarrow> None | Some g \<Rightarrow> b64_decode_loop inp inlen (i + 4) (out @ g))"
proof -
  assume i: "i < inlen"
  let ?a = "inp ! i" and ?b = "inp ! (i + 1)" and ?c = "inp ! (i + 2)" and ?d = "inp ! (i + 3)"
  let ?v = "push_bit 18 (word_of_int (int (sextet ?a))) OR push_bit 12 (word_of_int (int (sextet ?b)))
              OR push_bit 6 (word_of_int (int (sextet ?c))) OR word_of_int (int (sextet ?d)) :: u32"
  have v: "unat ?v = sextet ?a * 262144 + sextet ?b * 4096 + sextet ?c * 64 + sextet ?d"
    by (rule unat_group4) (rule sextet_lt)+
  have w: "word_of_int (b64_rev x) = (word_of_int (int (sextet x)) :: u32)" if "\<not> b64_rev x < 0" for x
    using that by (simp add: sextet_def)
  have neg: "\<not> b64_rev x < - 2" for x using b64_rev_range [of x] by simp
  show ?thesis
  proof (cases "b64_rev ?a < 0 \<or> b64_rev ?b < 0")
    case True
    with i show ?thesis by (auto simp: b64_decode_loop.simps [of inp inlen i] Let_def decode_group_def)
  next
    case False
    then have nonneg: "\<not> b64_rev ?a < 0" "\<not> b64_rev ?b < 0" by auto
    have "b64_decode_loop inp inlen i out = b64_decode_loop inp inlen (i + 4)
        (out @ [ucast (drop_bit 16 ?v AND 0xFF)]
             @ (if ?c \<noteq> CHR ''='' then [ucast (drop_bit 8 ?v AND 0xFF)] else [])
             @ (if ?d \<noteq> CHR ''='' then [ucast (?v AND 0xFF)] else []))"
      using i nonneg
      by (subst b64_decode_loop.simps)
        (simp only: Let_def neg b64_rev_pad if_True if_False simp_thms w word_of_sextet)
    also have "\<dots> = (case decode_group ?a ?b ?c ?d of None \<Rightarrow> None
        | Some g \<Rightarrow> b64_decode_loop inp inlen (i + 4) (out @ g))"
      unfolding byte_of_u32 unat_shr v decode_group_def Let_def using False by simp
    finally show ?thesis .
  qed
qed

lemma b64_decode_loop_groups:
  "length inp mod 4 = 0 \<Longrightarrow> i mod 4 = 0 \<Longrightarrow>
     b64_decode_loop inp (length inp) i out = map_option ((@) out) (decode_groups (drop i inp))"
proof (induction "length inp - i" arbitrary: i out rule: less_induct)
  case less
  show ?case
  proof (cases "i < length inp")
    case False
    then show ?thesis by (simp add: b64_decode_loop.simps [of inp])
  next
    case True
    with less.prems have i: "i + 3 < length inp" by presburger
    then have d: "drop i inp = inp ! i # inp ! (i + 1) # inp ! (i + 2) # inp ! (i + 3) # drop (i + 4) inp"
      by (simp add: Cons_nth_drop_Suc eval_nat_numeral)
    show ?thesis
      using True less.hyps [of "i + 4"] less.prems
      by (cases "decode_groups (drop (i + 4) inp)") (simp_all add: b64_decode_step d split: option.split)
  qed
qed

section \<open>Round trip\<close>

lemma b64_rev_rfc_digit: "b64_rev (rfc_digit n) = int (n mod 64)"
  by (simp add: rfc_digit_tab b64_rev_tab)

lemma sextet_rfc_digit [simp]: "sextet (rfc_digit n) = n mod 64"
  by (simp add: sextet_def b64_rev_rfc_digit)

lemma rfc_digit_not_pad [simp]: "rfc_digit n \<noteq> CHR ''=''"
  using b64_rev_rfc_digit [of n] b64_rev_pad [of "rfc_digit n"] by auto

lemma sextet_pad [simp]: "sextet CHR ''='' = 0"
  by (simp add: sextet_def b64_rev_def)

lemma base64_digits:
  "n < 64 * 262144 \<Longrightarrow>
     (n div 262144) mod 64 * 262144 + (n div 4096) mod 64 * 4096 + (n div 64) mod 64 * 64 + n mod 64 = (n::nat)"
proof -
  assume n: "n < 64 * 262144"
  define m k j where "m = n div 64" and "k = m div 64" and "j = k div 64"
  have "n = m * 64 + n mod 64" "m = k * 64 + m mod 64" "k = j * 64 + k mod 64"
    by (simp_all add: m_def k_def j_def)
  moreover have "n div 64 = m" "n div 4096 = k" "n div 262144 = j"
    by (simp_all add: m_def k_def j_def flip: div_mult2_eq)
  moreover have "j mod 64 = j" using n by (simp add: m_def k_def j_def flip: div_mult2_eq)
  ultimately show ?thesis by (simp only:)
qed

lemma bytes_of_group:
  fixes a b c :: byte
  defines "n \<equiv> unat a * 65536 + unat b * 256 + unat c"
  shows "(word_of_nat (n div 65536) :: byte) = a"
    and "(word_of_nat (n div 256) :: byte) = b"
    and "(word_of_nat n :: byte) = c"
    and "n < 64 * 262144"
proof -
  have d: "(x * k + r) div k = x" if "r < k" for x k r :: nat using that by simp
  have "n div 65536 = unat a" using d [of "unat b * 256 + unat c" 65536 "unat a"] byte_lt [of b] byte_lt [of c]
    by (simp add: n_def add.assoc)
  moreover have "n div 256 = unat a * 256 + unat b"
    using d [of "unat c" 256 "unat a * 256 + unat b"] byte_lt [of c] by (simp add: n_def)
  moreover have "n mod 256 = unat c"
    using mod_mult_self3 [of "unat a * 256 + unat b" 256 "unat c"] byte_lt [of c] by (simp add: n_def algebra_simps)
  ultimately show "(word_of_nat (n div 65536) :: byte) = a" "(word_of_nat (n div 256) :: byte) = b"
      "(word_of_nat n :: byte) = c"
    using byte_lt [of a] byte_lt [of b] byte_lt [of c]
    by (simp_all only: word_unat_eq_iff unat_of_nat) (simp_all add: mod_mult_self3)
  show "n < 64 * 262144" using byte_lt [of a] byte_lt [of b] byte_lt [of c] by (simp add: n_def)
qed

lemma decode_group_rfc:
  assumes "n < 64 * 262144"
    and "c = CHR ''='' \<and> n div 64 mod 64 = 0 \<or> c = rfc_digit (n div 64)"
    and "d = CHR ''='' \<and> n mod 64 = 0 \<or> d = rfc_digit n"
  shows "decode_group (rfc_digit (n div 262144)) (rfc_digit (n div 4096)) c d =
    Some ([word_of_nat (n div 65536)] @ (if c = CHR ''='' then [] else [word_of_nat (n div 256)])
          @ (if d = CHR ''='' then [] else [word_of_nat n]))"
proof -
  have s: "sextet c = n div 64 mod 64" "sextet d = n mod 64" using assms(2,3) by auto
  show ?thesis
    unfolding decode_group_def Let_def sextet_rfc_digit s base64_digits [OF assms(1)] b64_rev_rfc_digit
    by simp
qed

lemma decode_groups_rfc: "decode_groups (rfc_encode xs) = Some xs"
proof (induction xs rule: rfc_encode.induct)
  case 1
  show ?case by simp
next
  case (2 a)
  have "unat a * 65536 div 64 mod 64 = 0" "unat a * 65536 mod 64 = 0" by (simp_all add: div_mult_swap)
  then show ?case
    using bytes_of_group [of a 0 0] decode_group_rfc [of "unat a * 65536" "CHR ''=''" "CHR ''=''"]
    by (simp only: rfc_encode.simps Let_def decode_groups.simps) simp
next
  case (3 a b)
  have "(unat a * 65536 + unat b * 256) mod 64 = 0" by presburger
  then show ?case
    using bytes_of_group [of a b 0]
      decode_group_rfc [of "unat a * 65536 + unat b * 256" "rfc_digit ((unat a * 65536 + unat b * 256) div 64)" "CHR ''=''"]
    by (simp only: rfc_encode.simps Let_def decode_groups.simps) simp
next
  case (4 a b c rest)
  let ?n = "unat a * 65536 + unat b * 256 + unat c"
  show ?case
    using bytes_of_group [of a b c] decode_group_rfc [of ?n "rfc_digit (?n div 64)" "rfc_digit ?n"] 4
    by (simp only: rfc_encode.simps Let_def decode_groups.simps append_Cons append_Nil) simp
qed

lemma length_rfc_encode: "length (rfc_encode xs) = 4 * ((length xs + 2) div 3)"
proof (induction xs rule: rfc_encode.induct)
  case (4 a b c rest)
  have "(length rest + 3 + 2) div 3 = Suc ((length rest + 2) div 3)" by linarith
  with 4 show ?case by (simp add: Let_def)
qed (simp_all add: Let_def)

lemma b64_encode_block_rfc: "b64_encode_block xs (length xs) = rfc_encode xs"
  by (simp add: b64_encode_block_def b64_encode_loop_rfc)

lemma b64_decode_block_groups:
  "b64_decode_block s (length s) = (if length s mod 4 \<noteq> 0 then None else decode_groups s)"
  by (cases "decode_groups s") (simp_all add: b64_decode_block_def b64_decode_loop_groups)

lemma b64_roundtrip: "b64_decode_block (b64_encode_block xs (length xs)) (length (b64_encode_block xs (length xs))) = Some xs"
proof -
  have "length (rfc_encode xs) mod 4 = 0" by (simp only: length_rfc_encode) simp
  then show ?thesis by (simp only: b64_encode_block_rfc b64_decode_block_groups decode_groups_rfc) simp
qed

lemma decode_group_length: "decode_group a b c d = Some g \<Longrightarrow> 1 \<le> length g \<and> length g \<le> 3"
  by (auto simp: decode_group_def Let_def split: if_splits)

lemma decode_groups_length: "decode_groups s = Some bs \<Longrightarrow> 4 * length bs \<le> 3 * length s"
proof (induction s arbitrary: bs rule: decode_groups.induct)
  case (2 a b c d rest)
  then show ?case by (fastforce split: option.splits dest: decode_group_length)
qed auto

section \<open>What is accepted\<close>

lemma decode_group_Some: "(\<exists>g. decode_group a b c d = Some g) \<longleftrightarrow> 0 \<le> b64_rev a \<and> 0 \<le> b64_rev b"
  by (auto simp: decode_group_def Let_def)

lemma lead_positions:
  "(\<forall>i<length (a # b # c # d # s). i mod 4 < 2 \<longrightarrow> P ((a # b # c # d # s) ! i)) \<longleftrightarrow>
     P a \<and> P b \<and> (\<forall>i<length s. i mod 4 < 2 \<longrightarrow> P (s ! i))"
proof -
  have m: "Suc (Suc (Suc (Suc i))) mod 4 = i mod 4" for i :: nat by presburger
  show ?thesis by (simp add: All_less_Suc2 m)
qed

lemma decode_groups_Some:
  "length s mod 4 = 0 \<Longrightarrow>
     (\<exists>bs. decode_groups s = Some bs) \<longleftrightarrow> (\<forall>i<length s. i mod 4 < 2 \<longrightarrow> 0 \<le> b64_rev (s ! i))"
proof (induction s rule: decode_groups.induct)
  case (2 a b c d rest)
  then have l: "length rest mod 4 = 0" by simp
  show ?case
  proof (cases "decode_group a b c d")
    case None
    with decode_group_Some [of a b c d] show ?thesis
      by (simp only: lead_positions [where P="\<lambda>c. 0 \<le> b64_rev c"]) auto
  next
    case (Some g)
    with decode_group_Some [of a b c d] have "0 \<le> b64_rev a" "0 \<le> b64_rev b" by auto
    with Some "2.IH" [OF Some l] show ?thesis by (simp only: lead_positions [where P="\<lambda>c. 0 \<le> b64_rev c"]) auto
  qed
qed auto

lemma of_char_tab: "of_char ` set b64_tab = {65..90} \<union> {97..122} \<union> {48..57} \<union> {43, 47::nat}"
proof -
  have i: "{m..n} = set [m..<Suc n]" for m n :: nat by auto
  show ?thesis by (simp only: i b64_tab_def) (simp add: upt_rec insert_commute)
qed

lemma b64_rev_nonneg: "0 \<le> b64_rev c \<longleftrightarrow> c \<in> set b64_tab"
proof -
  have inj: "(of_char c :: nat) = of_char d \<longleftrightarrow> c = d" for d by simp
  have "c \<in> set b64_tab \<longleftrightarrow> (of_char c :: nat) \<in> of_char ` set b64_tab" by (auto simp: inj)
  also have "\<dots> \<longleftrightarrow> 0 \<le> b64_rev c"
    using inj [of "CHR ''+''"] inj [of "CHR ''/''"]
    by (simp only: of_char_tab) (auto simp: b64_rev_def Let_def)
  finally show ?thesis by simp
qed

lemma rfc_digit_set: "rfc_digit n \<in> set b64_tab"
  by (simp add: rfc_digit_tab)

lemma rfc_encode_set: "set (rfc_encode xs) \<subseteq> insert (CHR ''='') (set b64_tab)"
  by (induction xs rule: rfc_encode.induct) (auto simp: Let_def rfc_digit_set)

lemma b64_decode_block_len: "b64_decode_block s (length s) = Some bs \<Longrightarrow> length s mod 4 = 0 \<and> 4 * length bs \<le> 3 * length s"
  by (auto simp: b64_decode_block_groups dest: decode_groups_length split: if_splits)

section \<open>Properties\<close>

text \<open>Property C8.
  Decoding what \<^verbatim>\<open>b64_encode_block\<close> wrote gives back every byte string: the codec of
  \<^verbatim>\<open>get\<close> and \<^verbatim>\<open>put\<close> loses nothing, for every length and padding.\<close>

theorem b64_decode_encode:
  "b64_decode_block (b64_encode_block xs (length xs)) (length (b64_encode_block xs (length xs))) = Some xs"
  by (rule b64_roundtrip)

text \<open>Property C26.
  \<^verbatim>\<open>b64_encode_block\<close>, with its table, its shifts and masks on 32-bit words and its padding branches,
  computes the encoding of RFC 4648 with the standard alphabet (\<open>rfc_encode\<close> and \<open>rfc_digit\<close>, which do
  not mention the table of the code): the output is four characters for every started group of
  three bytes, all of them digits of that alphabet or padding. The witness has the test
  vectors of section 10 of the RFC and three bytes whose digits are the plus sign and the slash.\<close>

theorem b64_encode_is_rfc4648:
  "b64_encode_block xs (length xs) = rfc_encode xs
   \<and> length (b64_encode_block xs (length xs)) = 4 * ((length xs + 2) div 3)
   \<and> set (b64_encode_block xs (length xs)) \<subseteq> insert (CHR ''='') (rfc_digit ` {0..<64})"
  by (simp only: b64_encode_block_rfc length_rfc_encode rfc_digit_image rfc_encode_set simp_thms)

text \<open>The test vectors of RFC 4648, section 10, and the last two digits of the alphabet.\<close>

lemma rfc_vectors:
  "rfc_encode [] = ''''"
  "rfc_encode [0x66] = ''Zg==''"
  "rfc_encode [0x66, 0x6F] = ''Zm8=''"
  "rfc_encode [0x66, 0x6F, 0x6F] = ''Zm9v''"
  "rfc_encode [0x66, 0x6F, 0x6F, 0x62] = ''Zm9vYg==''"
  "rfc_encode [0x66, 0x6F, 0x6F, 0x62, 0x61] = ''Zm9vYmE=''"
  "rfc_encode [0x66, 0x6F, 0x6F, 0x62, 0x61, 0x72] = ''Zm9vYmFy''"
  "rfc_encode [0xFB, 0xEF, 0xFF] = ''++//''"
  by (simp_all add: rfc_digit_def char_of_def bit_iff_odd)

theorem b64_encode_is_rfc4648_witness:
  "b64_encode_block [] 0 = ''''
   \<and> b64_encode_block [0x66] 1 = ''Zg==''
   \<and> b64_encode_block [0x66, 0x6F] 2 = ''Zm8=''
   \<and> b64_encode_block [0x66, 0x6F, 0x6F] 3 = ''Zm9v''
   \<and> b64_encode_block [0x66, 0x6F, 0x6F, 0x62] 4 = ''Zm9vYg==''
   \<and> b64_encode_block [0x66, 0x6F, 0x6F, 0x62, 0x61] 5 = ''Zm9vYmE=''
   \<and> b64_encode_block [0x66, 0x6F, 0x6F, 0x62, 0x61, 0x72] 6 = ''Zm9vYmFy''
   \<and> b64_encode_block [0xFB, 0xEF, 0xFF] 3 = ''++//''"
proof -
  note e = b64_encode_is_rfc4648 [THEN conjunct1, unfolded rfc_vectors]
  show ?thesis
    using e [of "[]"] e [of "[0x66]"] e [of "[0x66, 0x6F]"] e [of "[0x66, 0x6F, 0x6F]"]
      e [of "[0x66, 0x6F, 0x6F, 0x62]"] e [of "[0x66, 0x6F, 0x6F, 0x62, 0x61]"]
      e [of "[0x66, 0x6F, 0x6F, 0x62, 0x61, 0x72]"] e [of "[0xFB, 0xEF, 0xFF]"]
    by (simp only: rfc_vectors list.size) (simp add: eval_nat_numeral)
qed

text \<open>What \<^verbatim>\<open>b64_decode_block\<close> accepts, exactly: a multiple of four characters of which the first
  two of each group are Base64 digits. The third and the fourth character of a group are not
  checked at all, because the test \<^verbatim>\<open>c < -2 || d < -2\<close> is never true.\<close>

theorem b64_decode_accepts:
  "(\<exists>bs. b64_decode_block s (length s) = Some bs) \<longleftrightarrow>
     length s mod 4 = 0 \<and> (\<forall>i<length s. i mod 4 < 2 \<longrightarrow> s ! i \<in> set b64_tab)"
  by (auto simp: b64_decode_block_groups decode_groups_Some b64_rev_nonneg)

theorem b64_decode_accepts_witness:
  "\<exists>bs. b64_decode_block ''QQ!?'' (length ''QQ!?'') = Some bs"
proof -
  have "length ''QQ!?'' mod 4 = 0 \<and> (\<forall>i<length ''QQ!?''. i mod 4 < 2 \<longrightarrow> ''QQ!?'' ! i \<in> set b64_tab)"
    by (auto simp: b64_tab_def less_Suc_eq)
  then show ?thesis unfolding b64_decode_accepts .
qed

text \<open>The buffers of \<^verbatim>\<open>get\<close> and \<^verbatim>\<open>put\<close> are large enough: the encoding of a block of at most 3072 bytes
  fits into \<^verbatim>\<open>out[4096]\<close>, and what is decoded from at most 4095 characters fits
  into \<^verbatim>\<open>bin[3072]\<close>.\<close>

theorem b64_buffers:
  assumes "length xs \<le> 3072" "length s \<le> 4095"
  shows "length (b64_encode_block xs (length xs)) \<le> 4096
    \<and> (\<forall>bs. b64_decode_block s (length s) = Some bs \<longrightarrow> length bs \<le> 3072)"
proof -
  have "length (b64_encode_block xs (length xs)) \<le> 4096"
    using assms(1) by (simp only: b64_encode_block_rfc length_rfc_encode) presburger
  moreover have "length bs \<le> 3072" if "b64_decode_block s (length s) = Some bs" for bs
    using b64_decode_block_len [OF that] assms(2) by linarith
  ultimately show ?thesis by blast
qed

lemma b64_buffers_sizes: "length (replicate 3072 (0::byte)) \<le> 3072" "length ''QUJD'' \<le> 4095"
  by simp_all

theorem b64_buffers_witness:
  "length (b64_encode_block (replicate 3072 0) 3072) \<le> 4096
    \<and> (\<exists>bs. b64_decode_block ''QUJD'' (length ''QUJD'') = Some bs \<and> length bs \<le> 3072)"
proof -
  have "b64_decode_block ''QUJD'' (length ''QUJD'') = Some [65, 66, 67]" by code_simp
  with b64_buffers [OF b64_buffers_sizes] show ?thesis by (simp only: length_replicate) blast
qed

end
