(* ===== verification/File_Transfer.thy ===== *)
theory File_Transfer
  imports Base64 Os
begin

text \<open>
  The file transfer builtins \<^verbatim>\<open>put\<close> and \<^verbatim>\<open>get\<close> of \<^verbatim>\<open>src/builtins.c\<close>: a file travels as lines of
  Base64 followed by a line that holds a single dot.
\<close>

section \<open>The code\<close>

text \<open>A buffer is a string where the kernel sees it and a byte list where the codec does.\<close>

definition bytes_of :: "string \<Rightarrow> byte list" where
  "bytes_of s = map (\<lambda>c. word_of_nat (of_char c)) s"

definition chars_of :: "byte list \<Rightarrow> string" where
  "chars_of bs = map (\<lambda>b. char_of (unat b)) bs"

text \<open>What is left of a read after the line feed is replaced by a NUL.\<close>

definition put_line :: "string \<Rightarrow> string" where
  "put_line buf = takeWhile (\<lambda>c. c \<noteq> CHR 0x0A) (c_str buf)"

partial_function (option) put_loop :: "'w os \<Rightarrow> int \<Rightarrow> 'w \<Rightarrow> 'w option" where
  "put_loop os fd w =
     (case os_read os 0 4095 w of
        (Inl e, w1) \<Rightarrow> Some w1
      | (Inr buf, w1) \<Rightarrow>
          if buf = [] then Some w1
          else if put_line buf = ''.'' then Some w1
          else case b64_decode_block (put_line buf) (length (put_line buf)) of
                 None \<Rightarrow> Some (out os ''decode error\<newline>'' w1)
               | Some bin \<Rightarrow>
                   (case os_write os fd (chars_of bin) w1 of
                      (Inl e, w2) \<Rightarrow> Some (out os ''write error\<newline>'' w2)
                    | (Inr k, w2) \<Rightarrow>
                        if k \<noteq> length bin then Some (out os ''write error\<newline>'' w2)
                        else put_loop os fd w2))"

declare put_loop.simps [code]

definition cmd_put :: "'w os \<Rightarrow> string list \<Rightarrow> 'w \<Rightarrow> (int \<times> 'w) option" where
  "cmd_put os av w =
     (if length av \<noteq> 2 then Some (- 1, out os ''usage: put <dest>\<newline>'' w)
      else case os_open os (av ! 1) [O_WRONLY, O_CREAT, O_TRUNC] w of
             (Inl e, w1) \<Rightarrow> Some (- 1, print_error os (av ! 1) e w1)
           | (Inr fd, w1) \<Rightarrow> do {
               w2 \<leftarrow> put_loop os fd (out os ''.\<newline>'' w1);
               Some (0, os_close os fd w2)
             })"

text \<open>The results of the three writes of \<^verbatim>\<open>get\<close> are ignored.\<close>

definition get_block :: "'w os \<Rightarrow> string \<Rightarrow> 'w \<Rightarrow> 'w" where
  "get_block os buf w =
     snd (os_write os 1 ''\<newline>'' (snd (os_write os 1 (b64_encode_block (bytes_of buf) (length buf)) w)))"

partial_function (option) get_loop :: "'w os \<Rightarrow> int \<Rightarrow> 'w \<Rightarrow> 'w option" where
  "get_loop os fd w =
     (case os_read os fd 3072 w of
        (Inl e, w1) \<Rightarrow> Some w1
      | (Inr buf, w1) \<Rightarrow> if buf = [] then Some w1 else get_loop os fd (get_block os buf w1))"

declare get_loop.simps [code]

definition cmd_get :: "'w os \<Rightarrow> string list \<Rightarrow> 'w \<Rightarrow> (int \<times> 'w) option" where
  "cmd_get os av w =
     (if length av \<noteq> 2 then Some (- 1, out os ''usage: get <src>\<newline>'' w)
      else case os_open os (av ! 1) [O_RDONLY] w of
             (Inl e, w1) \<Rightarrow> Some (- 1, print_error os (av ! 1) e w1)
           | (Inr fd, w1) \<Rightarrow> do {
               w2 \<leftarrow> get_loop os fd w1;
               Some (0, os_close os fd (snd (os_write os 1 ''.\<newline>'' w2)))
             })"

section \<open>Block codecs\<close>

text \<open>
  What the two builtins need of a codec: decoding inverts encoding, and an encoded block
  is a line that is neither cut nor taken for the final dot.
\<close>

locale block_codec =
  fixes enc :: "byte list \<Rightarrow> string" and dec :: "string \<Rightarrow> byte list option"
  assumes dec_enc: "dec (enc b) = Some b"
    and enc_line: "CHR 0x0A \<notin> set (enc b)" "CHR 0x00 \<notin> set (enc b)"
    and enc_not_dot: "enc b \<noteq> ''.''"
begin

lemma enc_put_line: "put_line (enc b @ CHR 0x0A # r) = enc b"
  using enc_line [of b] by (simp add: put_line_def c_str_append takeWhile_upto)

lemma enc_inj: "enc a = enc b \<Longrightarrow> a = b"
  using dec_enc by (metis option.inject)

end

text \<open>The lines of a transfer.\<close>

definition transfer_lines :: "(byte list \<Rightarrow> string) \<Rightarrow> byte list list \<Rightarrow> string list" where
  "transfer_lines enc blocks = map (\<lambda>b. enc b @ ''\<newline>'') blocks @ [''.\<newline>'']"

text \<open>
  What a receiver with the decoder \<open>dec\<close> makes of lines: the data, and how the transfer ended: with the dot, with a line that
  is not an encoding, or with the end of the lines.
\<close>

datatype reception = Complete | Garbled | Cut_Off

fun receive :: "(string \<Rightarrow> byte list option) \<Rightarrow> string list \<Rightarrow> byte list \<times> reception" where
  "receive dec [] = ([], Cut_Off)"
| "receive dec (l # ls) =
     (if put_line l = ''.'' then ([], Complete)
      else case dec (put_line l) of None \<Rightarrow> ([], Garbled)
           | Some b \<Rightarrow> (let (d, f) = receive dec ls in (b @ d, f)))"

definition report :: "reception \<Rightarrow> string" where
  "report r = (if r = Garbled then ''decode error\<newline>'' else [])"

context block_codec
begin

lemma receive_transfer: "receive dec (transfer_lines enc blocks) = (concat blocks, Complete)"
proof (induction blocks)
  case Nil
  show ?case by (simp add: transfer_lines_def put_line_def c_str_def)
next
  case (Cons b bs)
  have "receive dec (transfer_lines enc (b # bs)) =
      (let (d, f) = receive dec (transfer_lines enc bs) in (b @ d, f))"
    using enc_put_line [of b "[]"] enc_not_dot [of b] dec_enc [of b] by (simp add: transfer_lines_def)
  with Cons show ?case by simp
qed

end

definition b64_enc :: "byte list \<Rightarrow> string" where
  "b64_enc b = b64_encode_block b (length b)"

definition b64_dec :: "string \<Rightarrow> byte list option" where
  "b64_dec s = b64_decode_block s (length s)"

lemma b64_enc_set: "set (b64_enc b) \<subseteq> insert (CHR ''='') (set b64_tab)"
  by (simp only: b64_enc_def b64_encode_block_rfc rfc_encode_set)

interpretation b64: block_codec b64_enc b64_dec
proof unfold_locales
  fix b
  show "b64_dec (b64_enc b) = Some b" unfolding b64_dec_def b64_enc_def by (rule b64_roundtrip)
  show "CHR 0x0A \<notin> set (b64_enc b)" "CHR 0x00 \<notin> set (b64_enc b)"
    using b64_enc_set [of b] by (auto simp: b64_tab_def)
  have "length (b64_enc b) mod 4 = 0"
    by (simp only: b64_enc_def b64_encode_block_rfc length_rfc_encode) simp
  then show "b64_enc b \<noteq> ''.''" by auto
qed

lemmas b64_folds = b64_enc_def [symmetric] b64_dec_def [symmetric]

section \<open>Sending\<close>

lemma bytes_of_length [simp]: "length (bytes_of s) = length s"
  by (simp add: bytes_of_def)

lemma length_chars_of [simp]: "length (chars_of bs) = length bs"
  by (simp add: chars_of_def)

lemma chars_of_append [simp]: "chars_of (a @ b) = chars_of a @ chars_of b"
  by (simp add: chars_of_def)

lemma chars_of_bytes_of [simp]: "chars_of (bytes_of s) = s"
proof -
  have "char_of (unat (word_of_nat (of_char c) :: byte)) = c" for c
    by (simp add: unat_of_nat)
  then show ?thesis by (simp add: chars_of_def bytes_of_def map_idI)
qed

lemma bytes_of_append: "bytes_of (a @ b) = bytes_of a @ bytes_of b"
  by (simp add: bytes_of_def)

lemma get_block_out:
  assumes "writes_all os 1 outv" "write_keeps os 1 inp"
  shows "outv (get_block os buf w) = outv w @ b64_enc (bytes_of buf) @ ''\<newline>''" "inp (get_block os buf w) = inp w"
  using assms by (simp_all add: get_block_def writes_all_def write_keeps_def b64_enc_def)

text \<open>The blocks are what the reads returned: non-empty and at most 3072 bytes each.\<close>

lemma get_loop_blocks:
  assumes "reads_from os fd inp" "read_keeps os fd outv" "writes_all os 1 outv" "write_keeps os 1 inp"
  shows "\<exists>w1 blocks. get_loop os fd w = Some w1 \<and> concat blocks = bytes_of (inp w)
    \<and> (\<forall>b\<in>set blocks. b \<noteq> [] \<and> length b \<le> 3072)
    \<and> outv w1 = outv w @ concat (map (\<lambda>b. b64_enc b @ ''\<newline>'') blocks)"
proof (induction "length (inp w)" arbitrary: w rule: less_induct)
  case less
  obtain k w1 where k: "os_read os fd 3072 w = (Inr (take k (inp w)), w1)" "inp w1 = drop k (inp w)"
    "k \<le> 3072" "inp w \<noteq> [] \<Longrightarrow> 0 < k" by (rule reads_fromE [OF assms(1), of 3072 w]) auto
  have o1: "outv w1 = outv w" using read_keepsD [OF assms(2) k(1)] .
  show ?case
  proof (cases "inp w = []")
    case True
    with k o1 show ?thesis by (intro exI [of _ w1] exI [of _ "[]"]) (simp add: get_loop.simps bytes_of_def)
  next
    case False
    let ?w2 = "get_block os (take k (inp w)) w1"
    note g = get_block_out [OF assms(3,4), of "take k (inp w)" w1]
    have "length (inp ?w2) < length (inp w)" using False k g by simp
    from less [OF this] obtain w3 blocks where r: "get_loop os fd ?w2 = Some w3"
      "concat blocks = bytes_of (inp ?w2)" "\<forall>b\<in>set blocks. b \<noteq> [] \<and> length b \<le> 3072"
      "outv w3 = outv ?w2 @ concat (map (\<lambda>b. b64_enc b @ ''\<newline>'') blocks)" by blast
    let ?b = "bytes_of (take k (inp w))"
    have "?b \<noteq> [] \<and> length ?b \<le> 3072" using False k(3,4) by (simp add: bytes_of_def)
    moreover have "concat (?b # blocks) = bytes_of (inp w)"
      using r(2) g(2) k(2) by (simp flip: bytes_of_append)
    moreover have "get_loop os fd w = Some w3" using False k r(1) by (subst get_loop.simps) auto
    ultimately show ?thesis using r(3,4) g(1) o1
      by (intro exI [of _ w3] exI [of _ "?b # blocks"]) auto
  qed
qed

section \<open>Receiving\<close>

text \<open>
  A client that sends a line and waits: each read on descriptor 0 that has room for the
  next line returns it whole, and a read after the last line returns nothing.
\<close>

definition line_reads :: "'w os \<Rightarrow> nat \<Rightarrow> ('w \<Rightarrow> string list) \<Rightarrow> bool" where
  "line_reads os n lv \<longleftrightarrow>
     (\<forall>w. case lv w of
            [] \<Rightarrow> fst (os_read os 0 n w) = Inr [] \<and> lv (snd (os_read os 0 n w)) = []
          | l # ls \<Rightarrow> length l \<le> n \<longrightarrow> fst (os_read os 0 n w) = Inr l \<and> lv (snd (os_read os 0 n w)) = ls)"

lemma line_reads_Nil:
  assumes "line_reads os n lv" "lv w = []"
  obtains w1 where "os_read os 0 n w = (Inr [], w1)" "lv w1 = []"
  using spec [OF assms(1) [unfolded line_reads_def], of w] assms(2) that by (cases "os_read os 0 n w") simp

lemma line_reads_Cons:
  assumes "line_reads os n lv" "lv w = l # ls" "length l \<le> n"
  obtains w1 where "os_read os 0 n w = (Inr l, w1)" "lv w1 = ls"
  using spec [OF assms(1) [unfolded line_reads_def], of w] assms(2,3) that by (cases "os_read os 0 n w") simp

lemma out_keeps: "write_keeps os 1 v \<Longrightarrow> v (out os s w) = v w"
  by (auto simp: out_def dprintf_def write_keeps_def split: prod.splits sum.splits)
    (metis snd_conv)+

lemma out_writes: "writes_all os 1 outv \<Longrightarrow> length s < 1024 \<Longrightarrow> outv (out os s w) = outv w @ s"
  using writes_allE [of os 1 outv s w] by (fastforce simp: out_def dprintf_def dprintf_bytes_short)

text \<open>The receiving loop implements \<open>receive\<close>.\<close>

lemma put_loop_receive:
  fixes os :: "'w os"
  assumes "line_reads os 4095 lv" "read_keeps os 0 filev" "writes_all os fd filev" "write_keeps os fd lv"
    "write_keeps os 1 filev"
  shows "\<forall>l\<in>set (lv w). l \<noteq> [] \<and> length l \<le> 4095 \<Longrightarrow>
    \<exists>v w1. put_loop os fd w = Some w1 \<and> filev w1 = filev w @ chars_of (fst (receive b64_dec (lv w)))
      \<and> w1 = (if snd (receive b64_dec (lv w)) = Garbled then out os ''decode error\<newline>'' v else v)
      \<and> (\<forall>outv :: 'w \<Rightarrow> string. read_keeps os 0 outv \<longrightarrow> write_keeps os fd outv \<longrightarrow> outv v = outv w)"
    (is "_ \<Longrightarrow> \<exists>v w1. ?P w v w1")
proof (induction "lv w" arbitrary: w)
  case Nil
  obtain w1 where w1: "os_read os 0 4095 w = (Inr [], w1)"
    using line_reads_Nil [OF assms(1), of w] Nil by metis
  have "outv w1 = outv w" if "read_keeps os 0 outv" for outv :: "'w \<Rightarrow> string" by (rule read_keepsD [OF that w1])
  with w1 read_keepsD [OF assms(2) w1] Nil(1) [symmetric] have "?P w w1 w1"
    by (subst put_loop.simps) (simp add: chars_of_def)
  then show ?case by blast
next
  case (Cons l ls)
  then have l: "l \<noteq> []" "length l \<le> 4095" and ls: "\<forall>l\<in>set ls. l \<noteq> [] \<and> length l \<le> 4095"
    by (auto simp flip: Cons(2))
  obtain w1 where w1: "os_read os 0 4095 w = (Inr l, w1)" "lv w1 = ls"
    using line_reads_Cons [OF assms(1) Cons(2) [symmetric] l(2)] by blast
  note f1 = read_keepsD [OF assms(2) w1(1)]
  have o1: "outv w1 = outv w" if "read_keeps os 0 outv" for outv :: "'w \<Rightarrow> string" by (rule read_keepsD [OF that w1(1)])
  consider "put_line l = ''.''" | "put_line l \<noteq> ''.''" "b64_dec (put_line l) = None"
    | b where "put_line l \<noteq> ''.''" "b64_dec (put_line l) = Some b" by fastforce
  then show ?case
  proof cases
    case 1
    with w1 l f1 o1 Cons(2) [symmetric] have "?P w w1 w1" by (subst put_loop.simps) (simp add: chars_of_def)
    then show ?thesis by blast
  next
    case 2
    with w1 l f1 o1 Cons(2) [symmetric] out_keeps [OF assms(5)] have "?P w w1 (out os ''decode error\<newline>'' w1)"
      by (subst put_loop.simps) (simp add: chars_of_def b64_folds)
    then show ?thesis by blast
  next
    case 3
    obtain w2 where w2: "os_write os fd (chars_of b) w1 = (Inr (length b), w2)" "filev w2 = filev w1 @ chars_of b"
      using writes_allE [OF assms(3), of "chars_of b" w1] by auto
    have "lv w2 = ls" using write_keepsD [OF assms(4) w2(1)] w1(2) by simp
    with Cons(1) [of w2] ls obtain v w3 where w3: "?P w2 v w3" by auto
    have "outv w2 = outv w" if "read_keeps os 0 outv" "write_keeps os fd outv" for outv :: "'w \<Rightarrow> string"
      using o1 [OF that(1)] write_keepsD [OF that(2) w2(1)] by simp
    with w3 3 w1 w2 l f1 \<open>lv w2 = ls\<close> Cons(2) [symmetric] have "?P w v w3"
      by (subst put_loop.simps) (cases "receive b64_dec ls"; auto simp: b64_folds)
    then show ?thesis by blast
  qed
qed

lemma length_b64_enc: "length (b64_enc b) = 4 * ((length b + 2) div 3)"
  by (simp only: b64_enc_def b64_encode_block_rfc length_rfc_encode)

lemma transfer_lines_fit:
  "\<forall>b\<in>set blocks. length b \<le> 3069 \<Longrightarrow> \<forall>l\<in>set (transfer_lines b64_enc blocks). l \<noteq> [] \<and> length l \<le> 4095"
proof -
  have "4 * ((n + 2) div 3) + 1 \<le> 4095" if "n \<le> 3069" for n :: nat using that by presburger
  then show "\<forall>b\<in>set blocks. length b \<le> 3069 \<Longrightarrow> ?thesis" by (auto simp: transfer_lines_def length_b64_enc)
qed

section \<open>A kernel with one file\<close>

text \<open>Its state is the lines to be read on descriptor 0, the file, and the output.\<close>

definition file_os :: "(string list \<times> string \<times> string) os" where
  "file_os = null_os\<lparr>
     os_open := (\<lambda>p fl (ls, f, o1). (Inr 3, (ls, if O_TRUNC \<in> set fl then [] else f, o1))),
     os_read := (\<lambda>fd n (ls, f, o1).
        if fd = 0 then case ls of [] \<Rightarrow> (Inr [], (ls, f, o1)) | l # r \<Rightarrow> (Inr (take n l), (if length l \<le> n then r else drop n l # r, f, o1))
        else (Inr (take n f), (ls, drop n f, o1))),
     os_write := (\<lambda>fd s (ls, f, o1). (Inr (length s), if fd = 1 then (ls, f, o1 @ s) else (ls, f @ s, o1)))\<rparr>"

lemma file_laws:
  "line_reads file_os n fst" "read_keeps file_os 0 (fst \<circ> snd)" "writes_all file_os 3 (fst \<circ> snd)"
  "write_keeps file_os fd fst" "write_keeps file_os 1 (fst \<circ> snd)"
  "reads_from file_os 3 (fst \<circ> snd)" "read_keeps file_os fd (snd \<circ> snd)" "writes_all file_os 1 (snd \<circ> snd)"
  by (auto simp: file_os_def line_reads_def read_keeps_def writes_all_def write_keeps_def reads_from_def
      split: list.split)

section \<open>Properties\<close>

text \<open>Property C14.
  \<^verbatim>\<open>get\<close> sends the whole file: when the file can be opened and read and the client takes the
  output, it returns 0 and has sent one line of Base64 per block of at most 3072 bytes, the
  blocks making up the file in order, and then the line with the dot.\<close>

theorem get_sends_file:
  assumes "os_open os path [O_RDONLY] w = (Inr fd, w1)"
    "reads_from os fd inp" "read_keeps os fd outv" "writes_all os 1 outv" "write_keeps os 1 inp"
    "\<And>v. outv (os_close os fd v) = outv v"
  shows "\<exists>blocks w2. cmd_get os [''get'', path] w = Some (0, w2) \<and> chars_of (concat blocks) = inp w1
    \<and> (\<forall>b\<in>set blocks. b \<noteq> [] \<and> length b \<le> 3072)
    \<and> outv w2 = outv w1 @ concat (transfer_lines b64_enc blocks)"
proof -
  obtain w3 blocks where g: "get_loop os fd w1 = Some w3" "concat blocks = bytes_of (inp w1)"
    "\<forall>b\<in>set blocks. b \<noteq> [] \<and> length b \<le> 3072"
    "outv w3 = outv w1 @ concat (map (\<lambda>b. b64_enc b @ ''\<newline>'') blocks)"
    using get_loop_blocks [OF assms(2-5)] by blast
  obtain w4 where "os_write os 1 ''.\<newline>'' w3 = (Inr (length ''.\<newline>''), w4)" "outv w4 = outv w3 @ ''.\<newline>''"
    using writes_allE [OF assms(4)] by blast
  with g assms(1,6) show ?thesis
    by (intro exI [of _ blocks]) (simp add: cmd_get_def transfer_lines_def)
qed

theorem get_sends_file_witness:
  "\<exists>blocks w2. cmd_get file_os [''get'', ''/data/f''] ([], ''hello'', []) = Some (0, w2)
    \<and> chars_of (concat blocks) = ''hello'' \<and> snd (snd w2) = concat (transfer_lines b64_enc blocks)"
proof -
  have "os_open file_os ''/data/f'' [O_RDONLY] ([], ''hello'', []) = (Inr 3, ([], ''hello'', []))"
    by (simp add: file_os_def)
  from get_sends_file [OF this file_laws(6) file_laws(7) file_laws(8)] file_laws(5) show ?thesis
    by (auto simp: file_os_def null_os_def)
qed



text \<open>Property C12.
  \<^verbatim>\<open>put\<close> stores what was sent: when the client sends a file as lines of blocks of at most 3069
  bytes and the dot, one line at a time, the destination holds exactly the file at the end.
  With \<^verbatim>\<open>get\<close> this makes the transfer a round trip for such blocks.\<close>

theorem put_stores_file:
  assumes "os_open os path [O_WRONLY, O_CREAT, O_TRUNC] w = (Inr fd, w1)" "filev w1 = []"
    "lv w1 = transfer_lines b64_enc blocks" "\<forall>b\<in>set blocks. length b \<le> 3069"
    "line_reads os 4095 lv" "read_keeps os 0 filev" "writes_all os fd filev" "write_keeps os fd lv"
    "write_keeps os 1 filev" "write_keeps os 1 lv" "\<And>v. filev (os_close os fd v) = filev v"
  shows "\<exists>w2. cmd_put os [''put'', path] w = Some (0, w2) \<and> filev w2 = chars_of (concat blocks)"
proof -
  let ?w = "out os ''.\<newline>'' w1"
  have "filev ?w = []" "lv ?w = transfer_lines b64_enc blocks"
    using assms(2,3) out_keeps [OF assms(9)] out_keeps [OF assms(10)] by simp_all
  with put_loop_receive [OF assms(5-9), of ?w] transfer_lines_fit [OF assms(4)] b64.receive_transfer
  obtain w3 where "put_loop os fd ?w = Some w3" "filev w3 = chars_of (concat blocks)" by auto
  with assms(1,11) show ?thesis by (simp add: cmd_put_def)
qed

theorem put_stores_file_witness:
  "\<exists>w2. cmd_put file_os [''put'', ''/data/f''] (transfer_lines b64_enc [[104, 105], [33]], ''old'', []) = Some (0, w2)
    \<and> fst (snd w2) = ''hi!''"
proof -
  have o: "os_open file_os ''/data/f'' [O_WRONLY, O_CREAT, O_TRUNC] (ls, ''old'', []) = (Inr 3, (ls, [], []))" for ls
    by (simp add: file_os_def)
  have "chars_of (concat [[104, 105], [33]]) = ''hi!''" by code_simp
  moreover have "\<exists>w2. cmd_put file_os [''put'', ''/data/f''] (transfer_lines b64_enc [[104, 105], [33]], ''old'', []) = Some (0, w2)
    \<and> (fst \<circ> snd) w2 = chars_of (concat [[104, 105], [33]])"
    by (rule put_stores_file [OF o _ _ _ file_laws(1-4) file_laws(5) file_laws(4)])
      (simp_all add: file_os_def null_os_def)
  ultimately show ?thesis by simp
qed

text \<open>Property C35.
  \<^verbatim>\<open>put\<close> does not accept the full blocks that \<^verbatim>\<open>get\<close> sends: the line of a block of 3070 to 3072 bytes has
  4096 characters, of which a read returns at most 4095, and these are not a multiple of four.
  The transfer then ends with a decode error, nothing stored, and the return value 0.\<close>

theorem put_rejects_full_block:
  assumes "os_open os path [O_WRONLY, O_CREAT, O_TRUNC] w = (Inr fd, w1)"
    "3070 \<le> length b" "length b \<le> 3072"
    "os_read os 0 4095 (out os ''.\<newline>'' w1) = (Inr (take 4095 (concat (transfer_lines b64_enc (b # bs)))), w2)"
  shows "cmd_put os [''put'', path] w = Some (0, os_close os fd (out os ''decode error\<newline>'' w2))"
proof -
  let ?l = "take 4095 (b64_enc b)"
  have n: "length (b64_enc b) = 4096"
  proof -
    have "(length b + 2) div 3 = 1024" using assms(2,3) by presburger
    then show ?thesis by (simp add: length_b64_enc)
  qed
  have t: "take 4095 (concat (transfer_lines b64_enc (b # bs))) = ?l" using n by (simp add: transfer_lines_def)
  have "CHR 0x0A \<notin> set ?l" "CHR 0x00 \<notin> set ?l" using b64.enc_line [of b] by (auto dest: in_set_takeD)
  then have p: "put_line ?l = ?l" by (simp add: put_line_def c_str_id takeWhile_eq_all_conv) blast
  have d: "b64_decode_block ?l (length ?l) = None" using n by (simp add: b64_decode_block_def)
  have e: "?l \<noteq> []" "?l \<noteq> ''.''" using n by (auto dest: arg_cong [of _ _ length])
  have "put_loop os fd (out os ''.\<newline>'' w1) = Some (out os ''decode error\<newline>'' w2)"
    by (subst put_loop.simps) (simp only: assms(4) t p d e prod.case sum.case if_False option.case simp_thms)
  then show ?thesis using assms(1) by (simp add: cmd_put_def)
qed

theorem put_rejects_full_block_witness:
  "\<exists>w2. cmd_put file_os [''put'', ''/data/f''] ([concat (transfer_lines b64_enc [replicate 3072 0])], [], []) = Some (0, w2)
    \<and> fst (snd w2) = []"
proof -
  let ?l = "concat (transfer_lines b64_enc [replicate 3072 0])"
  have o: "os_open file_os ''/data/f'' [O_WRONLY, O_CREAT, O_TRUNC] ([?l], [], []) = (Inr 3, ([?l], [], []))"
    by (simp add: file_os_def)
  have u: "out file_os s (ls, f, o1) = (ls, f, o1 @ dprintf_bytes s)" for s ls f o1
    by (simp add: out_def dprintf_def file_os_def)
  obtain w2 where r: "os_read file_os 0 4095 (out file_os ''.\<newline>'' ([?l], [], [])) = (Inr (take 4095 ?l), w2)"
    "fst (snd w2) = []" unfolding u by (simp add: file_os_def)
  from put_rejects_full_block [OF o _ _ r(1)] r(2) u show ?thesis
    by (cases w2) (simp add: file_os_def null_os_def)
qed

end
