(* ===== verification/Server.thy ===== *)
theory Server
  imports Trace
begin

text \<open>
  The listener of \<^verbatim>\<open>src/sshsvr.c\<close>: the pidfile, the replacement of an earlier instance, the
  listening socket with its retries, the accept loop and \<^verbatim>\<open>main\<close>.

  A FILE stream of the pidfile is opened, filled or drained by one \<^verbatim>\<open>read\<close> or \<^verbatim>\<open>write\<close>, and
  closed. The flag \<^verbatim>\<open>g_running\<close> is cleared by a signal handler, so every test of it asks
  the kernel whether a signal has arrived (\<open>os_term_signal\<close>). The session that runs in the
  child of an accepted connection is an argument here; it is \<^verbatim>\<open>session_handle\<close> of the theory
  \<open>Session\<close>.
\<close>

section \<open>The pidfile\<close>

definition SSHSVR_PIDFILE :: string where "SSHSVR_PIDFILE = ''/data/tmp/sshsvr.pid''"

definition SSHSVR_DEFAULT_PORT :: int where "SSHSVR_DEFAULT_PORT = 2222"

text \<open>\<^verbatim>\<open>dirname\<close> of a path that does not end in a slash.\<close>

definition c_dirname :: "string \<Rightarrow> string" where
  "c_dirname path =
     (if CHR ''/'' \<notin> set path then ''.''
      else let d = rev (tl (dropWhile (\<lambda>c. c \<noteq> CHR ''/'') (rev path))) in if d = [] then ''/'' else d)"

definition write_pidfile :: "'w os \<Rightarrow> int \<Rightarrow> 'w \<Rightarrow> int \<times> 'w" where
  "write_pidfile os pid w =
     (let d = c_dirname SSHSVR_PIDFILE;
          w1 = (if d \<noteq> [] \<and> d \<noteq> ''.'' \<and> d \<noteq> ''/'' then snd (os_mkdir os d w) else w)
      in case os_open os SSHSVR_PIDFILE [O_WRONLY, O_CREAT, O_TRUNC] w1 of
           (Inl e, w2) \<Rightarrow> (- 1, w2)
         | (Inr fd, w2) \<Rightarrow> (0, os_close os fd (snd (os_write os fd (show_int pid @ ''\<newline>'') w2))))"

definition remove_pidfile :: "'w os \<Rightarrow> 'w \<Rightarrow> 'w" where
  "remove_pidfile os w = snd (os_unlink os SSHSVR_PIDFILE w)"

text \<open>\<^verbatim>\<open>fscanf(f, "%d", &pid)\<close> on a stream; \<open>None\<close> is a result other than 1.\<close>

definition fscanf_pid :: "'w os \<Rightarrow> int \<Rightarrow> 'w \<Rightarrow> int option \<times> 'w" where
  "fscanf_pid os fd w =
     (case os_read os fd 1024 w of
        (Inl e, w1) \<Rightarrow> (None, w1)
      | (Inr s, w1) \<Rightarrow> (map_option fst (c_scanf_d s), w1))"

text \<open>\<open>None\<close> is the return value \<^verbatim>\<open>-1\<close>.\<close>

definition read_pidfile :: "'w os \<Rightarrow> 'w \<Rightarrow> int option \<times> 'w" where
  "read_pidfile os w =
     (case os_open os SSHSVR_PIDFILE [O_RDONLY] w of
        (Inl e, w1) \<Rightarrow> (None, w1)
      | (Inr fd, w1) \<Rightarrow>
          (case fscanf_pid os fd w1 of
             (None, w2) \<Rightarrow> (None, os_close os fd w2)
           | (Some pid, w2) \<Rightarrow> (if pid \<le> 1 then None else Some pid, os_close os fd w2)))"

section \<open>One instance\<close>

fun kill_named :: "'w os \<Rightarrow> string \<Rightarrow> int \<Rightarrow> kinfo_proc list \<Rightarrow> int \<Rightarrow> 'w \<Rightarrow> int \<times> 'w" where
  "kill_named os name self [] killed w = (killed, w)"
| "kill_named os name self (p # ps) killed w =
     (if ki_pid p = self then kill_named os name self ps killed w
      else if ki_comm p = name
      then kill_named os name self ps (killed + 1) (snd (os_kill os (ki_pid p) SIGTERM w))
      else kill_named os name self ps killed w)"

definition kill_processes_named :: "'w os \<Rightarrow> string \<Rightarrow> int \<Rightarrow> 'w \<Rightarrow> int \<times> 'w" where
  "kill_processes_named os name self w =
     (case os_sysctl_size os w of
        (Inl e, w1) \<Rightarrow> (0, w1)
      | (Inr len, w1) \<Rightarrow>
          if \<not> os_malloc_ok os len w1 then (0, w1)
          else case os_sysctl_procs os len w1 of
                 (Inl e, w2) \<Rightarrow> (0, w2)
               | (Inr ps, w2) \<Rightarrow> kill_named os name self ps 0 w2)"

text \<open>The loop that waits for the old instance, with the probes left.\<close>

fun await_stop :: "'w os \<Rightarrow> int \<Rightarrow> nat \<Rightarrow> 'w \<Rightarrow> 'w" where
  "await_stop os pid 0 w = w"
| "await_stop os pid (Suc n) w =
     (case os_kill os pid 0 w of
        (Some e, w1) \<Rightarrow> os_klog os ''old instance stopped\<newline>'' w1
      | (None, w1) \<Rightarrow> await_stop os pid n (os_usleep os 10000 w1))"

text \<open>The part of \<^verbatim>\<open>ensure_single_instance\<close> that terminates a live instance.\<close>

definition replace_instance :: "'w os \<Rightarrow> int \<Rightarrow> 'w \<Rightarrow> int \<times> 'w" where
  "replace_instance os oldpid w =
     (let w3 = os_klog os (''sshsvr: terminating existing instance pid='' @ show_int oldpid @ ''\<newline>'') w;
          w4 = snd (os_kill os oldpid SIGTERM w3);
          w5 = await_stop os oldpid 200 w4
      in case os_kill os oldpid 0 w5 of
           (None, w6) \<Rightarrow> (- 1, os_klog os ''warning: old instance still alive\<newline>'' w6)
         | (Some e, w6) \<Rightarrow> (0, os_usleep os 150000 (remove_pidfile os w6)))"

definition ensure_single_instance :: "'w os \<Rightarrow> bool \<Rightarrow> 'w \<Rightarrow> int \<times> 'w" where
  "ensure_single_instance os force w =
     (case read_pidfile os w of
        (None, w1) \<Rightarrow>
          if force then
            (let (k, w2) = kill_processes_named os ''sshsvr'' (os_getpid os w1) w1
             in if k > 0
                then (0, os_usleep os 200000 (os_klog os (''sshsvr: terminated '' @ show_int k
                            @ '' existing instance(s) (no pidfile)\<newline>'') w2))
                else (0, w2))
          else (0, w1)
      | (Some oldpid, w1) \<Rightarrow>
          (case os_kill os oldpid 0 w1 of
             (Some e, w2) \<Rightarrow> (0, remove_pidfile os w2)
           | (None, w2) \<Rightarrow>
               if \<not> force
               then (- 1, os_klog os (''sshsvr already running (pid='' @ show_int oldpid @ ''). Use -F to replace.\<newline>'') w2)
               else replace_instance os oldpid w2))"

section \<open>The listening socket\<close>

definition create_listener :: "'w os \<Rightarrow> nat \<Rightarrow> 'w \<Rightarrow> (errno + int) \<times> 'w" where
  "create_listener os port w =
     (case os_socket os w of
        (Inl e, w1) \<Rightarrow> (Inl e, os_klog_perror os ''socket'' w1)
      | (Inr fd, w1) \<Rightarrow>
          (case os_bind os fd port (os_reuseaddr os fd w1) of
             (Some e, w2) \<Rightarrow> (Inl e, os_close os fd (os_klog_perror os ''bind'' w2))
           | (None, w2) \<Rightarrow>
               (case os_listen os fd 8 w2 of
                  (Some e, w3) \<Rightarrow> (Inl e, os_close os fd (os_klog_perror os ''listen'' w3))
                | (None, w3) \<Rightarrow> (Inr fd, w3))))"

text \<open>The attempts left are a counter; \<open>None\<close> is a negative descriptor.\<close>

fun bind_attempts :: "'w os \<Rightarrow> nat \<Rightarrow> bool \<Rightarrow> nat \<Rightarrow> 'w \<Rightarrow> int option \<times> 'w" where
  "bind_attempts os port force 0 w = (None, w)"
| "bind_attempts os port force (Suc n) w =
     (case create_listener os port w of
        (Inr lfd, w1) \<Rightarrow> (Some lfd, w1)
      | (Inl e, w1) \<Rightarrow>
          if e = EADDRINUSE \<and> force
          then bind_attempts os port force n
                 (os_usleep os 100000 (snd (kill_processes_named os ''sshsvr'' (os_getpid os w1) w1)))
          else (None, w1))"

definition bind_with_retry :: "'w os \<Rightarrow> nat \<Rightarrow> bool \<Rightarrow> 'w \<Rightarrow> int option \<times> 'w" where
  "bind_with_retry os port force w = bind_attempts os port force 30 w"

section \<open>The accept loop\<close>

type_synonym 'w session = "int \<Rightarrow> string \<Rightarrow> int \<Rightarrow> 'w \<Rightarrow> (unit outcome \<times> 'w) option"

text \<open>What the child of a connection does once the session has returned.\<close>

fun end_session :: "'w os \<Rightarrow> int \<Rightarrow> unit outcome \<times> 'w \<Rightarrow> unit outcome \<times> 'w" where
  "end_session os cfd (Ret u, w) = (Exit 0, os_close os cfd w)"
| "end_session os cfd (Exit n, w) = (Exit n, w)"
| "end_session os cfd (Execed, w) = (Execed, w)"
| "end_session os cfd (Crashed, w) = (Crashed, w)"

partial_function (option) accept_loop ::
    "'w os \<Rightarrow> 'w session \<Rightarrow> int \<Rightarrow> int \<Rightarrow> 'w \<Rightarrow> (unit outcome \<times> 'w) option" where
  "accept_loop os session lfd lpid w =
     (case os_term_signal os w of
        (stop, w1) \<Rightarrow>
          if stop then Some (Ret (), w1)
          else
            (case os_accept os lfd w1 of
               (Inl e, w2) \<Rightarrow>
                 (case os_term_signal os w2 of
                    (stop2, w3) \<Rightarrow>
                      if stop2 then Some (Ret (), w3)
                      else accept_loop os session lfd lpid (os_klog_perror os ''accept'' w3))
             | (Inr c, w2) \<Rightarrow>
                 (case os_fork os (os_klog os (''connection from '' @ snd c @ ''\<newline>'') w2) of
                    (Inl e, w3) \<Rightarrow> accept_loop os session lfd lpid (os_close os (fst c) w3)
                  | (Inr child, w3) \<Rightarrow>
                      if child = 0
                      then map_option (end_session os (fst c)) (session (fst c) (snd c) lpid (os_close os lfd w3))
                      else accept_loop os session lfd lpid (os_close os (fst c) w3))))"

declare accept_loop.simps [code]

text \<open>What follows the fork of a daemon in its child: the terminal is let go, the pidfile written.\<close>

definition daemon_child :: "'w os \<Rightarrow> 'w \<Rightarrow> int \<times> 'w" where
  "daemon_child os w =
     (let w1 = os_setsid os w;
          w2 = (case os_open os ''/dev/null'' [O_RDWR] w1 of
                  (Inl e, w2) \<Rightarrow> w2
                | (Inr fd, w2) \<Rightarrow>
                    (let w3 = os_dup2 os fd 2 (os_dup2 os fd 1 (os_dup2 os fd 0 w2))
                     in if fd > 2 then os_close os fd w3 else w3));
          lpid = os_getpid os w2;
          (r, w3) = write_pidfile os lpid w2
      in (lpid, if r < 0 then os_klog os ''warn: cannot write pid file\<newline>'' w3 else w3))"

definition listening_msg :: "nat \<Rightarrow> int \<Rightarrow> string" where
  "listening_msg port lpid =
     ''sshsvr listening on port '' @ show_nat port @ '' (pid='' @ show_int lpid @ '')\<newline>''"

text \<open>From the signal handlers to the end of \<^verbatim>\<open>sshsvr_run\<close>.\<close>

definition serve :: "'w os \<Rightarrow> 'w session \<Rightarrow> nat \<Rightarrow> bool \<Rightarrow> bool \<Rightarrow> int \<Rightarrow> 'w \<Rightarrow> (unit outcome \<times> 'w) option" where
  "serve os session port daemonize force lpid w =
     (let w1 = os_sigaction os 2 (os_sigaction os SIGTERM w)
      in case bind_with_retry os port force w1 of
           (None, w2) \<Rightarrow>
             (let w3 = os_klog_perror os ''bind'' w2
              in Some (Ret (), if daemonize then remove_pidfile os w3 else w3))
         | (Some lfd, w2) \<Rightarrow>
             (let w3 = os_klog os (listening_msg port lpid) w2;
                  w4 = os_klog os ''pid written'' (snd (write_pidfile os lpid w3))
              in do {
                (r, w5) \<leftarrow> accept_loop os session lfd lpid w4;
                Some (case r of
                        Ret u \<Rightarrow>
                          (let w6 = os_close os lfd w5;
                               w7 = (if daemonize then remove_pidfile os w6 else w6)
                           in (Ret (), os_klog os ''sshsvr shutting down\<newline>'' w7))
                      | _ \<Rightarrow> (r, w5))
              }))"

definition sshsvr_run :: "'w os \<Rightarrow> 'w session \<Rightarrow> nat \<Rightarrow> bool \<Rightarrow> bool \<Rightarrow> 'w \<Rightarrow> (unit outcome \<times> 'w) option" where
  "sshsvr_run os session port daemonize force w =
     (case ensure_single_instance os force w of
        (rc, w1) \<Rightarrow>
          if rc < 0 then Some (Ret (), w1)
          else
            (let w2 = snd (os_set_name os ''sshsvr'' w1) in
             if daemonize then
               (case os_fork os w2 of
                  (Inl e, w3) \<Rightarrow> Some (Ret (), os_klog_perror os ''fork'' w3)
                | (Inr pid, w3) \<Rightarrow>
                    if pid > 0 then Some (Ret (), w3)
                    else (case daemon_child os w3 of (lpid, w4) \<Rightarrow> serve os session port True force lpid w4))
             else serve os session port False force (os_getpid os w2) w2))"

section \<open>The program\<close>

text \<open>The options: port, daemonize, force; \<open>None\<close> where the help is asked for.\<close>

fun main_args :: "string list \<Rightarrow> int \<Rightarrow> bool \<Rightarrow> bool \<Rightarrow> (int \<times> bool \<times> bool) option" where
  "main_args [] port d f = Some (port, d, f)"
| "main_args (a # as) port d f =
     (if a = ''-p'' \<and> as \<noteq> [] then main_args (tl as) (c_atoi (hd as)) d f
      else if a = ''-d'' then main_args as port True f
      else if a = ''-F'' then main_args as port d True
      else if a = ''-h'' \<or> a = ''--help'' then None
      else main_args as port d f)"

definition usage :: "'w os \<Rightarrow> string \<Rightarrow> 'w \<Rightarrow> 'w" where
  "usage os prog w =
     out os (''Usage: '' @ prog @ '' [-p port] [-d] [-F]\<newline>  -p <port>  listen port (default ''
             @ show_int SSHSVR_DEFAULT_PORT
             @ '')\<newline>  -d         daemonize\<newline>  -F         force replace existing instance\<newline>'') w"

text \<open>The conversion to \<^verbatim>\<open>uint16_t\<close>.\<close>

definition to_uint16 :: "int \<Rightarrow> nat" where
  "to_uint16 n = nat (n mod 65536)"

definition main_force :: "'w os \<Rightarrow> bool \<Rightarrow> 'w \<Rightarrow> bool \<times> 'w" where
  "main_force os force w =
     (if force then (True, w)
      else case os_access os SSHSVR_PIDFILE w of (r, w1) \<Rightarrow> (r = None, w1))"

definition sshsvr_main :: "'w os \<Rightarrow> 'w session \<Rightarrow> string list \<Rightarrow> 'w \<Rightarrow> (int outcome \<times> 'w) option" where
  "sshsvr_main os session av w =
     (case main_args (tl av) SSHSVR_DEFAULT_PORT False False of
        None \<Rightarrow> Some (Ret 0, usage os (hd av) w)
      | Some (port, daemonize, force) \<Rightarrow>
          (case main_force os force w of
             (force1, w1) \<Rightarrow>
               map_option (\<lambda>(r, w3). (map_outcome (\<lambda>_. 0) r, w3))
                 (sshsvr_run os session (to_uint16 port) daemonize force1
                    (os_setenv os ''SSHSVR_PORT'' (show_int port) w1))))"

section \<open>The signals that are sent\<close>

text \<open>The signals among the events of a trace, and the events on the pidfile.\<close>

fun is_kill :: "event \<Rightarrow> bool" where
  "is_kill (Ev_Kill p s) = True"
| "is_kill e = False"

definition kills :: "event list \<Rightarrow> event list" where
  "kills es = filter is_kill es"

lemma kills_simps [simp]:
  "kills [] = []" "kills (as @ bs) = kills as @ kills bs" "kills (Ev_Kill p s # es) = Ev_Kill p s # kills es"
  "kills (Ev_Open f fl # es) = kills es" "kills (Ev_Close fd # es) = kills es" "kills (Ev_Unlink f # es) = kills es"
  "kills (replicate n (Ev_Kill p s)) = replicate n (Ev_Kill p s)"
  "kills (map (\<lambda>p. Ev_Kill p s) ps) = map (\<lambda>p. Ev_Kill p s) ps"
  by (simp_all add: kills_def filter_map o_def)

text \<open>The process table, as the kernel reports it: the other processes of a name.\<close>

definition other_instances :: "'w os \<Rightarrow> string \<Rightarrow> int \<Rightarrow> 'w \<Rightarrow> int list" where
  "other_instances os name self w =
     (case os_sysctl_size os w of
        (Inl e, w1) \<Rightarrow> []
      | (Inr len, w1) \<Rightarrow>
          if \<not> os_malloc_ok os len w1 then []
          else case fst (os_sysctl_procs os len w1) of
                 Inl e \<Rightarrow> []
               | Inr ps \<Rightarrow> filter (\<lambda>p. p \<noteq> self) (map ki_pid (filter (\<lambda>q. ki_comm q = name) ps)))"

definition pidfile_events :: "event set" where
  "pidfile_events = {Ev_Open SSHSVR_PIDFILE [O_RDONLY], Ev_Unlink SSHSVR_PIDFILE} \<union> range Ev_Close \<union> Collect is_kill"

text \<open>Runs on the traced kernel: the result and the world of the run on the kernel, and what was called.\<close>

lemma read_pidfile_logged:
  "\<exists>es. read_pidfile (logged os) (Traced w l) = (fst (read_pidfile os w), Traced (snd (read_pidfile os w)) (l @ es))
    \<and> kills es = [] \<and> set es \<subseteq> pidfile_events"
  unfolding read_pidfile_def fscanf_pid_def
  by (simp add: logged_fields tr_def ts_def pidfile_events_def split: prod.split sum.split option.split)

lemma kill_named_logged:
  "kill_named (logged os) name self ps k (Traced w l) = (fst (kill_named os name self ps k w),
     Traced (snd (kill_named os name self ps k w))
       (l @ map (\<lambda>p. Ev_Kill p SIGTERM) (filter (\<lambda>p. p \<noteq> self) (map ki_pid (filter (\<lambda>q. ki_comm q = name) ps)))))"
  by (induction ps arbitrary: k w l) (simp_all add: logged_fields tr_def)

lemma kill_processes_named_logged:
  "kill_processes_named (logged os) name self (Traced w l) = (fst (kill_processes_named os name self w),
     Traced (snd (kill_processes_named os name self w)) (l @ map (\<lambda>p. Ev_Kill p SIGTERM) (other_instances os name self w)))"
proof -
  have f: "os_sysctl_size (logged os) = tr [] (os_sysctl_size os)" "os_malloc_ok (logged os) n wl = os_malloc_ok os n (world wl)"
    "os_sysctl_procs (logged os) n = tr [] (os_sysctl_procs os n)" for n wl by (simp_all add: logged_def)
  show ?thesis unfolding kill_processes_named_def other_instances_def
    by (simp add: f tr_def kill_named_logged split: prod.split sum.split)
qed

lemma await_stop_logged:
  "\<exists>k. await_stop (logged os) p n (Traced w l) = Traced (await_stop os p n w) (l @ replicate k (Ev_Kill p 0))
     \<and> k \<le> n \<and> (0 < n \<longrightarrow> 0 < k)"
proof (induction n arbitrary: w l)
  case (Suc n)
  obtain r w1 where k: "os_kill os p 0 w = (r, w1)" by fastforce
  have f: "os_usleep (logged os) t = ts [] (os_usleep os t)" "os_klog (logged os) s = ts [] (os_klog os s)" for t s
    by (simp_all add: logged_def)
  show ?case
  proof (cases r)
    case None
    obtain j where j: "await_stop (logged os) p n (Traced (os_usleep os 10000 w1) (l @ [Ev_Kill p 0])) =
        Traced (await_stop os p n (os_usleep os 10000 w1)) ((l @ [Ev_Kill p 0]) @ replicate j (Ev_Kill p 0))" "j \<le> n"
      using Suc by blast
    with None k show ?thesis by (auto simp: logged_fields f tr_def ts_def intro!: exI [of _ "Suc j"])
  next
    case (Some e)
    with k show ?thesis by (auto simp: logged_fields f tr_def ts_def intro!: exI [of _ "Suc 0"])
  qed
qed simp

lemma replace_instance_logged:
  "\<exists>k. kills (events (snd (replace_instance (logged os) p (Traced w l)))) =
        kills l @ Ev_Kill p SIGTERM # replicate k (Ev_Kill p 0)
     \<and> 2 \<le> k \<and> k \<le> 201 \<and> set (events (snd (replace_instance (logged os) p (Traced w l)))) \<subseteq> set l \<union> pidfile_events"
proof -
  let ?s = "''sshsvr: terminating existing instance pid='' @ show_int p @ ''\<newline>''"
  let ?w = "snd (os_kill os p SIGTERM (os_klog os ?s w))"
  obtain k where k: "await_stop (logged os) p 200 (Traced ?w (l @ [Ev_Kill p SIGTERM])) =
      Traced (await_stop os p 200 ?w) ((l @ [Ev_Kill p SIGTERM]) @ replicate k (Ev_Kill p 0))" "k \<le> 200" "0 < k"
    using await_stop_logged [of os p 200 ?w "l @ [Ev_Kill p SIGTERM]"] by auto
  have f: "os_usleep (logged os) t = ts [] (os_usleep os t)" "os_klog (logged os) s = ts [] (os_klog os s)"
    "os_unlink (logged os) q = tr [Ev_Unlink q] (os_unlink os q)" for t s q
    by (simp_all add: logged_def)
  have e: "\<exists>es. events (snd (replace_instance (logged os) p (Traced w l))) =
     (l @ [Ev_Kill p SIGTERM]) @ replicate k (Ev_Kill p 0) @ [Ev_Kill p 0] @ es \<and> es \<in> {[], [Ev_Unlink SSHSVR_PIDFILE]}"
    unfolding replace_instance_def remove_pidfile_def Let_def
    by (simp add: f logged_fields tr_def ts_def k(1) [simplified] split: prod.split option.split)
  then have "kills (events (snd (replace_instance (logged os) p (Traced w l)))) =
      kills l @ Ev_Kill p SIGTERM # replicate (Suc k) (Ev_Kill p 0)"
    by (auto simp: replicate_app_Cons_same)
  moreover have "set (events (snd (replace_instance (logged os) p (Traced w l)))) \<subseteq> set l \<union> pidfile_events"
    using e by (auto simp: pidfile_events_def)
  ultimately show ?thesis using k(2,3) by (intro exI [of _ "Suc k"]) simp
qed

lemma read_pidfile_positive: "read_pidfile os w = (Some p, w1) \<Longrightarrow> 1 < p"
  by (auto simp: read_pidfile_def split: prod.splits sum.splits option.splits if_splits)

section \<open>The pidfile interface\<close>

text \<open>What is documented of files, for the pidfile: \<open>v\<close> is its content, if it exists.\<close>

definition pidfile_readable :: "'w os \<Rightarrow> ('w \<Rightarrow> string option) \<Rightarrow> bool" where
  "pidfile_readable os v \<longleftrightarrow>
     (\<forall>w. case v w of
            None \<Rightarrow> \<exists>e w1. os_open os SSHSVR_PIDFILE [O_RDONLY] w = (Inl e, w1) \<and> v w1 = None
          | Some s \<Rightarrow> \<exists>fd w1 w2. os_open os SSHSVR_PIDFILE [O_RDONLY] w = (Inr fd, w1)
                        \<and> os_read os fd 1024 w1 = (Inr (take 1024 s), w2) \<and> v (os_close os fd w2) = Some s)"

definition pidfile_writable :: "'w os \<Rightarrow> ('w \<Rightarrow> string option) \<Rightarrow> bool" where
  "pidfile_writable os v \<longleftrightarrow>
     (\<forall>w. \<exists>fd w1. os_open os SSHSVR_PIDFILE [O_WRONLY, O_CREAT, O_TRUNC] w = (Inr fd, w1)
            \<and> (\<forall>s. v (os_close os fd (snd (os_write os fd s w1))) = Some s))"

text \<open>The program has two readers of the pidfile, with one contract.\<close>

locale pid_reader =
  fixes rp :: "'w os \<Rightarrow> 'w \<Rightarrow> int option \<times> 'w"
  assumes reads: "pidfile_readable os v \<Longrightarrow> v w = Some (show_int p @ ''\<newline>'') \<Longrightarrow> 1 < p \<Longrightarrow> p < 2 ^ 31
      \<Longrightarrow> \<exists>w1. rp os w = (Some p, w1) \<and> v w1 = v w"
    and absent: "pidfile_readable os v \<Longrightarrow> v w = None \<Longrightarrow> \<exists>w1. rp os w = (None, w1) \<and> v w1 = None"
    and positive: "rp os w = (Some p, w1) \<Longrightarrow> 1 < p"
begin

lemma write_read:
  assumes "pidfile_writable os v" "pidfile_readable os v" "1 < p" "p < 2 ^ 31"
  shows "\<exists>w1 w2. write_pidfile os p w = (0, w1) \<and> rp os w1 = (Some p, w2) \<and> v w2 = Some (show_int p @ ''\<newline>'')"
proof -
  define w0 where "w0 = snd (os_mkdir os (c_dirname SSHSVR_PIDFILE) w)"
  obtain fd w1 where o: "os_open os SSHSVR_PIDFILE [O_WRONLY, O_CREAT, O_TRUNC] w0 = (Inr fd, w1)"
    "\<And>s. v (os_close os fd (snd (os_write os fd s w1))) = Some s"
    using assms(1) unfolding pidfile_writable_def by metis
  have "write_pidfile os p w = (0, os_close os fd (snd (os_write os fd (show_int p @ ''\<newline>'') w1)))"
    using o(1) by (simp add: write_pidfile_def w0_def c_dirname_def SSHSVR_PIDFILE_def)
  with reads [OF assms(2) o(2) assms(3,4)] o(2) show ?thesis by auto
qed

end

lemma length_show_nat: "n < 10 ^ Suc k \<Longrightarrow> length (show_nat n) \<le> Suc k"
proof (induction k arbitrary: n)
  case (Suc k)
  then have "n div 10 < 10 ^ Suc k" by simp
  from Suc.IH [OF this] show ?case by (subst show_nat.simps) simp
qed (simp add: show_nat.simps)

lemma fscanf_pid_reads:
  assumes "os_read os fd 1024 w = (Inr (take 1024 (show_int p @ ''\<newline>'')), w1)" "1 < p" "p < 2 ^ 31"
  shows "fscanf_pid os fd w = (Some p, w1)"
proof -
  have "length (show_int p) \<le> 10" using length_show_nat [of "nat p" 9] assms by (simp add: show_int_def)
  moreover have "ends_number ''\<newline>''" by (simp add: ends_number_def c_isdigit_def)
  ultimately show ?thesis using assms by (simp add: fscanf_pid_def c_scanf_d_show_int)
qed

interpretation server_pid: pid_reader read_pidfile
proof unfold_locales
  fix os v w p
  assume a: "pidfile_readable os v" "v w = Some (show_int p @ ''\<newline>'')" "1 < p" "p < (2::int) ^ 31"
  obtain fd w1 w2 where o: "os_open os SSHSVR_PIDFILE [O_RDONLY] w = (Inr fd, w1)"
     "os_read os fd 1024 w1 = (Inr (take 1024 (show_int p @ ''\<newline>'')), w2)" "v (os_close os fd w2) = v w"
    using spec [OF a(1) [unfolded pidfile_readable_def], of w] a(2) by auto
  with fscanf_pid_reads [OF o(2) a(3,4)] a show "\<exists>w1. read_pidfile os w = (Some p, w1) \<and> v w1 = v w"
    by (simp add: read_pidfile_def)
next
  fix os v w
  assume "pidfile_readable os v" "v w = None"
  then show "\<exists>w1. read_pidfile os w = (None, w1) \<and> v w1 = None"
    by (auto simp: pidfile_readable_def read_pidfile_def dest!: spec [of _ w])
qed (rule read_pidfile_positive)

section \<open>A host\<close>

text \<open>
  A kernel with a pidfile and a process table: \<open>h_dying\<close> holds the processes that received
  SIGTERM, which are gone after the next sleep.
\<close>

record host =
  h_pidfile :: "string option"
  h_procs :: "kinfo_proc list"
  h_dying :: "int list"
  h_klog :: string

definition h_alive :: "host \<Rightarrow> int \<Rightarrow> bool" where
  "h_alive h p \<longleftrightarrow> p \<in> set (map ki_pid (h_procs h))"

definition ESRCH :: errno where "ESRCH = 3"
definition ENOENT :: errno where "ENOENT = 2"

definition host_os :: "host os" where
  "host_os = null_os\<lparr>
     os_open := (\<lambda>p fl h. if p \<noteq> SSHSVR_PIDFILE then (Inl ENOENT, h)
        else if O_TRUNC \<in> set fl then (Inr 4, h\<lparr>h_pidfile := Some []\<rparr>)
        else if h_pidfile h = None then (Inl ENOENT, h) else (Inr 3, h)),
     os_read := (\<lambda>fd n h. case h_pidfile h of None \<Rightarrow> (Inr [], h) | Some s \<Rightarrow> (Inr (take n s), h)),
     os_write := (\<lambda>fd s h. (Inr (length s), if fd = 4 then h\<lparr>h_pidfile := Some s\<rparr> else h)),
     os_unlink := (\<lambda>p h. if p = SSHSVR_PIDFILE then (None, h\<lparr>h_pidfile := None\<rparr>) else (Some ENOENT, h)),
     os_access := (\<lambda>p h. (if p = SSHSVR_PIDFILE \<and> h_pidfile h \<noteq> None then None else Some ENOENT, h)),
     os_kill := (\<lambda>p s h. if \<not> h_alive h p then (Some ESRCH, h)
        else (None, if s = SIGTERM then h\<lparr>h_dying := p # h_dying h\<rparr> else h)),
     os_usleep := (\<lambda>n h. h\<lparr>h_procs := filter (\<lambda>q. ki_pid q \<notin> set (h_dying h)) (h_procs h)\<rparr>),
     os_sysctl_size := (\<lambda>h. (Inr 4096, h)), os_sysctl_procs := (\<lambda>n h. (Inr (h_procs h), h)),
     os_socket := (\<lambda>h. (Inr 5, h)), os_bind := (\<lambda>fd p h. (None, h)), os_listen := (\<lambda>fd n h. (None, h)),
     os_term_signal := (\<lambda>h. (True, h)), os_klog := (\<lambda>s h. h\<lparr>h_klog := h_klog h @ s\<rparr>)\<rparr>"

lemma host_fields:
  "os_kill host_os p s h = (if \<not> h_alive h p then (Some ESRCH, h)
     else (None, if s = SIGTERM then h\<lparr>h_dying := p # h_dying h\<rparr> else h))"
  "os_usleep host_os n h = h\<lparr>h_procs := filter (\<lambda>q. ki_pid q \<notin> set (h_dying h)) (h_procs h)\<rparr>"
  by (simp_all add: host_os_def)

definition sshsvr_proc :: "int \<Rightarrow> kinfo_proc" where
  "sshsvr_proc p = \<lparr>ki_pid = p, ki_ppid = 1, ki_pgid = p, ki_sid = p, ki_uid = 0, ki_stat = 3, ki_comm = ''sshsvr''\<rparr>"

definition host1 :: host where
  "host1 = \<lparr>h_pidfile = Some ''77\<newline>'', h_procs = [sshsvr_proc 77], h_dying = [], h_klog = []\<rparr>"

lemma host_pidfile: "pidfile_readable host_os h_pidfile" "pidfile_writable host_os h_pidfile"
  by (auto simp: pidfile_readable_def pidfile_writable_def host_os_def null_os_def split: option.splits)

text \<open>What is documented of \<^verbatim>\<open>kill(pid, 0)\<close>, and that a process that is gone stays gone.\<close>

definition probes :: "'w os \<Rightarrow> ('w \<Rightarrow> int \<Rightarrow> bool) \<Rightarrow> bool" where
  "probes os alive \<longleftrightarrow>
     (\<forall>p w. (fst (os_kill os p 0 w) = None \<longleftrightarrow> alive w p) \<and> alive (snd (os_kill os p 0 w)) = alive w)"

definition stays_dead :: "'w os \<Rightarrow> ('w \<Rightarrow> int \<Rightarrow> bool) \<Rightarrow> bool" where
  "stays_dead os alive \<longleftrightarrow>
     (\<forall>p w. \<not> alive w p \<longrightarrow> (\<forall>f. \<not> alive (snd (os_unlink os f w)) p) \<and> (\<forall>n. \<not> alive (os_usleep os n w) p)
        \<and> (\<forall>s. \<not> alive (os_klog os s w) p))"

lemma host_probes: "probes host_os h_alive" "stays_dead host_os h_alive"
  by (auto simp: probes_def stays_dead_def host_os_def h_alive_def SIGTERM_def fun_eq_iff)

lemma probesD:
  assumes "probes os alive" "os_kill os p 0 w = (r, w1)"
  shows "r = None \<longleftrightarrow> alive w p" "alive w1 = alive w"
  using assms unfolding probes_def by (metis fst_conv, metis snd_conv)

lemma stays_deadD:
  assumes "stays_dead os alive" "\<not> alive w p"
  shows "\<not> alive (snd (os_unlink os f w)) p" "\<not> alive (os_usleep os n w) p" "\<not> alive (os_klog os s w) p"
  using assms unfolding stays_dead_def by blast+

lemma replace_instance_dead:
  assumes "probes os alive" "stays_dead os alive"
  shows "fst (replace_instance os old w) \<in> {0, - 1}
    \<and> (fst (replace_instance os old w) = 0 \<longrightarrow> \<not> alive (snd (replace_instance os old w)) old)"
proof -
  obtain r6 w6 where k6: "os_kill os old 0 (await_stop os old 200 (snd (os_kill os old SIGTERM
    (os_klog os (''sshsvr: terminating existing instance pid='' @ show_int old @ ''\<newline>'') w)))) = (r6, w6)" by fastforce
  have "\<not> alive w6 old" if "r6 = Some e" for e using probesD [OF assms(1) k6] that by simp
  then show ?thesis unfolding replace_instance_def Let_def k6 remove_pidfile_def
    using stays_deadD [OF assms(2)] by (cases r6) auto
qed

text \<open>The pidfile names the server: what \<^verbatim>\<open>write_pidfile\<close> stored is what \<^verbatim>\<open>read_pidfile\<close> then
  returns, for every process id that the program accepts.\<close>

theorem pidfile_roundtrip:
  assumes "pidfile_writable os v" "pidfile_readable os v" "1 < p" "p < 2 ^ 31"
  shows "\<exists>w1 w2. write_pidfile os p w = (0, w1) \<and> read_pidfile os w1 = (Some p, w2) \<and> v w2 = Some (show_int p @ ''\<newline>'')"
  by (rule server_pid.write_read [OF assms])

theorem pidfile_roundtrip_witness:
  "\<exists>w1 w2. write_pidfile host_os 4242 host1 = (0, w1) \<and> read_pidfile host_os w1 = (Some 4242, w2)
     \<and> h_pidfile w2 = Some (show_int 4242 @ ''\<newline>'')"
  by (rule pidfile_roundtrip [OF host_pidfile(2,1)]) simp_all

lemma single_instance_cases:
  assumes "probes os alive" "stays_dead os alive" "read_pidfile os w = (Some old, w1)"
  shows "\<exists>rc w2. ensure_single_instance os force w = (rc, w2) \<and> rc \<in> {0, - 1}
    \<and> (rc = 0 \<longrightarrow> \<not> alive w2 old) \<and> (\<not> force \<longrightarrow> (rc = - 1 \<longleftrightarrow> alive w1 old))"
proof -
  obtain r w2 where k: "os_kill os old 0 w1 = (r, w2)" by fastforce
  note p = probesD [OF assms(1) k]
  have "fst (replace_instance os old w2) \<in> {0, - 1}"
    "fst (replace_instance os old w2) = 0 \<Longrightarrow> \<not> alive (snd (replace_instance os old w2)) old"
    using replace_instance_dead [OF assms(1,2), of old w2] by simp_all
  then show ?thesis using assms(3) k p stays_deadD [OF assms(2)]
    by (cases r; cases "replace_instance os old w2") (auto simp: ensure_single_instance_def remove_pidfile_def)
qed

text \<open>Property C9.
  No second instance: when the pidfile names a process and \<^verbatim>\<open>ensure_single_instance\<close> lets the new server
  start (returns 0), that process is gone; a refusal (-1) without \<^verbatim>\<open>-F\<close> means that it was alive.
  The wait is bounded, so one of the two always happens.\<close>

theorem single_instance:
  assumes "probes os alive" "stays_dead os alive" "read_pidfile os w = (Some old, w1)"
  shows "\<exists>rc w2. ensure_single_instance os force w = (rc, w2) \<and> rc \<in> {0, - 1}
    \<and> (rc = 0 \<longrightarrow> \<not> alive w2 old) \<and> (\<not> force \<longrightarrow> (rc = - 1 \<longleftrightarrow> alive w1 old))"
  by (rule single_instance_cases [OF assms])

theorem single_instance_witness:
  "\<exists>rc w2. ensure_single_instance host_os True host1 = (rc, w2) \<and> rc \<in> {0, - 1}"
proof -
  have "read_pidfile host_os host1 = (Some 77, host1)" by code_simp
  from single_instance [OF host_probes this] show ?thesis by blast
qed

text \<open>Property C27.
  The signals of the replacement, exactly, whatever the pidfile holds and the kernel does. When the
  pidfile names a process, its id is greater than 1 (so a signal never goes to a process group or
  to every process), and every signal goes to that process: one probe, and with \<^verbatim>\<open>-F\<close> and when
  the probe finds it alive one SIGTERM followed by 2 to 201 probes. Without a readable pidfile nothing
  is sent unless \<^verbatim>\<open>-F\<close> is given; then SIGTERM is sent once to each other process named \<^verbatim>\<open>sshsvr\<close> of
  the process table, and to nothing else. Of the files only the pidfile is opened or removed.\<close>

theorem single_instance_signals:
  "set (events (snd (ensure_single_instance (logged os) force (Traced w [])))) \<subseteq> pidfile_events \<and>
   (case read_pidfile os w of
      (None, w1) \<Rightarrow>
        kills (events (snd (ensure_single_instance (logged os) force (Traced w [])))) =
          (if force then map (\<lambda>p. Ev_Kill p SIGTERM) (other_instances os ''sshsvr'' (os_getpid os w1) w1) else [])
    | (Some old, w1) \<Rightarrow> 1 < old \<and>
        (if force \<and> fst (os_kill os old 0 w1) = None
         then \<exists>n. 2 \<le> n \<and> n \<le> 201 \<and> kills (events (snd (ensure_single_instance (logged os) force (Traced w [])))) =
                Ev_Kill old 0 # Ev_Kill old SIGTERM # replicate n (Ev_Kill old 0)
         else kills (events (snd (ensure_single_instance (logged os) force (Traced w [])))) = [Ev_Kill old 0]))"
proof -
  obtain r w1 where p: "read_pidfile os w = (r, w1)" by fastforce
  obtain es where es: "read_pidfile (logged os) (Traced w []) = (r, Traced w1 es)" "kills es = []" "set es \<subseteq> pidfile_events"
    using read_pidfile_logged [of os w "[]"] p by auto
  have f: "os_usleep (logged os) t = ts [] (os_usleep os t)" "os_klog (logged os) s = ts [] (os_klog os s)"
    "os_unlink (logged os) q = tr [Ev_Unlink q] (os_unlink os q)" "os_getpid (logged os) wl = os_getpid os (world wl)" for t s q wl
    by (simp_all add: logged_def)
  show ?thesis
  proof (cases r)
    case None
    then show ?thesis using es p unfolding ensure_single_instance_def
      by (auto simp: f ts_def kill_processes_named_logged pidfile_events_def Let_def)
  next
    case (Some old)
    have "1 < old" using p Some by (auto dest: read_pidfile_positive)
    obtain a w2 where k: "os_kill os old 0 w1 = (a, w2)" by fastforce
    obtain n where n: "kills (events (snd (replace_instance (logged os) old (Traced w2 (es @ [Ev_Kill old 0]))))) =
        kills (es @ [Ev_Kill old 0]) @ Ev_Kill old SIGTERM # replicate n (Ev_Kill old 0)" "2 \<le> n" "n \<le> 201"
      "set (events (snd (replace_instance (logged os) old (Traced w2 (es @ [Ev_Kill old 0]))))) \<subseteq>
         set (es @ [Ev_Kill old 0]) \<union> pidfile_events"
      using replace_instance_logged [of os old w2 "es @ [Ev_Kill old 0]"] by blast
    have kp: "Ev_Kill old 0 \<in> pidfile_events" by (simp add: pidfile_events_def)
    show ?thesis
    proof (cases a)
      case None
      show ?thesis using n es p k kp Some None \<open>1 < old\<close> unfolding ensure_single_instance_def
        by (auto simp: f logged_fields tr_def ts_def)
    next
      case (Some e)
      show ?thesis using es p k \<open>r = Some old\<close> Some \<open>1 < old\<close> unfolding ensure_single_instance_def remove_pidfile_def
        by (auto simp: f logged_fields tr_def ts_def pidfile_events_def)
    qed
  qed
qed

text \<open>Three hosts: an instance in the pidfile; no pidfile, and two servers, a shell and the caller
  (process 100) in the table; and a pidfile that names init.\<close>

definition host2 :: host where
  "host2 = host1\<lparr>h_pidfile := None, h_procs := [sshsvr_proc 77, (sshsvr_proc 78)\<lparr>ki_comm := ''sh''\<rparr>, sshsvr_proc 100, sshsvr_proc 101]\<rparr>"

theorem single_instance_signals_witness:
  "(\<exists>n. kills (events (snd (ensure_single_instance (logged host_os) True (Traced host1 [])))) =
        Ev_Kill 77 0 # Ev_Kill 77 SIGTERM # replicate n (Ev_Kill 77 0))
   \<and> kills (events (snd (ensure_single_instance (logged host_os) False (Traced host1 [])))) = [Ev_Kill 77 0]
   \<and> kills (events (snd (ensure_single_instance (logged host_os) True (Traced host2 [])))) =
        [Ev_Kill 77 SIGTERM, Ev_Kill 101 SIGTERM]
   \<and> kills (events (snd (ensure_single_instance (logged host_os) True (Traced (host1\<lparr>h_pidfile := Some ''1''\<rparr>) [])))) =
        [Ev_Kill 77 SIGTERM]"
proof -
  have r: "read_pidfile host_os host1 = (Some 77, host1)" "read_pidfile host_os host2 = (None, host2)"
    "read_pidfile host_os (host1\<lparr>h_pidfile := Some ''1''\<rparr>) = (None, host1\<lparr>h_pidfile := Some ''1''\<rparr>)" by code_simp+
  have k: "fst (os_kill host_os 77 0 host1) = None" by (simp add: host_fields h_alive_def host1_def sshsvr_proc_def)
  have o: "other_instances host_os ''sshsvr'' (os_getpid host_os host2) host2 = [77, 101]"
    "other_instances host_os ''sshsvr'' (os_getpid host_os host1) (host1\<lparr>h_pidfile := Some ''1''\<rparr>) = [77]"
    by (simp_all add: other_instances_def host_os_def null_os_def host2_def host1_def sshsvr_proc_def)
  have g: "os_getpid host_os (host1\<lparr>h_pidfile := Some ''1''\<rparr>) = os_getpid host_os host1" by (simp add: host_os_def null_os_def)
  show ?thesis
    using single_instance_signals [of host_os True host1] single_instance_signals [of host_os False host1]
      single_instance_signals [of host_os True host2] single_instance_signals [of host_os True "host1\<lparr>h_pidfile := Some ''1''\<rparr>"]
    by (auto simp: r k o g)
qed

text \<open>The calls of the accept loop leave the pidfile alone.\<close>

definition pidfile_frame :: "'w os \<Rightarrow> ('w \<Rightarrow> string option) \<Rightarrow> bool" where
  "pidfile_frame os v \<longleftrightarrow>
     (\<forall>w. v (snd (os_term_signal os w)) = v w \<and> v (snd (os_fork os w)) = v w
        \<and> (\<forall>fd. v (snd (os_accept os fd w)) = v w \<and> v (os_close os fd w) = v w)
        \<and> (\<forall>s. v (os_klog os s w) = v w \<and> v (os_klog_perror os s w) = v w)
        \<and> v (snd (os_unlink os SSHSVR_PIDFILE w)) = None)"

lemma pidfile_frameD:
  assumes "pidfile_frame os v"
  shows "os_term_signal os w = (r1, w1) \<Longrightarrow> v w1 = v w" "os_fork os w = (r2, w1) \<Longrightarrow> v w1 = v w"
    "os_accept os fd w = (r3, w1) \<Longrightarrow> v w1 = v w" "v (os_close os fd w) = v w"
    "v (os_klog os s w) = v w" "v (os_klog_perror os s w) = v w" "v (snd (os_unlink os SSHSVR_PIDFILE w)) = None"
  using assms unfolding pidfile_frame_def by (metis snd_conv)+

lemmas accept_loop_induct = accept_loop.raw_induct [rotated 1, consumes 1, case_names step]

lemma end_session_not_ret: "end_session os c x \<noteq> (Ret u, w)"
  by (cases x; cases "fst x") auto

lemma accept_loop_frame:
  "accept_loop os session lfd lpid w = Some y \<Longrightarrow> pidfile_frame os v \<Longrightarrow> fst y = Ret () \<Longrightarrow> v (snd y) = v w"
proof (induction os session lfd lpid w y rule: accept_loop_induct)
  case (step f os session lfd lpid w y)
  note fr = pidfile_frameD [OF step.prems(1)]
  obtain stop w1 where t: "os_term_signal os w = (stop, w1)" by fastforce
  obtain a w2 where a: "os_accept os lfd w1 = (a, w2)" by fastforce
  have v2: "v w2 = v w" using fr(1) [OF t] fr(3) [OF a] by simp
  show ?case
  proof (cases "stop \<or> isl a")
    case True
    obtain stop2 w3 where t2: "os_term_signal os w2 = (stop2, w3)" by fastforce
    show ?thesis
      using True step.hyps step.IH [OF _ step.prems] t a t2 v2 fr(1) [OF t] fr(1) [OF t2] fr(6)
      by (cases a) (auto split: if_splits)
  next
    case False
    then obtain c where c: "a = Inr c" by (cases a) auto
    obtain k w3 where k: "os_fork os (os_klog os (''connection from '' @ snd c @ ''\<newline>'') w2) = (k, w3)" by fastforce
    have v3: "v w3 = v w" using fr(2) [OF k] fr(5) v2 by simp
    have "\<not> (\<exists>x. map_option (end_session os (fst c)) x = Some y)"
      using step.prems(2) end_session_not_ret [of os "fst c" _ "()" "snd y"]
      by (auto simp: prod_eq_iff)
    then have "f os session lfd lpid (os_close os (fst c) w3) = Some y"
      using False c k t a step.hyps by (auto split: if_splits sum.splits)
    from step.IH [OF this step.prems] v3 fr(4) show ?thesis by simp
  qed
qed

lemma write_pidfile_stores:
  assumes "pidfile_writable os v"
  shows "v (snd (write_pidfile os p w)) = Some (show_int p @ ''\<newline>'')"
proof -
  define w0 where "w0 = snd (os_mkdir os (c_dirname SSHSVR_PIDFILE) w)"
  obtain fd w1 where o: "os_open os SSHSVR_PIDFILE [O_WRONLY, O_CREAT, O_TRUNC] w0 = (Inr fd, w1)"
    "\<And>s. v (os_close os fd (snd (os_write os fd s w1))) = Some s"
    using assms(1) unfolding pidfile_writable_def by metis
  then show ?thesis by (simp add: write_pidfile_def w0_def c_dirname_def SSHSVR_PIDFILE_def)
qed

text \<open>The pidfile after a clean shutdown: a daemon has removed it, but a server that runs in the
  foreground leaves it behind with its own process id, although it wrote it.\<close>

theorem shutdown_pidfile:
  assumes "pidfile_writable os v" "pidfile_frame os v"
    "bind_with_retry os port force (os_sigaction os 2 (os_sigaction os SIGTERM w)) = (Some lfd, w1)"
    "serve os session port daemonize force lpid w = Some (Ret (), w2)"
  shows "v w2 = (if daemonize then None else Some (show_int lpid @ ''\<newline>''))"
proof -
  note fr = pidfile_frameD [OF assms(2)]
  define w4 where "w4 = os_klog os ''pid written'' (snd (write_pidfile os lpid
    (os_klog os (listening_msg port lpid) w1)))"
  have v4: "v w4 = Some (show_int lpid @ ''\<newline>'')" by (simp only: w4_def fr write_pidfile_stores [OF assms(1)])
  obtain r w5 where l: "accept_loop os session lfd lpid w4 = Some (r, w5)"
    "(case r of Ret u \<Rightarrow> (let w6 = os_close os lfd w5; w7 = (if daemonize then remove_pidfile os w6 else w6)
                           in (Ret (), os_klog os ''sshsvr shutting down\<newline>'' w7))
                      | _ \<Rightarrow> (r, w5)) = (Ret (), w2)"
    using assms(4) unfolding serve_def Let_def assms(3) prod.case option.case w4_def [symmetric]
    by (auto simp: bind_eq_Some_conv)
  then have r: "r = Ret ()" by (cases r) auto
  have "v w5 = v w4" using accept_loop_frame [OF l(1) assms(2)] r by simp
  with l(2) r v4 fr show ?thesis by (auto simp: remove_pidfile_def Let_def)
qed

theorem shutdown_pidfile_witness:
  "\<exists>w2. serve host_os (\<lambda>fd ip lp h. None) 2222 False False 4242 host1 = Some (Ret (), w2)
     \<and> h_pidfile w2 = Some (show_int 4242 @ ''\<newline>'')"
proof -
  have f: "pidfile_frame host_os h_pidfile" by (auto simp: pidfile_frame_def host_os_def null_os_def)
  have b: "bind_with_retry host_os 2222 False (os_sigaction host_os 2 (os_sigaction host_os SIGTERM host1)) = (Some 5, host1)"
    by (simp add: bind_with_retry_def numeral_eq_Suc create_listener_def host_os_def null_os_def)
  obtain w2 where s: "serve host_os (\<lambda>fd ip lp h. None) 2222 False False 4242 host1 = Some (Ret (), w2)"
    unfolding serve_def Let_def b by (simp add: accept_loop.simps) (simp add: host_os_def)
  from shutdown_pidfile [OF host_pidfile(2) f b s] s show ?thesis by simp
qed

lemma main_args_flags:
  "main_args ((if d then [''-d''] else []) @ (if f then [''-F''] else [])) port False False = Some (port, d, f)"
  by simp

text \<open>The options of the program: started with \<^verbatim>\<open>-p\<close> and a port, and with or without \<^verbatim>\<open>-d\<close> and \<^verbatim>\<open>-F\<close>,
  it runs the server on that port modulo 65536 and exports the port; and it always replaces
  a running instance when the pidfile can be read, with or without \<^verbatim>\<open>-F\<close>.\<close>

theorem main_options:
  assumes "- (2 ^ 31) \<le> port" "port < 2 ^ 31" "os_access os SSHSVR_PIDFILE w = (r, w1)"
  shows "sshsvr_main os session
      ([prog, ''-p'', show_int port] @ (if d then [''-d''] else []) @ (if f then [''-F''] else [])) w =
    map_option (\<lambda>(x, w3). (map_outcome (\<lambda>_. 0) x, w3))
      (sshsvr_run os session (to_uint16 port) d (f \<or> r = None)
         (os_setenv os ''SSHSVR_PORT'' (show_int port) (if f then w else w1)))"
proof -
  have "c_atoi (show_int port) = port"
    using c_scan_dec_show_int [of "[]" port] assms(1,2)
    by (simp add: c_atoi_def ends_number_def clamp_long_id to_int32_id)
  then show ?thesis using assms(3)
    by (cases f) (simp_all add: sshsvr_main_def main_force_def main_args_flags split: prod.split)
qed

theorem main_options_witness:
  "sshsvr_main host_os (\<lambda>fd ip lp h. None) [''sshsvr'', ''-p'', show_int 2222] host1 =
    map_option (\<lambda>(x, w3). (map_outcome (\<lambda>_. 0) x, w3))
      (sshsvr_run host_os (\<lambda>fd ip lp h. None) 2222 False True (os_setenv host_os ''SSHSVR_PORT'' (show_int 2222) host1))"
proof -
  have "os_access host_os SSHSVR_PIDFILE host1 = (None, host1)" by (simp add: host_os_def host1_def)
  from main_options [OF _ _ this, of 2222 "\<lambda>fd ip lp h. None" "''sshsvr''" False False] show ?thesis
    by (simp add: to_uint16_def)
qed

end
