(* ===== verification/Serverctl.thy ===== *)
theory Serverctl
  imports Server
begin

text \<open>
  The builtins that act on processes, \<^verbatim>\<open>kill\<close> and \<^verbatim>\<open>serverctl\<close> of \<^verbatim>\<open>src/builtins.c\<close>, and the
  stand-alone tool \<^verbatim>\<open>tools/kill_sshsvr.c\<close>.
\<close>

section \<open>The code\<close>

definition cmd_kill :: "'w os \<Rightarrow> string list \<Rightarrow> 'w \<Rightarrow> int \<times> 'w" where
  "cmd_kill os av w =
     (if length av < 2 then (- 1, out os ''usage: kill <pid> [sig]\<newline>'' w)
      else let pid = c_atoi (av ! 1); sig = (if length av \<ge> 3 then c_atoi (av ! 2) else SIGTERM)
           in case os_kill os pid sig w of
                (Some e, w1) \<Rightarrow> (- 1, out os (''kill: '' @ os_strerror os e @ ''\<newline>'') w1)
              | (None, w1) \<Rightarrow> (0, w1))"

definition read_pidfile_builtin :: "'w os \<Rightarrow> 'w \<Rightarrow> int option \<times> 'w" where
  "read_pidfile_builtin os w =
     (case os_open os SSHSVR_PIDFILE [O_RDONLY] w of
        (Inl e, w1) \<Rightarrow> (None, w1)
      | (Inr fd, w1) \<Rightarrow>
          (case fscanf_pid os fd w1 of
             (None, w2) \<Rightarrow> (None, os_close os fd w2)
           | (Some pid, w2) \<Rightarrow> (if pid \<le> 1 then None else Some pid, os_close os fd w2)))"

text \<open>The loop of \<^verbatim>\<open>wait_for_exit\<close>, with the probes left: whether a probe failed.\<close>

fun exit_probes :: "'w os \<Rightarrow> int \<Rightarrow> nat \<Rightarrow> 'w \<Rightarrow> bool \<times> 'w" where
  "exit_probes os pid 0 w = (False, w)"
| "exit_probes os pid (Suc n) w =
     (case os_kill os pid 0 w of
        (Some e, w1) \<Rightarrow> (True, w1)
      | (None, w1) \<Rightarrow> exit_probes os pid n (os_usleep os 50000 w1))"

definition wait_for_exit :: "'w os \<Rightarrow> int \<Rightarrow> int \<Rightarrow> 'w \<Rightarrow> int \<times> 'w" where
  "wait_for_exit os pid ms_total w =
     (case exit_probes os pid (nat (ms_total div 50)) w of
        (True, w1) \<Rightarrow> (0, w1)
      | (False, w1) \<Rightarrow>
          (case os_kill os pid 0 w1 of (None, w2) \<Rightarrow> (- 1, w2) | (Some e, w2) \<Rightarrow> (0, w2)))"

definition serverctl_stop :: "'w os \<Rightarrow> 'w \<Rightarrow> int \<times> 'w" where
  "serverctl_stop os w =
     (case read_pidfile_builtin os w of
        (None, w1) \<Rightarrow> (1, out os ''serverctl: not running\<newline>'' w1)
      | (Some pid, w1) \<Rightarrow>
          (case os_kill os pid SIGTERM w1 of
             (Some e, w2) \<Rightarrow> (- 1, out os (''serverctl: kill failed: '' @ os_strerror os e @ ''\<newline>'') w2)
           | (None, w2) \<Rightarrow>
               (case wait_for_exit os pid 2000 w2 of
                  (r, w3) \<Rightarrow>
                    if r < 0
                    then (- 1, out os (''serverctl: timeout waiting for pid '' @ show_int pid @ ''\<newline>'') w3)
                    else (0, out os (''serverctl: stopped (pid='' @ show_int pid @ '')\<newline>'')
                               (snd (os_unlink os SSHSVR_PIDFILE w3))))))"

text \<open>The option \<^verbatim>\<open>-p\<close> of \<^verbatim>\<open>start\<close>.\<close>

fun start_port :: "string list \<Rightarrow> int \<Rightarrow> int" where
  "start_port [] port = port"
| "start_port (a # as) port =
     (if a = ''-p'' \<and> as \<noteq> [] then start_port (tl as) (c_atoi (hd as)) else start_port as port)"

text \<open>\<^verbatim>\<open>read_pidfile_builtin(&pid)==0 && kill(pid,0)==0\<close>.\<close>

definition running_pid :: "'w os \<Rightarrow> 'w \<Rightarrow> int option \<times> 'w" where
  "running_pid os w =
     (case read_pidfile_builtin os w of
        (None, w1) \<Rightarrow> (None, w1)
      | (Some pid, w1) \<Rightarrow>
          (case os_kill os pid 0 w1 of (None, w2) \<Rightarrow> (Some pid, w2) | (Some e, w2) \<Rightarrow> (None, w2)))"

fun exit0 :: "unit outcome \<times> 'w \<Rightarrow> int outcome \<times> 'w" where
  "exit0 (Ret u, w) = (Exit 0, w)"
| "exit0 (Exit n, w) = (Exit n, w)"
| "exit0 (Execed, w) = (Execed, w)"
| "exit0 (Crashed, w) = (Crashed, w)"

text \<open>The launch, in the parent and in the child of the fork.\<close>

definition serverctl_launch :: "'w os \<Rightarrow> 'w session \<Rightarrow> int \<Rightarrow> bool \<Rightarrow> 'w \<Rightarrow> (int outcome \<times> 'w) option" where
  "serverctl_launch os session port do_force w =
     (case os_fork os w of
        (Inl e, w1) \<Rightarrow> Some (Ret (- 1), out os ''serverctl: fork failed\<newline>'' w1)
      | (Inr child, w1) \<Rightarrow>
          if child = 0
          then map_option exit0 (sshsvr_run os session (to_uint16 port) True do_force w1)
          else
            (let w2 = os_usleep os 200000 (out os (''serverctl: launching (port='' @ show_int port @ '')\<newline>'') w1)
             in case running_pid os w2 of
                  (Some pid, w3) \<Rightarrow> Some (Ret 0, out os (''serverctl: running pid='' @ show_int pid @ ''\<newline>'') w3)
                | (None, w3) \<Rightarrow> Some (Ret 0, out os ''serverctl: start verification failed\<newline>'' w3)))"

definition serverctl_start ::
    "'w os \<Rightarrow> 'w session \<Rightarrow> string list \<Rightarrow> nat \<Rightarrow> bool \<Rightarrow> 'w \<Rightarrow> (int outcome \<times> 'w) option" where
  "serverctl_start os session av offset do_force w =
     (let port0 = (case os_getenv os ''SSHSVR_PORT'' w of None \<Rightarrow> SSHSVR_DEFAULT_PORT | Some e \<Rightarrow> c_atoi e);
          port = start_port (drop offset av) port0
      in case running_pid os w of
           (Some pid, w1) \<Rightarrow>
             if \<not> do_force
             then Some (Ret 1, out os (''serverctl: already running (pid='' @ show_int pid
                                  @ ''). Use restart or start --force.\<newline>'') w1)
             else serverctl_launch os session port do_force w1
         | (None, w1) \<Rightarrow> serverctl_launch os session port do_force w1)"

definition serverctl_status :: "'w os \<Rightarrow> 'w \<Rightarrow> int \<times> 'w" where
  "serverctl_status os w =
     (case read_pidfile_builtin os w of
        (None, w1) \<Rightarrow> (1, out os ''serverctl: not running\<newline>'' w1)
      | (Some pid, w1) \<Rightarrow>
          (case os_kill os pid 0 w1 of
             (None, w2) \<Rightarrow> (0, out os (''serverctl: running (pid='' @ show_int pid @ '')\<newline>'') w2)
           | (Some e, w2) \<Rightarrow> (2, out os (''serverctl: stale pidfile (pid='' @ show_int pid @ '')\<newline>'') w2)))"

definition cmd_serverctl :: "'w os \<Rightarrow> 'w session \<Rightarrow> string list \<Rightarrow> 'w \<Rightarrow> (int outcome \<times> 'w) option" where
  "cmd_serverctl os session av w =
     (if length av < 2 then
        Some (Ret (- 1), out os (''usage: serverctl <start|stop|restart|status> [options]\<newline> start   [-p port] [--force]\<newline>''
           @ '' stop\<newline> restart [-p port] [--force]\<newline> status\<newline>'') w)
      else
        let do_force = (''--force'' \<in> set (drop 2 av)); sub = av ! 1 in
        if sub = ''stop'' then (case serverctl_stop os w of (r, w1) \<Rightarrow> Some (Ret r, w1))
        else if sub = ''start'' then serverctl_start os session av 2 do_force w
        else if sub = ''restart'' then serverctl_start os session av 2 do_force (snd (serverctl_stop os w))
        else if sub = ''status'' then (case serverctl_status os w of (r, w1) \<Rightarrow> Some (Ret r, w1))
        else Some (Ret (- 1), out os (''serverctl: unknown subcommand '' @ [CHR 0x27] @ sub @ [CHR 0x27] @ ''\<newline>'') w))"

subsection \<open>The tool kill\_sshsvr\<close>

fun tool_kills :: "'w os \<Rightarrow> int \<Rightarrow> kinfo_proc list \<Rightarrow> int \<Rightarrow> 'w \<Rightarrow> int \<times> 'w" where
  "tool_kills os self [] killed w = (killed, w)"
| "tool_kills os self (p # ps) killed w =
     (if ki_pid p = self then tool_kills os self ps killed w
      else if ki_comm p = ''sshsvr'' then
        (case os_kill os (ki_pid p) SIGTERM w of
           (None, w1) \<Rightarrow> tool_kills os self ps (killed + 1)
              (out os (''kill_sshsvr: sent SIGTERM to pid '' @ show_int (ki_pid p) @ ''\<newline>'') w1)
         | (Some e, w1) \<Rightarrow> tool_kills os self ps killed w1)
      else tool_kills os self ps killed w)"

definition kill_sshsvr_main :: "'w os \<Rightarrow> 'w \<Rightarrow> int \<times> 'w" where
  "kill_sshsvr_main os w =
     (case os_sysctl_size os w of
        (Inl e, w1) \<Rightarrow> (1, out os ''kill_sshsvr: sysctl size failed\<newline>'' w1)
      | (Inr len, w1) \<Rightarrow>
          if \<not> os_malloc_ok os len w1 then (1, w1)
          else case os_sysctl_procs os len w1 of
                 (Inl e, w2) \<Rightarrow> (1, out os ''kill_sshsvr: sysctl data failed\<newline>'' w2)
               | (Inr ps, w2) \<Rightarrow>
                   (case tool_kills os (os_getpid os w2) ps 0 w2 of
                      (killed, w3) \<Rightarrow>
                        (0, snd (os_unlink os ''/data/sshsvr.pid''
                              (if killed = 0 then out os ''kill_sshsvr: no sshsvr found\<newline>'' w3
                               else out os (''kill_sshsvr: done ('' @ show_int killed @ '')\<newline>'') w3)))))"

section \<open>Lemmas\<close>

lemma read_pidfile_builtin_eq: "read_pidfile_builtin = read_pidfile"
  by (intro ext) (simp add: read_pidfile_builtin_def read_pidfile_def)

text \<open>The reader of \<^verbatim>\<open>serverctl\<close> keeps the contract of the server's reader.\<close>

interpretation ctl_pid: pid_reader read_pidfile_builtin
  unfolding read_pidfile_builtin_eq by unfold_locales

lemma probe_failed: "probes os alive \<Longrightarrow> os_kill os p 0 w = (Some e, w1) \<Longrightarrow> \<not> alive w1 p"
  using probesD [of os alive p w "Some e" w1] by simp

lemma exit_probes_dead:
  "probes os alive \<Longrightarrow> exit_probes os p n w = (True, w1) \<Longrightarrow> \<not> alive w1 p"
proof (induction n arbitrary: w)
  case (Suc n)
  then show ?case by (auto split: prod.splits option.splits dest: probe_failed)
qed simp

lemma wait_for_exit_dead:
  assumes "probes os alive" "wait_for_exit os p ms w = (r, w1)"
  shows "r \<in> {0, - 1} \<and> (r = 0 \<longrightarrow> \<not> alive w1 p)"
  using assms(2) exit_probes_dead [OF assms(1)]
  by (auto simp: wait_for_exit_def split: prod.splits option.splits bool.splits dest: probe_failed [OF assms(1)])

lemma out_view: "(\<And>s u. v (snd (os_write os 1 s u)) = v u) \<Longrightarrow> v (out os m w) = v w"
  by (simp add: out_def dprintf_def split: prod.split sum.split) (metis snd_conv)

lemma tool_kills_added:
  "added E wl v \<Longrightarrow>
   (\<And>p. p \<in> set ps \<Longrightarrow> ki_comm p = ''sshsvr'' \<Longrightarrow> ki_pid p \<noteq> self \<Longrightarrow> Ev_Kill (ki_pid p) SIGTERM \<in> E) \<Longrightarrow>
   range (Ev_Write 1) \<subseteq> E \<Longrightarrow> added E wl (snd (tool_kills (logged os) self ps k v))"
proof (induction ps arbitrary: k v)
  case (Cons p ps)
  then show ?case unfolding tool_kills.simps by (intro traces Cons.IH) auto
qed simp

text \<open>A process that the kernel has listed under a name.\<close>

definition listed :: "'w os \<Rightarrow> string \<Rightarrow> int \<Rightarrow> bool" where
  "listed os name pid \<longleftrightarrow>
     (\<exists>n v ps q. fst (os_sysctl_procs os n v) = Inr ps \<and> q \<in> set ps \<and> ki_comm q = name \<and> ki_pid q = pid)"

lemma read_pidfile_added:
  assumes "added E wl v" "Ev_Open SSHSVR_PIDFILE [O_RDONLY] \<in> E" "range Ev_Close \<subseteq> E"
  shows "added E wl (snd (read_pidfile (logged os) v))"
  unfolding read_pidfile_def fscanf_pid_def by (intro traces assms) (use assms in auto)

lemma listed_procs:
  "os_sysctl_procs (logged os) n u = (Inr ps, w2) \<Longrightarrow> p \<in> set ps \<Longrightarrow> ki_comm p = name \<Longrightarrow> listed os name (ki_pid p)"
  unfolding listed_def logged_def tr_def by (simp, metis)

section \<open>Properties\<close>

text \<open>\<^verbatim>\<open>serverctl status\<close> tells the three cases apart: 1 without a pidfile, 0 when the process that the
  pidfile names is alive, 2 when it is not (a stale pidfile).\<close>

theorem serverctl_status_exact:
  assumes "pidfile_readable os v" "probes os alive" "v w = Some (show_int p @ ''\<newline>'')" "1 < p" "p < 2 ^ 31"
    "v w' = None"
  shows "fst (serverctl_status os w') = 1
    \<and> (\<exists>w1. read_pidfile_builtin os w = (Some p, w1) \<and> fst (serverctl_status os w) = (if alive w1 p then 0 else 2))"
proof
  show "fst (serverctl_status os w') = 1"
    using ctl_pid.absent [OF assms(1,6)] by (auto simp: serverctl_status_def)
  obtain w1 where r: "read_pidfile_builtin os w = (Some p, w1)"
    using ctl_pid.reads [OF assms(1,3-5)] by blast
  obtain k w2 where k: "os_kill os p 0 w1 = (k, w2)" by fastforce
  show "\<exists>w1. read_pidfile_builtin os w = (Some p, w1) \<and> fst (serverctl_status os w) = (if alive w1 p then 0 else 2)"
    using r k probesD [OF assms(2) k] by (cases k) (auto simp: serverctl_status_def)
qed

theorem serverctl_status_exact_witness:
  "fst (serverctl_status host_os (host1\<lparr>h_pidfile := None\<rparr>)) = 1
    \<and> (\<exists>w1. read_pidfile_builtin host_os host1 = (Some 77, w1) \<and> fst (serverctl_status host_os host1) = (if h_alive w1 77 then 0 else 2))"
proof -
  have s: "show_int 77 @ ''\<newline>'' = ''77\<newline>''" by code_simp
  have "h_pidfile host1 = Some (show_int 77 @ ''\<newline>'')" "h_pidfile (host1\<lparr>h_pidfile := None\<rparr>) = None"
    unfolding s by (simp_all add: host1_def)
  from serverctl_status_exact [OF host_pidfile(1) host_probes(1) this(1) _ _ this(2)] show ?thesis by simp
qed

text \<open>\<^verbatim>\<open>serverctl stop\<close> is decided: it always returns, after at most 41 probes; 0 means that the
  process named by the pidfile is gone and the pidfile is removed, and otherwise nothing is
  removed.\<close>

theorem serverctl_stop_stops:
  assumes "probes os alive" "stays_dead os alive" "read_pidfile_builtin os w = (Some p, w1)"
    "serverctl_stop os w = (r, w2)" "\<And>u. v (snd (os_unlink os SSHSVR_PIDFILE u)) = (None :: string option)"
    "\<And>s u. alive (snd (os_write os 1 s u)) = alive u" "\<And>s u. v (snd (os_write os 1 s u)) = v u"
    "\<And>q s u. v (snd (os_kill os q s u)) = v u" "\<And>n u. v (os_usleep os n u) = v u"
  shows "r \<in> {0, - 1} \<and> (r = 0 \<longrightarrow> \<not> alive w2 p \<and> v w2 = None) \<and> (r = - 1 \<longrightarrow> v w2 = v w1)"
proof -
  have kv: "v u1 = v u" if "os_kill os q s u = (k, u1)" for q s u k u1 using assms(8) that by (metis snd_conv)
  have ev: "v u1 = v u" if "exit_probes os q n u = (b, u1)" for q n u b u1
    using that
  proof (induction n arbitrary: u)
    case (Suc n)
    then show ?case by (auto simp: assms(9) split: prod.splits option.splits dest!: kv)
  qed simp
  have wv: "v u1 = v u" if "wait_for_exit os q n u = (b, u1)" for q n u b u1
    using that by (auto simp: wait_for_exit_def split: prod.splits option.splits bool.splits dest!: kv ev)
  have od: "\<not> alive (out os m u) p \<longleftrightarrow> \<not> alive u p" for m u using out_view [of alive os m u] assms(6) by simp
  have ov: "v (out os m u) = v u" for m u using out_view assms(7) by metis
  obtain k w3 where k: "os_kill os p SIGTERM w1 = (k, w3)" by fastforce
  obtain r4 w4 where x: "wait_for_exit os p 2000 w3 = (r4, w4)" by fastforce
  have "\<not> alive (snd (os_unlink os SSHSVR_PIDFILE w4)) p" if "r4 = 0"
    using wait_for_exit_dead [OF assms(1) x] that stays_deadD(1) [OF assms(2)] by blast
  then show ?thesis
    using assms(3,4) k x od ov wait_for_exit_dead [OF assms(1) x] kv [OF k] wv [OF x] assms(5)
    by (cases k) (auto simp: serverctl_stop_def split: if_splits)
qed

theorem serverctl_stop_stops_witness:
  "\<exists>w2. serverctl_stop host_os host1 = (0, w2) \<and> \<not> h_alive w2 77 \<and> h_pidfile w2 = None"
proof -
  have r: "read_pidfile_builtin host_os host1 = (Some 77, host1)" by code_simp
  have "\<exists>w2. exit_probes host_os 77 (Suc (Suc n)) (host1\<lparr>h_dying := [77]\<rparr>) = (True, w2)" for n
    by (auto simp: h_alive_def host1_def sshsvr_proc_def host_fields SIGTERM_def)
  from this [of 38] obtain w2 where "wait_for_exit host_os 77 2000 (host1\<lparr>h_dying := [77]\<rparr>) = (0, w2)"
    by (auto simp: wait_for_exit_def)
  moreover have "os_kill host_os 77 SIGTERM host1 = (None, host1\<lparr>h_dying := [77]\<rparr>)"
    by (simp add: host_fields h_alive_def host1_def sshsvr_proc_def)
  ultimately obtain w2 where s: "serverctl_stop host_os host1 = (0, w2)" by (simp add: serverctl_stop_def r)
  from serverctl_stop_stops [OF host_probes r this, of h_pidfile] s show ?thesis
    by (simp add: host_os_def h_alive_def fun_eq_iff)
qed

text \<open>\<^verbatim>\<open>serverctl start\<close> does not start a second server: without \<^verbatim>\<open>--force\<close>, when the pidfile
  names a live process, it returns 1 and has neither forked nor sent a signal other than the
  probe of that process.\<close>

theorem serverctl_start_refuses:
  assumes "read_pidfile_builtin (logged os) (Traced w []) = (Some p, wl)"
    "os_kill (logged os) p 0 wl = (None, wl1)"
    "serverctl_start (logged os) session av offset False (Traced w []) = Some (r, wl2)"
  shows "r = Ret 1 \<and> set (events wl2) \<subseteq>
    {Ev_Open SSHSVR_PIDFILE [O_RDONLY], Ev_Kill p 0} \<union> range Ev_Close \<union> range (Ev_Write 1)"
proof -
  let ?E = "{Ev_Open SSHSVR_PIDFILE [O_RDONLY], Ev_Kill p 0} \<union> range Ev_Close \<union> range (Ev_Write 1)"
  have "added ?E (Traced w []) wl"
    using read_pidfile_added [OF added_refl, of ?E "Traced w []" os] assms(1)
    unfolding read_pidfile_builtin_eq by (metis UnCI insertI1 snd_conv sup_ge1 sup_ge2 le_supI1)
  then have "added ?E (Traced w []) wl1"
    using logged_calls(8) [of ?E "Traced w []" wl p 0 os] assms(2) by simp
  then have "added ?E (Traced w []) (out (logged os) m wl1)" for m by (intro traces) auto
  then have "set (events (out (logged os) m wl1)) \<subseteq> ?E" for m by (rule added_events)
  moreover have "running_pid (logged os) (Traced w []) = (Some p, wl1)"
    using assms(1,2) by (simp add: running_pid_def)
  ultimately show ?thesis using assms(3) unfolding serverctl_start_def Let_def by auto
qed

lemma scan_77: "c_scanf_d ''77\<newline>'' = Some (77, ''\<newline>'')"
  by code_simp

theorem serverctl_start_refuses_witness:
  "\<exists>wl2. serverctl_start (logged host_os) (\<lambda>fd ip lp h. None) [''serverctl'', ''start''] 2 False (Traced host1 []) = Some (Ret 1, wl2)
    \<and> Ev_Fork \<notin> set (events wl2)"
proof -
  obtain wl where r: "read_pidfile_builtin (logged host_os) (Traced host1 []) = (Some 77, wl)" "world wl = host1"
    by (simp add: read_pidfile_builtin_def fscanf_pid_def logged_def tr_def ts_def host_os_def null_os_def host1_def
        scan_77)
  then obtain wl1 where k: "os_kill (logged host_os) 77 0 wl = (None, wl1)"
    by (simp add: logged_def tr_def host_os_def h_alive_def host1_def sshsvr_proc_def)
  have "running_pid (logged host_os) (Traced host1 []) = (Some 77, wl1)" using r k by (simp add: running_pid_def)
  then obtain wl2 where s:
    "serverctl_start (logged host_os) (\<lambda>fd ip lp h. None) [''serverctl'', ''start''] 2 False (Traced host1 []) = Some (Ret 1, wl2)"
    by (auto simp: serverctl_start_def)
  from serverctl_start_refuses [OF r(1) k s] s show ?thesis by auto
qed

text \<open>The tool \<^verbatim>\<open>kill_sshsvr\<close> never removes the pidfile of the server: whatever the kernel does, it
  only sends SIGTERM to other processes named \<^verbatim>\<open>sshsvr\<close> and writes to its output, and the only file
  it unlinks is \<^verbatim>\<open>/data/sshsvr.pid\<close>, which is not the pidfile.\<close>

theorem kill_tool_events:
  assumes "\<And>u. os_getpid os u = me"
  shows "set (events (snd (kill_sshsvr_main (logged os) (Traced w [])))) \<subseteq>
     {Ev_Unlink ''/data/sshsvr.pid''} \<union> range (Ev_Write 1)
     \<union> {Ev_Kill p SIGTERM | p. listed os ''sshsvr'' p \<and> p \<noteq> me}
    \<and> ''/data/sshsvr.pid'' \<noteq> SSHSVR_PIDFILE"
proof -
  let ?E = "{Ev_Unlink ''/data/sshsvr.pid''} \<union> range (Ev_Write 1)
     \<union> {Ev_Kill p SIGTERM | p. listed os ''sshsvr'' p \<and> p \<noteq> me}"
  have "os_getpid (logged os) u = me" for u using assms by (simp add: logged_def)
  then have "added ?E (Traced w []) (snd (kill_sshsvr_main (logged os) (Traced w [])))"
    unfolding kill_sshsvr_main_def by (intro traces tool_kills_added) (auto intro: listed_procs)
  then show ?thesis by (auto dest: added_events simp: SSHSVR_PIDFILE_def)
qed

theorem kill_tool_events_witness:
  "set (events (snd (kill_sshsvr_main (logged host_os) (Traced host1 [])))) \<subseteq>
     {Ev_Unlink ''/data/sshsvr.pid''} \<union> range (Ev_Write 1)
     \<union> {Ev_Kill p SIGTERM | p. listed host_os ''sshsvr'' p \<and> p \<noteq> 100}"
  using kill_tool_events [of host_os 100 host1] by (simp add: host_os_def null_os_def)

text \<open>\<^verbatim>\<open>kill\<close> with a first argument that is not a number signals process 0, that is the whole process
  group of the session, with SIGTERM: \<^verbatim>\<open>atoi\<close> gives 0 and it is not checked. With a decimal
  process id it signals that process.\<close>

theorem kill_argument:
  assumes "c_scan_dec a = None" "- (2 ^ 31) \<le> p" "p < 2 ^ 31"
  shows "(\<exists>es. events (snd (cmd_kill (logged os) [''kill'', a] (Traced w []))) = Ev_Kill 0 SIGTERM # es)
    \<and> (\<exists>es. events (snd (cmd_kill (logged os) [''kill'', show_int p] (Traced w []))) = Ev_Kill p SIGTERM # es)"
proof -
  have n: "c_atoi a = 0" "c_atoi (show_int p) = p"
    using assms c_scan_dec_show_int [of "[]" p]
    by (simp_all add: c_atoi_def ends_number_def clamp_long_id to_int32_id)
  have g: "\<exists>es. events (snd (cmd_kill (logged os) [''kill'', b] (Traced w []))) = Ev_Kill (c_atoi b) SIGTERM # es" for b
    by (simp add: cmd_kill_def Let_def logged_fields tr_def out_events split: option.split)
  show ?thesis using g [of a] g [of "show_int p"] n by simp
qed

theorem kill_argument_witness:
  "(\<exists>es. events (snd (cmd_kill (logged host_os) [''kill'', ''abc''] (Traced host1 []))) = Ev_Kill 0 SIGTERM # es)
   \<and> (\<exists>es. events (snd (cmd_kill (logged host_os) [''kill'', show_int 77] (Traced host1 []))) = Ev_Kill 77 SIGTERM # es)"
proof -
  have "c_scan_dec ''abc'' = None" by code_simp
  from kill_argument [OF this, of 77 host_os host1] show ?thesis by simp
qed

section \<open>Restarting\<close>

text \<open>
  What is documented of the calls on the pidfile, whose content is \<open>v\<close>, and on processes: \<^verbatim>\<open>unlink\<close> removes it, and
  signals, sleeping, forking and messages leave it; messages and \<^verbatim>\<open>open\<close> end no process.
\<close>

definition pidfile_kernel :: "'w os \<Rightarrow> ('w \<Rightarrow> string option) \<Rightarrow> ('w \<Rightarrow> int \<Rightarrow> bool) \<Rightarrow> bool" where
  "pidfile_kernel os v alive \<longleftrightarrow>
     pidfile_readable os v \<and> probes os alive \<and> stays_dead os alive
   \<and> (\<forall>w. v (snd (os_unlink os SSHSVR_PIDFILE w)) = None \<and> (\<forall>p s. v (snd (os_kill os p s w)) = v w) \<and> (\<forall>n. v (os_usleep os n w) = v w)
        \<and> v (snd (os_fork os w)) = v w \<and> (\<forall>s. v (snd (os_write os 1 s w)) = v w \<and> alive (snd (os_write os 1 s w)) = alive w)
        \<and> (\<forall>f fl. alive (snd (os_open os f fl w)) = alive w))"

lemma host_pidfile_kernel: "pidfile_kernel host_os h_pidfile h_alive"
  using host_pidfile(1) host_probes
  by (auto simp: pidfile_kernel_def host_os_def null_os_def h_alive_def fun_eq_iff)

lemma running_pid_cases:
  assumes k: "pidfile_kernel os v alive" and p: "1 < p" "p < 2 ^ 31"
  shows "v w = None \<Longrightarrow> \<not> alive w p \<Longrightarrow> \<exists>u. running_pid os w = (None, u) \<and> \<not> alive u p"
    and "v w = Some (show_int p @ ''\<newline>'') \<Longrightarrow>
      \<exists>u. running_pid os w = (if alive u p then Some p else None, u) \<and> v u = v w"
proof -
  have r: "pidfile_readable os v" "probes os alive" and o: "\<And>f fl u. alive (snd (os_open os f fl u)) = alive u"
    and kv: "\<And>q s u. v (snd (os_kill os q s u)) = v u"
    using k by (simp_all add: pidfile_kernel_def)
  show "\<exists>u. running_pid os w = (None, u) \<and> \<not> alive u p" if none: "v w = None" and dead: "\<not> alive w p"
  proof -
    obtain e u where u: "os_open os SSHSVR_PIDFILE [O_RDONLY] w = (Inl e, u)"
      using spec [OF r(1) [unfolded pidfile_readable_def], of w] none by auto
    then show ?thesis using dead o [of SSHSVR_PIDFILE "[O_RDONLY]" w] by (simp add: running_pid_def read_pidfile_builtin_def)
  qed
  show "\<exists>u. running_pid os w = (if alive u p then Some p else None, u) \<and> v u = v w" if named: "v w = Some (show_int p @ ''\<newline>'')"
  proof -
    obtain u where u: "read_pidfile_builtin os w = (Some p, u)" "v u = v w" using ctl_pid.reads [OF r(1) named p] by blast
    obtain x u' where x: "os_kill os p 0 u = (x, u')" by fastforce
    then have "v u' = v w" using kv [of p 0 u] u(2) by simp
    with x show ?thesis using u probesD [OF r(2) x] by (cases x) (auto simp: running_pid_def)
  qed
qed

text \<open>A forced start on a pidfile that names \<open>p\<close>: the server that the child runs replaces \<open>p\<close> or ends.\<close>

lemma forced_child:
  assumes k: "pidfile_kernel os v alive" and pid: "v c = Some (show_int p @ ''\<newline>'')" "1 < p" "p < 2 ^ 31"
  shows "\<exists>rc u. ensure_single_instance os True c = (rc, u)
    \<and> (rc = 0 \<and> \<not> alive u p \<or> rc = - 1 \<and> sshsvr_run os session port d True c = Some (Ret (), u))"
proof -
  have l: "pidfile_readable os v" "probes os alive" "stays_dead os alive" using k by (simp_all add: pidfile_kernel_def)
  obtain c1 where "read_pidfile os c = (Some p, c1)" using server_pid.reads [OF l(1) pid] by blast
  from single_instance_cases [OF l(2,3) this, of True] obtain rc u where
    u: "ensure_single_instance os True c = (rc, u)" "rc \<in> {0, - 1}" "rc = 0 \<longrightarrow> \<not> alive u p" by blast
  then show ?thesis by (auto simp: sshsvr_run_def)
qed

text \<open>Property C31.
  \<^verbatim>\<open>serverctl restart [-p port] [--force]\<close> on a pidfile that names the process \<open>p\<close> never makes a second server
  beside it. Without \<^verbatim>\<open>--force\<close>, a new server is launched only when \<open>p\<close> is gone; if \<open>p\<close> is still alive after
  the wait, the command launches nothing, says so and returns 1. With \<^verbatim>\<open>--force\<close> it launches in any
  case; but when \<open>p\<close> is still alive then, the forked child first replaces it: either \<open>p\<close> is gone when
  the child goes on to listen, or the child's server returns at once. The server is launched on
  the port of the options, or else of the environment, or else on 2222.\<close>

theorem serverctl_restart_single:
  assumes k: "pidfile_kernel os v alive" and pid: "v w = Some (show_int p @ ''\<newline>'')" "1 < p" "p < 2 ^ 31"
    and force: "force \<longleftrightarrow> ''--force'' \<in> set opts"
    and port: "port = start_port opts (case os_getenv os ''SSHSVR_PORT'' (snd (serverctl_stop os w)) of
                 None \<Rightarrow> SSHSVR_DEFAULT_PORT | Some e \<Rightarrow> c_atoi e)"
  shows "\<exists>u. cmd_serverctl os session (''serverctl'' # ''restart'' # opts) w =
      (if force \<or> \<not> alive u p then serverctl_launch os session port force u
       else Some (Ret 1, out os (''serverctl: already running (pid='' @ show_int p
              @ ''). Use restart or start --force.\<newline>'') u))
    \<and> (\<forall>c. os_fork os u = (Inr 0, c) \<longrightarrow> alive u p \<longrightarrow>
         (\<exists>rc u1. ensure_single_instance os True c = (rc, u1)
            \<and> (rc = 0 \<and> \<not> alive u1 p \<or> rc = - 1 \<and> sshsvr_run os session (to_uint16 port) True True c = Some (Ret (), u1))))"
proof -
  let ?cmd = "cmd_serverctl os session (''serverctl'' # ''restart'' # opts) w"
  have r: "pidfile_readable os v" and pr: "probes os alive" and sd: "stays_dead os alive"
    and frame: "\<And>u. v (snd (os_unlink os SSHSVR_PIDFILE u)) = None" "\<And>s u. alive (snd (os_write os 1 s u)) = alive u"
      "\<And>s u. v (snd (os_write os 1 s u)) = v u" "\<And>q s u. v (snd (os_kill os q s u)) = v u" "\<And>n u. v (os_usleep os n u) = v u"
    and fk: "\<And>u. v (snd (os_fork os u)) = v u"
    using k by (simp_all add: pidfile_kernel_def)
  obtain w1 where w1: "read_pidfile_builtin os w = (Some p, w1)" "v w1 = v w" using ctl_pid.reads [OF r pid] by blast
  obtain x w2 where x: "serverctl_stop os w = (x, w2)" by fastforce
  have stop: "x \<in> {0, - 1} \<and> (x = 0 \<longrightarrow> \<not> alive w2 p \<and> v w2 = None) \<and> (x = - 1 \<longrightarrow> v w2 = v w1)"
    by (rule serverctl_stop_stops [OF pr sd w1(1) x frame])
  have cmd: "?cmd = serverctl_start os session (''serverctl'' # ''restart'' # opts) 2 force w2"
    by (simp add: cmd_serverctl_def x force)
  obtain q u where q: "running_pid os w2 = (q, u)" "q = (if alive u p then Some p else None)" "alive u p \<Longrightarrow> v u = v w"
    using stop running_pid_cases [OF k pid(2,3), of w2] w1(2) pid(1) by auto
  have "?cmd = (if force \<or> \<not> alive u p then serverctl_launch os session port force u
       else Some (Ret 1, out os (''serverctl: already running (pid='' @ show_int p @ ''). Use restart or start --force.\<newline>'') u))"
    using q(1,2) unfolding cmd port x snd_conv by (cases "alive u p") (simp_all add: serverctl_start_def)
  moreover have "\<exists>rc u1. ensure_single_instance os True c = (rc, u1) \<and> (rc = 0 \<and> \<not> alive u1 p
      \<or> rc = - 1 \<and> sshsvr_run os session (to_uint16 port) True True c = Some (Ret (), u1))"
    if "os_fork os u = (Inr 0, c)" "alive u p" for c
    by (rule forced_child [OF k _ pid(2,3)]) (use fk [of u] q(3) that pid(1) in simp)
  ultimately show ?thesis by blast
qed

theorem serverctl_restart_single_witness:
  "(\<forall>session. \<exists>u. \<not> h_alive u 77 \<and> cmd_serverctl host_os session [''serverctl'', ''restart'', ''-p'', ''2323''] host1
      = serverctl_launch host_os session 2323 False u)
   \<and> (\<forall>session. \<exists>u. cmd_serverctl host_os session [''serverctl'', ''restart'', ''--force''] host1
      = serverctl_launch host_os session 2222 True u)"
proof -
  have n: "show_int 77 @ ''\<newline>'' = ''77\<newline>''" by code_simp
  have pid: "h_pidfile host1 = Some (show_int 77 @ ''\<newline>'')" unfolding n by (simp add: host1_def)
  obtain w2 where w2: "serverctl_stop host_os host1 = (0, w2)" "h_pidfile w2 = None" using serverctl_stop_stops_witness by blast
  have a: "c_atoi ''2323'' = 2323" by code_simp
  have env: "os_getenv host_os n h = None" for n h by (simp add: host_os_def null_os_def)
  note single = serverctl_restart_single [OF host_pidfile_kernel pid, simplified env option.case]
  have "\<exists>u. \<not> h_alive u 77 \<and> cmd_serverctl host_os session [''serverctl'', ''restart'', ''-p'', ''2323''] host1
      = serverctl_launch host_os session 2323 False u" for session
  proof -
    let ?cmd = "cmd_serverctl host_os session [''serverctl'', ''restart'', ''-p'', ''2323''] host1"
    have "running_pid host_os w2 = (None, w2)" using w2(2) by (simp add: running_pid_def read_pidfile_builtin_def host_os_def)
    moreover have "os_fork host_os w2 = (Inl ENOSYS, w2)" by (simp add: host_os_def null_os_def)
    ultimately have "fst (the ?cmd) = Ret (- 1)" by (simp add: cmd_serverctl_def w2(1) serverctl_start_def serverctl_launch_def Let_def)
    then have ne: "?cmd \<noteq> Some (Ret 1, z)" for z by auto
    obtain u where u: "?cmd = (if \<not> h_alive u 77 then serverctl_launch host_os session 2323 False u
       else Some (Ret 1, out host_os (''serverctl: already running (pid='' @ show_int 77 @ ''). Use restart or start --force.\<newline>'') u))"
      using single [of False "[''-p'', ''2323'']" 2323 session] by (auto simp: a simp del: append.simps)
    with ne have "\<not> h_alive u 77" by metis
    with u show ?thesis by (intro exI [of _ u]) simp
  qed
  moreover have "\<exists>u. cmd_serverctl host_os session [''serverctl'', ''restart'', ''--force''] host1
      = serverctl_launch host_os session 2222 True u" for session
    using single [of True "[''--force'']" 2222 session] by (auto simp: SSHSVR_DEFAULT_PORT_def)
  ultimately show ?thesis by blast
qed

end
