(* ===== verification/Commands.thy ===== *)
theory Commands
  imports Files Install File_Transfer Serverctl
begin

text \<open>
  The remaining builtins of \<^verbatim>\<open>src/builtins.c\<close> (\<^verbatim>\<open>execelf\<close>, \<^verbatim>\<open>debugelf\<close>, \<^verbatim>\<open>klogtail\<close>, \<^verbatim>\<open>exit\<close>,
  \<^verbatim>\<open>help\<close>), the table of builtins and its dispatcher.

  The ELF loader is an argument (\<open>spawn\<close>, for \<^verbatim>\<open>elfldr_spawn\<close>): it takes the image and the
  argument vector and returns a process id, negative on failure.
\<close>

section \<open>Running an ELF image\<close>

text \<open>A number with an optional suffix, multiplied modulo \<open>2 ^ 64\<close>.\<close>

definition parse_size :: "string \<Rightarrow> u64" where
  "parse_size s =
     (case c_strtoull s of
        (v, rest) \<Rightarrow>
          (case rest of
             [] \<Rightarrow> v
           | c # _ \<Rightarrow>
               if c = CHR ''K'' \<or> c = CHR ''k'' then v * 1024
               else if c = CHR ''M'' \<or> c = CHR ''m'' then v * (1024 * 1024)
               else v))"

definition load_file :: "'w os \<Rightarrow> string \<Rightarrow> 'w \<Rightarrow> (errno + string) \<times> 'w" where
  "load_file os path w =
     (case os_open os path [O_RDONLY] w of
        (Inl e, w1) \<Rightarrow> (Inl e, w1)
      | (Inr fd, w1) \<Rightarrow>
          (case os_lseek_end os fd w1 of
             (sz, w2) \<Rightarrow>
               (let w3 = os_lseek_start os fd w2 in
                if \<not> os_malloc_ok os sz w3 then (Inl (os_errno os w3), os_close os fd w3)
                else case os_read os fd (nat sz) w3 of
                       (Inl e, w4) \<Rightarrow> (Inl e, os_close os fd w4)
                     | (Inr s, w4) \<Rightarrow>
                         if int (length s) \<noteq> sz then (Inl (os_errno os w4), os_close os fd w4)
                         else (Inr s, os_close os fd w4))))"

text \<open>The options: the heap size (which is not used), the environment, and what follows.\<close>

fun exec_options :: "string list \<Rightarrow> u64 \<Rightarrow> string list \<Rightarrow> u64 \<times> string list \<times> string list" where
  "exec_options [] heap envs = (heap, envs, [])"
| "exec_options [a] heap envs = (heap, envs, [a])"
| "exec_options (a # b # as) heap envs =
     (if a = ''--heap'' then exec_options as (parse_size b) envs
      else if a = ''--env'' then exec_options as heap (if length envs < 63 then envs @ [b] else envs)
      else (heap, envs, a # b # as))"

type_synonym 'w spawner = "byte list \<Rightarrow> string list \<Rightarrow> 'w \<Rightarrow> (int outcome \<times> 'w) option"

text \<open>What follows the options: loading the image, the environment, and the spawn.\<close>

definition exec_image ::
    "'w os \<Rightarrow> 'w spawner \<Rightarrow> bool \<Rightarrow> string list \<Rightarrow> string \<Rightarrow> string list \<Rightarrow> 'w \<Rightarrow> (int outcome \<times> 'w) option" where
  "exec_image os spawn debug_mode envs elfpath args w =
     (case load_file os elfpath w of
        (Inl e, w1) \<Rightarrow> Some (Ret (- 1), print_error os elfpath e w1)
      | (Inr data, w1) \<Rightarrow>
          do {
            let prog_argv = elfpath # take 62 args;
            let w2 = fold (os_putenv os) envs w1;
            (r, w3) \<leftarrow> spawn (bytes_of data) prog_argv w2;
            (case r of
               Ret pid \<Rightarrow>
                 if pid < 0 then Some (Ret (- 1), out os ''elf spawn failed\<newline>'' w3)
                 else if debug_mode then Some (Ret 0, out os (''(debug stub) pid='' @ show_int pid @ ''\<newline>'') w3)
                 else (case os_waitpid os pid w3 of
                         (Exited_With n, w4) \<Rightarrow> Some (Ret 0, out os (''exit '' @ show_int n @ ''\<newline>'') w4)
                       | (Signalled n, w4) \<Rightarrow> Some (Ret 0, w4))
             | _ \<Rightarrow> Some (r, w3)) })"

definition do_exec_common :: "'w os \<Rightarrow> 'w spawner \<Rightarrow> string list \<Rightarrow> bool \<Rightarrow> 'w \<Rightarrow> (int outcome \<times> 'w) option" where
  "do_exec_common os spawn av debug_mode w =
     (if length av < 2 then
        Some (Ret (- 1), out os (''usage: '' @ (if debug_mode then ''debugelf'' else ''execelf'')
                @ '' [--heap SIZE] [--env KEY=VAL]... <elf> [args...]\<newline>'') w)
      else
        case exec_options (tl av) 0 [] of
          (heap, envs, rest) \<Rightarrow>
            (case rest of
               [] \<Rightarrow> Some (Ret (- 1), out os ''missing elf path\<newline>'' w)
             | elfpath # args \<Rightarrow> exec_image os spawn debug_mode envs elfpath args w))"

definition cmd_execelf :: "'w os \<Rightarrow> 'w spawner \<Rightarrow> string list \<Rightarrow> 'w \<Rightarrow> (int outcome \<times> 'w) option" where
  "cmd_execelf os spawn av w = do_exec_common os spawn av False w"

definition cmd_debugelf :: "'w os \<Rightarrow> 'w spawner \<Rightarrow> string list \<Rightarrow> 'w \<Rightarrow> (int outcome \<times> 'w) option" where
  "cmd_debugelf os spawn av w = do_exec_common os spawn av True w"

section \<open>The table\<close>

partial_function (option) klogtail_loop :: "'w os \<Rightarrow> 'w \<Rightarrow> (int \<times> 'w) option" where
  "klogtail_loop os w = klogtail_loop os (os_usleep os 1000000 w)"

definition cmd_klogtail :: "'w os \<Rightarrow> string list \<Rightarrow> 'w \<Rightarrow> (int \<times> 'w) option" where
  "cmd_klogtail os av w = klogtail_loop os (out os ''klogtail (stub) Ctrl-C to exit\<newline>'' w)"

definition cmd_exit :: "string list \<Rightarrow> 'w \<Rightarrow> int \<times> 'w" where
  "cmd_exit av w = (255, w)"

datatype builtin_fn =
    Cmd_Help | Cmd_Exit | Cmd_Ls | Cmd_Rm | Cmd_Cp | Cmd_Mv | Cmd_Mkdir | Cmd_Pwd | Cmd_Cd | Cmd_Cat
  | Cmd_Ps | Cmd_Put | Cmd_Get | Cmd_Install | Cmd_Klogtail | Cmd_Execelf | Cmd_Debugelf | Cmd_Kill
  | Cmd_Serverctl

record builtin_t =
  bi_name :: string
  bi_fn :: builtin_fn
  bi_help :: string

definition bi :: "string \<Rightarrow> builtin_fn \<Rightarrow> string \<Rightarrow> builtin_t" where
  "bi n f h = \<lparr>bi_name = n, bi_fn = f, bi_help = h\<rparr>"

definition g_builtins :: "builtin_t list" where
  "g_builtins = [
     bi ''help'' Cmd_Help ''Show help'', bi ''exit'' Cmd_Exit ''Exit session'',
     bi ''ls'' Cmd_Ls ''List directory'', bi ''ll'' Cmd_Ls ''Alias for ls -l'',
     bi ''rm'' Cmd_Rm ''Remove files (-r)'', bi ''cp'' Cmd_Cp ''Copy files (-r)'',
     bi ''mv'' Cmd_Mv ''Move/rename'', bi ''mkdir'' Cmd_Mkdir ''Create directories (-p)'',
     bi ''pwd'' Cmd_Pwd ''Print working directory'', bi ''cd'' Cmd_Cd ''Change directory'',
     bi ''cat'' Cmd_Cat ''Show file contents'', bi ''ps'' Cmd_Ps ''List processes'',
     bi ''put'' Cmd_Put ''Receive base64 file'', bi ''get'' Cmd_Get ''Send base64 file'',
     bi ''install'' Cmd_Install ''Install PKG via etaHEN DPI (9090/12800)'',
     bi ''klogtail'' Cmd_Klogtail ''Tail kernel log (stub)'',
     bi ''execelf'' Cmd_Execelf ''Execute ELF payload'', bi ''debugelf'' Cmd_Debugelf ''Execute ELF (debug mode)'',
     bi ''kill'' Cmd_Kill ''Send signal (kill <pid> [sig])'',
     bi ''serverctl'' Cmd_Serverctl ''Control server (start/stop/restart/status)'']"

definition builtin_table :: "builtin_t list" where
  "builtin_table = g_builtins"

definition builtin_is_pipeline_safe :: "string \<Rightarrow> bool" where
  "builtin_is_pipeline_safe name \<longleftrightarrow> True"

definition cmd_help :: "'w os \<Rightarrow> string list \<Rightarrow> 'w \<Rightarrow> int \<times> 'w" where
  "cmd_help os av w =
     (0, fold (\<lambda>b v. out os (pad_right 10 (bi_name b) @ '' - '' @ bi_help b @ ''\<newline>'') v) builtin_table w)"

text \<open>A builtin that always returns, and one that may not.\<close>

definition ret :: "int \<times> 'w \<Rightarrow> (int outcome \<times> 'w) option" where
  "ret x = Some (Ret (fst x), snd x)"

definition ret_opt :: "(int \<times> 'w) option \<Rightarrow> (int outcome \<times> 'w) option" where
  "ret_opt x = Option.bind x ret"

text \<open>The call through the function pointer of the table.\<close>

fun call_builtin ::
    "'w os \<Rightarrow> 'w spawner \<Rightarrow> 'w session \<Rightarrow> builtin_fn \<Rightarrow> string list \<Rightarrow> 'w \<Rightarrow> (int outcome \<times> 'w) option" where
  "call_builtin os spawn session Cmd_Help av w = ret (cmd_help os av w)"
| "call_builtin os spawn session Cmd_Exit av w = ret (cmd_exit av w)"
| "call_builtin os spawn session Cmd_Ls av w = ret (cmd_ls os av w)"
| "call_builtin os spawn session Cmd_Rm av w = ret_opt (cmd_rm os av w)"
| "call_builtin os spawn session Cmd_Cp av w = ret_opt (cmd_cp os av w)"
| "call_builtin os spawn session Cmd_Mv av w = ret (cmd_mv os av w)"
| "call_builtin os spawn session Cmd_Mkdir av w = ret (cmd_mkdir os av w)"
| "call_builtin os spawn session Cmd_Pwd av w = ret (cmd_pwd os av w)"
| "call_builtin os spawn session Cmd_Cd av w = ret (cmd_cd os av w)"
| "call_builtin os spawn session Cmd_Cat av w = ret_opt (cmd_cat os av w)"
| "call_builtin os spawn session Cmd_Ps av w = ret (cmd_ps os av w)"
| "call_builtin os spawn session Cmd_Put av w = ret_opt (cmd_put os av w)"
| "call_builtin os spawn session Cmd_Get av w = ret_opt (cmd_get os av w)"
| "call_builtin os spawn session Cmd_Install av w = ret_opt (cmd_install os av w)"
| "call_builtin os spawn session Cmd_Klogtail av w = ret_opt (cmd_klogtail os av w)"
| "call_builtin os spawn session Cmd_Execelf av w = cmd_execelf os spawn av w"
| "call_builtin os spawn session Cmd_Debugelf av w = cmd_debugelf os spawn av w"
| "call_builtin os spawn session Cmd_Kill av w = ret (cmd_kill os av w)"
| "call_builtin os spawn session Cmd_Serverctl av w = cmd_serverctl os session av w"

definition run_builtin_in_current ::
    "'w os \<Rightarrow> 'w spawner \<Rightarrow> 'w session \<Rightarrow> string list \<Rightarrow> 'w \<Rightarrow> (int outcome \<times> 'w) option" where
  "run_builtin_in_current os spawn session av w =
     (case find (\<lambda>b. bi_name b = hd av) builtin_table of
        None \<Rightarrow> Some (Ret (- 2), w)
      | Some b \<Rightarrow>
          if hd av = ''ll'' then call_builtin os spawn session (bi_fn b) ([''ls'', ''-l''] @ tl av) w
          else call_builtin os spawn session (bi_fn b) av w)"

end
