(* ===== verification/Session_Parse.thy ===== *)
theory Session_Parse
  imports Prelude
begin

text \<open>
  The command-line parser of \<^verbatim>\<open>src/session.c\<close>: \<^verbatim>\<open>trim\<close>, \<^verbatim>\<open>tokenize\<close> and \<^verbatim>\<open>build_pipeline\<close>.
  Strings have no NUL; a \<^verbatim>\<open>char*\<close> cursor is the suffix it points to. A store outside an
  array is the fault \<open>Out_Of_Bounds\<close>: \<^verbatim>\<open>tokenize\<close> stores a NULL pointer at \<^verbatim>\<open>toks[ntok]\<close>, which
  is one past \<^verbatim>\<open>char* toks[MAX_TOKS]\<close> of its caller when the line holds \<^verbatim>\<open>MAX_TOKS\<close> tokens or
  more, and \<^verbatim>\<open>build_pipeline\<close> stores at \<^verbatim>\<open>argv[argc]\<close> of an array of \<^verbatim>\<open>MAX_TOKS\<close> pointers.
\<close>

section \<open>The code\<close>

datatype c_fault = Out_Of_Bounds

datatype parse_error = Fault c_fault | Parse_Error

definition MAX_LINE :: nat where "MAX_LINE = 2048"
definition MAX_TOKS :: nat where "MAX_TOKS = 256"
definition MAX_PIPE :: nat where "MAX_PIPE = 16"

record command_t =
  argv :: "string list"
  argc :: nat
  is_builtin :: bool

definition trim :: "string \<Rightarrow> string" where
  "trim s = (let s1 = dropWhile c_isspace s in rev (dropWhile c_isspace (rev s1)))"

subsection \<open>tokenize\<close>

definition is_op :: "char \<Rightarrow> bool" where
  "is_op c \<longleftrightarrow> c = CHR ''|'' \<or> c = CHR ''>''"

text \<open>The inner \<^verbatim>\<open>while\<close> over a word: the characters passed and the cursor after them.\<close>

fun scan_word :: "bool \<Rightarrow> string \<Rightarrow> string \<times> string" where
  "scan_word inq [] = ([], [])"
| "scan_word inq (c # p) =
     (if inq \<or> \<not> c_isspace c \<and> \<not> is_op c then
        let (w, r) = scan_word (if c = CHR 0x22 then \<not> inq else inq) p in (c # w, r)
      else ([], c # p))"

text \<open>The surrounding quotes of a word that starts and ends with one are removed.\<close>

definition strip_quotes :: "string \<Rightarrow> string" where
  "strip_quotes t =
     (if t \<noteq> [] \<and> hd t = CHR 0x22 \<and> last t = CHR 0x22 \<and> length t \<ge> 2 then butlast (tl t) else t)"

lemma scan_word_split: "scan_word inq p = (w, r) \<Longrightarrow> p = w @ r"
  by (induction inq p arbitrary: w r rule: scan_word.induct) (auto split: if_splits prod.splits)

lemma length_scan_word: "length (snd (scan_word inq p)) \<le> length p"
  using scan_word_split [of inq p] by (metis le_add2 length_append prod.collapse)

lemma length_scan_word_less:
  "\<not> c_isspace c \<Longrightarrow> \<not> is_op c \<Longrightarrow> length (snd (scan_word False (c # p))) \<le> length p"
  using length_scan_word [of "c = CHR 0x22" p] by (auto split: prod.splits)

text \<open>The outer loop, with the tokens stored so far.\<close>

function tokenize_loop :: "string \<Rightarrow> string list \<Rightarrow> string list" where
  "tokenize_loop line toks =
     (case dropWhile c_isspace line of
        [] \<Rightarrow> toks
      | c # p \<Rightarrow>
          if is_op c then
            if length toks < MAX_TOKS then
              if c = CHR ''>'' \<and> p \<noteq> [] \<and> hd p = CHR ''>''
              then tokenize_loop (tl p) (toks @ [''>>''])
              else tokenize_loop p (toks @ [[c]])
            else toks
          else
            let (w, r) = scan_word False (c # p); t = strip_quotes w
            in tokenize_loop r (if length toks < MAX_TOKS then toks @ [t] else toks))"
  by pat_completeness auto
termination
proof (relation "measure (\<lambda>(line, toks). length line)", goal_cases)
  case (2 line toks c p)
  then show ?case using length_dropWhile_le [of c_isspace line] by simp
next
  case (3 line toks c p)
  then show ?case using length_dropWhile_le [of c_isspace line] by simp
next
  case (4 line toks c p x w r t)
  from 4(1) have "\<not> c_isspace c" by (metis dropWhile_eq_Cons_conv)
  with 4 length_scan_word_less [of c p] length_dropWhile_le [of c_isspace line]
  show ?case by (metis (no_types, lifting) in_measure le_less_trans length_Cons lessI less_le_trans split_conv snd_conv)
qed simp

declare tokenize_loop.simps [simp del]

definition tokenize :: "string \<Rightarrow> c_fault + string list" where
  "tokenize line =
     (let toks = tokenize_loop line [] in if length toks < MAX_TOKS then Inr toks else Inl Out_Of_Bounds)"

subsection \<open>build_pipeline\<close>

text \<open>
  The inner loop over one command: its words, the redirection that ended it (file and
  append flag) and the tokens left; a redirection with no file name is a parse error.
\<close>

fun pipe_segment :: "string list \<Rightarrow> string list \<Rightarrow> (string list \<times> (string \<times> bool) option \<times> string list) option" where
  "pipe_segment [] av = Some (av, None, [])"
| "pipe_segment (t # ts) av =
     (if t = ''|'' then Some (av, None, ts)
      else if t = ''>'' \<or> t = ''>>'' then
        (case ts of [] \<Rightarrow> None | f # ts' \<Rightarrow> Some (av, Some (f, t = ''>>''), ts'))
      else pipe_segment ts (av @ [t]))"

text \<open>The lookup in the builtin table, whose names are an argument here.\<close>

definition cmd_is_builtin :: "string list \<Rightarrow> string list \<Rightarrow> bool" where
  "cmd_is_builtin tbl av \<longleftrightarrow>
     list_ex (\<lambda>n. n = hd av \<or> hd av = ''ll'' \<and> n = ''ls'') tbl"

record pipeline =
  cmds :: "command_t list"
  redir_file :: "string option"
  append_mode :: bool

lemma pipe_segment_shorter:
  "pipe_segment ts av = Some (av', rd, rest) \<Longrightarrow> ts \<noteq> [] \<Longrightarrow> length rest < length ts"
  by (induction ts av rule: pipe_segment.induct) (fastforce split: if_splits list.splits)+

function build_loop :: "string list \<Rightarrow> string list \<Rightarrow> pipeline \<Rightarrow> parse_error + pipeline" where
  "build_loop tbl toks pl =
     (if toks = [] then Inr pl
      else if length (cmds pl) \<ge> MAX_PIPE then Inl Parse_Error
      else case pipe_segment toks [] of
             None \<Rightarrow> Inl Parse_Error
           | Some (av, rd, rest) \<Rightarrow>
               let pl1 = (case rd of None \<Rightarrow> pl
                          | Some (f, app) \<Rightarrow> pl\<lparr>redir_file := Some f, append_mode := app\<rparr>)
               in if av = [] then build_loop tbl rest pl1
                  else if length av \<ge> MAX_TOKS then Inl (Fault Out_Of_Bounds)
                  else build_loop tbl rest
                         (pl1\<lparr>cmds := cmds pl @ [\<lparr>argv = av, argc = length av,
                                                   is_builtin = cmd_is_builtin tbl av\<rparr>]\<rparr>))"
  by pat_completeness auto
termination
  by (relation "measure (\<lambda>(tbl, toks, pl). length toks)") (auto dest: pipe_segment_shorter)

declare build_loop.simps [simp del]

definition build_pipeline :: "string list \<Rightarrow> string list \<Rightarrow> parse_error + pipeline" where
  "build_pipeline tbl toks = build_loop tbl toks \<lparr>cmds = [], redir_file = None, append_mode = False\<rparr>"

text \<open>What \<^verbatim>\<open>session_handle\<close> does with a line before it executes anything; \<open>None\<close> for \<^verbatim>\<open>continue\<close>.\<close>

definition parse_line :: "string list \<Rightarrow> string \<Rightarrow> (parse_error + pipeline) option" where
  "parse_line tbl line =
     (let ln = trim line in
      if ln = [] then None
      else case tokenize ln of
             Inl f \<Rightarrow> Some (Inl (Fault f))
           | Inr toks \<Rightarrow> if toks = [] then None else Some (build_pipeline tbl toks))"

section \<open>Spelling a command line\<close>

text \<open>
  How a user writes words: as they are when they hold no white space, operator or quote, or
  between double quotes when they hold no quote.
\<close>

definition plain_char :: "char \<Rightarrow> bool" where
  "plain_char c \<longleftrightarrow> \<not> c_isspace c \<and> \<not> is_op c \<and> c \<noteq> CHR 0x22"

definition is_operator :: "string \<Rightarrow> bool" where
  "is_operator t \<longleftrightarrow> t = ''|'' \<or> t = ''>'' \<or> t = ''>>''"

definition spells_word :: "string \<Rightarrow> string \<Rightarrow> bool" where
  "spells_word s w \<longleftrightarrow>
     s = w \<and> w \<noteq> [] \<and> list_all plain_char w \<or> s = CHR 0x22 # w @ [CHR 0x22] \<and> CHR 0x22 \<notin> set w"

definition spells :: "string \<Rightarrow> string \<Rightarrow> bool" where
  "spells s t \<longleftrightarrow> spells_word s t \<or> s = t \<and> is_operator t"

fun join_sp :: "string list \<Rightarrow> string" where
  "join_sp [] = []"
| "join_sp [s] = s"
| "join_sp (s # ss) = s @ CHR '' '' # join_sp ss"

fun redir_tokens :: "(string \<times> bool) option \<Rightarrow> string list" where
  "redir_tokens None = []"
| "redir_tokens (Some (f, app)) = [if app then ''>>'' else ''>'', f]"

fun pipe_tokens :: "string list list \<Rightarrow> (string \<times> bool) option \<Rightarrow> string list" where
  "pipe_tokens [] rd = redir_tokens rd"
| "pipe_tokens [ws] rd = ws @ redir_tokens rd"
| "pipe_tokens (ws # wss) rd = ws @ ''|'' # pipe_tokens wss rd"

definition mk_command :: "string list \<Rightarrow> string list \<Rightarrow> command_t" where
  "mk_command tbl ws = \<lparr>argv = ws, argc = length ws, is_builtin = cmd_is_builtin tbl ws\<rparr>"

definition mk_pipeline :: "string list \<Rightarrow> string list list \<Rightarrow> (string \<times> bool) option \<Rightarrow> pipeline" where
  "mk_pipeline tbl wss rd = \<lparr>cmds = map (mk_command tbl) wss,
     redir_file = map_option fst rd, append_mode = (case rd of None \<Rightarrow> False | Some (_, a) \<Rightarrow> a)\<rparr>"

definition word_ends :: "string \<Rightarrow> bool" where
  "word_ends r \<longleftrightarrow> (case r of [] \<Rightarrow> True | c # _ \<Rightarrow> c_isspace c \<or> is_op c)"

section \<open>Tokens\<close>

lemma quote_facts [simp]: "\<not> c_isspace CHR 0x22" "\<not> is_op CHR 0x22"
  by (simp_all add: c_isspace_def is_op_def)

lemma scan_word_stop: "word_ends r \<Longrightarrow> scan_word False r = ([], r)"
  by (cases r) (auto simp: word_ends_def)

lemma scan_word_plain: "list_all plain_char w \<Longrightarrow> word_ends r \<Longrightarrow> scan_word False (w @ r) = (w, r)"
  by (induction w) (simp_all add: scan_word_stop plain_char_def)

lemma scan_word_inside: "CHR 0x22 \<notin> set w \<Longrightarrow> word_ends r \<Longrightarrow>
    scan_word True (w @ CHR 0x22 # r) = (w @ [CHR 0x22], r)"
  by (induction w) (auto simp: scan_word_stop)

lemma strip_quotes_plain: "list_all plain_char w \<Longrightarrow> strip_quotes w = w"
  by (cases w) (auto simp: strip_quotes_def plain_char_def)

lemma strip_quotes_quoted [simp]: "strip_quotes (CHR 0x22 # w @ [CHR 0x22]) = w"
  by (simp add: strip_quotes_def)

lemma scan_spelled: "spells_word s w \<Longrightarrow> word_ends r \<Longrightarrow> \<exists>v. scan_word False (s @ r) = (v, r) \<and> strip_quotes v = w"
  by (auto simp: spells_word_def scan_word_plain strip_quotes_plain scan_word_inside)

lemma spells_word_hd: "spells_word s w \<Longrightarrow> \<exists>c s'. s = c # s' \<and> \<not> c_isspace c \<and> \<not> is_op c"
  by (cases s) (auto simp: spells_word_def plain_char_def)

lemma tokenize_word:
  assumes "spells_word s w" "word_ends r" "length toks < MAX_TOKS"
  shows "tokenize_loop (s @ r) toks = tokenize_loop r (toks @ [w])"
proof -
  obtain c s' where s: "s = c # s'" "\<not> c_isspace c" "\<not> is_op c" using spells_word_hd [OF assms(1)] by blast
  obtain v where v: "scan_word False (s @ r) = (v, r)" "strip_quotes v = w"
    using scan_spelled [OF assms(1,2)] by blast
  show ?thesis using s v assms(3) by (subst tokenize_loop.simps) (simp del: scan_word.simps)
qed

lemma tokenize_space: "c_isspace c \<Longrightarrow> tokenize_loop (c # r) toks = tokenize_loop r toks"
  by (subst (1 2) tokenize_loop.simps) simp

lemma tokenize_nil [simp]: "tokenize_loop [] toks = toks"
  by (subst tokenize_loop.simps) simp

lemma op_facts [simp]: "is_op CHR ''|''" "is_op CHR ''>''" "\<not> c_isspace CHR ''|''" "\<not> c_isspace CHR ''>''"
  "c_isspace CHR '' ''" "\<not> is_op CHR '' ''"
  by (simp_all add: is_op_def c_isspace_def)

lemma tokenize_operator:
  assumes "is_operator t" "r = [] \<or> hd r = CHR '' ''" "length toks < MAX_TOKS"
  shows "tokenize_loop (t @ r) toks = tokenize_loop r (toks @ [t])"
  using assms by (cases r) (auto simp: is_operator_def tokenize_loop.simps [of "_ # _"])

lemma tokenize_spelled:
  assumes "spells s t" "r = [] \<or> hd r = CHR '' ''" "length toks < MAX_TOKS"
  shows "tokenize_loop (s @ r) toks = tokenize_loop r (toks @ [t])"
proof (cases "spells_word s t")
  case True
  have "word_ends r" using assms(2) by (cases r) (auto simp: word_ends_def)
  with True show ?thesis using assms(3) by (rule tokenize_word)
next
  case False
  with assms show ?thesis by (auto simp: spells_def tokenize_operator)
qed

lemma tokenize_join:
  "list_all2 spells ss ts \<Longrightarrow> length toks + length ts \<le> MAX_TOKS \<Longrightarrow> tokenize_loop (join_sp ss) toks = toks @ ts"
proof (induction ss arbitrary: ts toks rule: join_sp.induct)
  case 1
  then show ?case by simp
next
  case (2 s)
  then show ?case using tokenize_spelled [of s "hd ts" "[]" toks] by (auto simp: list_all2_Cons1)
next
  case (3 s s2 ss)
  then obtain t ts' where ts: "ts = t # ts'" "spells s t" "list_all2 spells (s2 # ss) ts'"
    by (auto simp: list_all2_Cons1)
  with "3.prems" have "tokenize_loop (join_sp (s # s2 # ss)) toks
      = tokenize_loop (CHR '' '' # join_sp (s2 # ss)) (toks @ [t])"
    using tokenize_spelled [of s t "CHR '' '' # join_sp (s2 # ss)" toks] by simp
  also have "\<dots> = (toks @ [t]) @ ts'"
    unfolding tokenize_space [OF op_facts(5)] using "3.prems" ts by (intro "3.IH") auto
  finally show ?case using ts by simp
qed

lemma spells_ends: "spells s t \<Longrightarrow> s \<noteq> [] \<and> \<not> c_isspace (hd s) \<and> \<not> c_isspace (last s)"
proof -
  have plain: "\<not> c_isspace (hd w) \<and> \<not> c_isspace (last w)" if "w \<noteq> []" "list_all plain_char w" for w
    using that hd_in_set [of w] last_in_set [of w] by (auto simp: list_all_iff plain_char_def)
  assume "spells s t"
  then show ?thesis by (auto simp: spells_def spells_word_def is_operator_def plain)
qed

lemma dropWhile_hd: "s \<noteq> [] \<Longrightarrow> \<not> P (hd s) \<Longrightarrow> dropWhile P s = s"
  by (cases s) auto

lemma trim_id: "s \<noteq> [] \<Longrightarrow> \<not> c_isspace (hd s) \<Longrightarrow> \<not> c_isspace (last s) \<Longrightarrow> trim s = s"
  by (simp add: trim_def Let_def dropWhile_hd hd_rev)

lemma join_sp_ends:
  assumes "list_all2 spells ss ts" "ss \<noteq> []"
  shows "join_sp ss \<noteq> [] \<and> \<not> c_isspace (hd (join_sp ss)) \<and> \<not> c_isspace (last (join_sp ss))"
  using assms
proof (induction ss arbitrary: ts rule: join_sp.induct)
  case (2 s)
  then show ?case using spells_ends by (auto simp: list_all2_Cons1)
next
  case (3 s s2 ss)
  then obtain t ts' where ts: "spells s t" "list_all2 spells (s2 # ss) ts'" by (auto simp: list_all2_Cons1)
  from "3.IH" [OF this(2)] spells_ends [OF ts(1)] show ?case by (simp del: join_sp.simps) simp
qed simp

lemma trim_join_sp: "list_all2 spells ss ts \<Longrightarrow> ss \<noteq> [] \<Longrightarrow> trim (join_sp ss) = join_sp ss"
  using join_sp_ends [of ss ts] by (simp add: trim_id)

section \<open>Pipelines\<close>

lemma pipe_segment_words:
  "list_all (Not \<circ> is_operator) ws \<Longrightarrow> pipe_segment (ws @ ts) av = pipe_segment ts (av @ ws)"
  by (induction ws arbitrary: av) (auto simp: is_operator_def)

lemma pipe_tokens_Cons: "wss \<noteq> [] \<Longrightarrow> pipe_tokens (ws # wss) rd = ws @ ''|'' # pipe_tokens wss rd"
  by (cases wss) auto

lemma pipe_segment_redir:
  "pipe_segment (redir_tokens rd) av = Some (av, rd, [])"
  by (cases rd) auto

definition well_formed_words :: "string list list \<Rightarrow> bool" where
  "well_formed_words wss \<longleftrightarrow>
     list_all (\<lambda>ws. ws \<noteq> [] \<and> list_all (Not \<circ> is_operator) ws \<and> length ws < MAX_TOKS) wss"

lemma build_loop_tokens:
  assumes "well_formed_words wss" "wss \<noteq> []" "length (cmds pl) + length wss \<le> MAX_PIPE"
  shows "build_loop tbl (pipe_tokens wss rd) pl =
     Inr (case rd of None \<Rightarrow> pl\<lparr>cmds := cmds pl @ map (mk_command tbl) wss\<rparr>
          | Some (f, a) \<Rightarrow> pl\<lparr>cmds := cmds pl @ map (mk_command tbl) wss,
                              redir_file := Some f, append_mode := a\<rparr>)"
  using assms
proof (induction wss arbitrary: pl)
  case Nil
  then show ?case by simp
next
  case (Cons ws wss)
  have ws: "ws \<noteq> []" "list_all (Not \<circ> is_operator) ws" "length ws < MAX_TOKS" "length (cmds pl) < MAX_PIPE"
    and wss: "well_formed_words wss"
    using Cons.prems by (simp_all add: well_formed_words_def)
  show ?case
  proof (cases "wss = []")
    case True
    with ws show ?thesis
      by (subst build_loop.simps)
        (simp add: pipe_segment_words pipe_segment_redir mk_command_def build_loop.simps [of tbl "[]"]
          split: option.split)
  next
    case False
    have "build_loop tbl (pipe_tokens (ws # wss) rd) pl
        = build_loop tbl (pipe_tokens wss rd) (pl\<lparr>cmds := cmds pl @ [mk_command tbl ws]\<rparr>)"
      using ws False
      by (subst build_loop.simps) (simp add: pipe_tokens_Cons pipe_segment_words mk_command_def)
    also have "\<dots> = Inr (case rd of None \<Rightarrow> pl\<lparr>cmds := cmds pl @ map (mk_command tbl) (ws # wss)\<rparr>
          | Some (f, a) \<Rightarrow> pl\<lparr>cmds := cmds pl @ map (mk_command tbl) (ws # wss),
                              redir_file := Some f, append_mode := a\<rparr>)"
      using Cons.prems False wss by (subst Cons.IH) (auto split: option.split)
    finally show ?thesis .
  qed
qed

lemma build_pipeline_tokens:
  assumes "well_formed_words wss" "wss \<noteq> []" "length wss \<le> MAX_PIPE"
  shows "build_pipeline tbl (pipe_tokens wss rd) = Inr (mk_pipeline tbl wss rd)"
  using assms by (auto simp: build_pipeline_def build_loop_tokens mk_pipeline_def split: option.split)

lemma pipe_tokens_nonempty: "well_formed_words wss \<Longrightarrow> wss \<noteq> [] \<Longrightarrow> pipe_tokens wss rd \<noteq> []"
  by (cases "(wss, rd)" rule: pipe_tokens.cases) (auto simp: well_formed_words_def)

lemma pipe_tokens_shorter: "wss \<noteq> [] \<Longrightarrow> list_all (\<lambda>ws. length ws \<le> length (pipe_tokens wss rd)) wss"
  by (induction wss rd rule: pipe_tokens.induct) (auto simp: list_all_iff)

section \<open>Well-formed results\<close>

definition pipeline_ok :: "string list \<Rightarrow> pipeline \<Rightarrow> bool" where
  "pipeline_ok tbl pl \<longleftrightarrow> length (cmds pl) \<le> MAX_PIPE \<and>
     list_all (\<lambda>c. argv c \<noteq> [] \<and> argc c = length (argv c) \<and> argc c < MAX_TOKS
                   \<and> is_builtin c = cmd_is_builtin tbl (argv c)) (cmds pl)"

lemma build_loop_ok:
  "build_loop tbl toks pl = Inr pl' \<Longrightarrow> pipeline_ok tbl pl \<Longrightarrow> pipeline_ok tbl pl'"
proof (induction tbl toks pl rule: build_loop.induct)
  case (1 tbl toks pl)
  show ?case
    using "1.prems" "1.IH"
    by (subst (asm) build_loop.simps)
      (auto simp: pipeline_ok_def Let_def split: if_splits option.splits prod.splits)
qed

lemma build_pipeline_ok: "build_pipeline tbl toks = Inr pl \<Longrightarrow> pipeline_ok tbl pl"
  using build_loop_ok [of tbl toks "\<lparr>cmds = [], redir_file = None, append_mode = False\<rparr>" pl]
  by (simp add: build_pipeline_def pipeline_ok_def)

lemma pipe_segment_length:
  "pipe_segment ts av = Some (av', rd, rest) \<Longrightarrow> length av' + length rest \<le> length av + length ts"
  by (induction ts av rule: pipe_segment.induct) (fastforce split: if_splits list.splits)+

lemma build_loop_no_fault: "length toks < MAX_TOKS \<Longrightarrow> build_loop tbl toks pl \<noteq> Inl (Fault e)"
proof (induction tbl toks pl rule: build_loop.induct)
  case (1 tbl toks pl)
  show ?case
  proof (cases "toks = [] \<or> length (cmds pl) \<ge> MAX_PIPE \<or> pipe_segment toks [] = None")
    case True
    then show ?thesis by (subst build_loop.simps) auto
  next
    case False
    then obtain av rd rest where seg: "pipe_segment toks [] = Some (av, rd, rest)" by auto
    then have len: "length av < MAX_TOKS" "length rest < MAX_TOKS"
      using pipe_segment_length [OF seg] "1.prems" by auto
    show ?thesis
      using False seg len "1.IH" [OF _ _ seg refl refl refl]
      by (subst build_loop.simps) (auto simp: Let_def)
  qed
qed

lemma parse_line_spelled:
  assumes "list_all2 spells ss (pipe_tokens wss rd)" "well_formed_words wss" "wss \<noteq> []"
    "length wss \<le> MAX_PIPE" "length (pipe_tokens wss rd) < MAX_TOKS"
  shows "parse_line tbl (join_sp ss) = Some (Inr (mk_pipeline tbl wss rd))"
proof -
  have ne: "ss \<noteq> []" using assms(1) pipe_tokens_nonempty [OF assms(2,3)] by auto
  have "tokenize (join_sp ss) = Inr (pipe_tokens wss rd)"
    using assms(5) by (simp add: tokenize_def tokenize_join [OF assms(1), of "[]"])
  then show ?thesis
    using join_sp_ends [OF assms(1) ne] pipe_tokens_nonempty [OF assms(2,3)]
    by (simp add: parse_line_def trim_join_sp [OF assms(1) ne] build_pipeline_tokens [OF assms(2,3,4)])
qed

text \<open>The session takes a line for empty exactly when it holds nothing but white space.\<close>

lemma tokenize_loop_grows: "length toks \<le> length (tokenize_loop line toks)"
proof (induction line toks rule: tokenize_loop.induct)
  case (1 line toks)
  show ?case
    by (subst tokenize_loop.simps) (use 1 in \<open>fastforce simp: Let_def split: list.split prod.split\<close>)
qed

lemma tokenize_loop_nonempty: "dropWhile c_isspace line = c # p \<Longrightarrow> tokenize_loop line [] \<noteq> []"
proof -
  assume d: "dropWhile c_isspace line = c # p"
  have "tokenize_loop r [t] \<noteq> []" for r t using tokenize_loop_grows [of "[t]" r] by auto
  with d show ?thesis by (subst tokenize_loop.simps) (auto simp: Let_def MAX_TOKS_def split: prod.split)
qed

lemma parse_line_blank: "parse_line tbl s = None \<longleftrightarrow> list_all c_isspace s"
proof (cases "list_all c_isspace s")
  case True
  then have d: "dropWhile c_isspace s = []" by (simp add: list_all_iff)
  have "trim s = []" by (simp only: trim_def Let_def d) simp
  with True show ?thesis by (simp add: parse_line_def Let_def)
next
  case False
  then obtain d where d: "d \<in> set s" "\<not> c_isspace d" by (auto simp: list_all_iff)
  then have "d \<in> set (dropWhile c_isspace s)" by (metis Un_iff set_append set_takeWhileD takeWhile_dropWhile_id)
  then have "d \<in> set (trim s)"
    using d(2) by (simp add: trim_def Let_def) (metis Un_iff set_append set_rev set_takeWhileD takeWhile_dropWhile_id)
  then have t: "trim s \<noteq> []" "dropWhile c_isspace (trim s) \<noteq> []" using d(2) by auto
  then obtain c p where "trim s \<noteq> []" "dropWhile c_isspace (trim s) = c # p"
    by (meson neq_Nil_conv)
  with tokenize_loop_nonempty [OF this(2)] False show ?thesis
    by (auto simp: parse_line_def tokenize_def Let_def split: sum.split if_splits)
qed

lemma tokenize_loop_pipes:
  "length toks \<le> MAX_TOKS \<Longrightarrow>
     tokenize_loop (replicate n CHR ''|'') toks = toks @ replicate (min (MAX_TOKS - length toks) n) ''|''"
proof (induction n arbitrary: toks)
  case (Suc n)
  have "min (MAX_TOKS - length toks) (Suc n) = Suc (min (MAX_TOKS - Suc (length toks)) n)"
    if "length toks < MAX_TOKS" using that by linarith
  with Suc show ?case by (cases "length toks < MAX_TOKS") (simp_all add: tokenize_loop.simps [of "_ # _"])
qed simp

section \<open>Properties\<close>

text \<open>
  Property C1. Parsing inverts spelling: every pipeline of at most \<^verbatim>\<open>MAX_PIPE\<close> non-empty
  commands with an optional final redirection, whose words are spelled plainly or between
  double quotes and separated by single spaces, is parsed back to exactly those commands,
  that redirection file and that append mode.
\<close>

theorem parse_line_roundtrip:
  assumes "list_all2 spells ss (pipe_tokens wss rd)" and "well_formed_words wss" and "wss \<noteq> []"
    and "length wss \<le> MAX_PIPE" and "length (pipe_tokens wss rd) < MAX_TOKS"
  shows "parse_line tbl (join_sp ss) = Some (Inr (mk_pipeline tbl wss rd))"
  using assms by (rule parse_line_spelled)

theorem parse_line_roundtrip_witness:
  "parse_line [''ls'', ''cat''] ''ls \"my dir\" | grep x >> out''
     = Some (Inr (mk_pipeline [''ls'', ''cat''] [[''ls'', ''my dir''], [''grep'', ''x'']] (Some (''out'', True))))"
proof -
  let ?ss = "[''ls'', CHR 0x22 # ''my dir'' @ [CHR 0x22], ''|'', ''grep'', ''x'', ''>>'', ''out'']"
  have "list_all2 spells ?ss (pipe_tokens [[''ls'', ''my dir''], [''grep'', ''x'']] (Some (''out'', True)))"
    by (simp add: spells_def spells_word_def is_operator_def plain_char_def c_isspace_def is_op_def)
  from parse_line_roundtrip [OF this, of "[''ls'', ''cat'']"] show ?thesis
    by (simp add: well_formed_words_def is_operator_def MAX_PIPE_def MAX_TOKS_def)
qed

text \<open>
  Property C30. Whatever the line, a pipeline that the parser hands to \<^verbatim>\<open>execute_pipeline\<close> has at
  most \<^verbatim>\<open>MAX_PIPE\<close> commands, each with at least one word, an \<^verbatim>\<open>argc\<close> equal to its number of
  words and below \<^verbatim>\<open>MAX_TOKS\<close> (so the terminating NULL is inside \<^verbatim>\<open>argv\<close>), and an
  \<^verbatim>\<open>is_builtin\<close> flag that says whether its first word is in the builtin table; and the only
  fault of parsing is the one of \<^verbatim>\<open>tokenize\<close>.
\<close>

theorem parse_line_safe:
  "(\<forall>pl. parse_line tbl line = Some (Inr pl) \<longrightarrow> pipeline_ok tbl pl) \<and>
   (\<forall>e. parse_line tbl line = Some (Inl (Fault e)) \<longrightarrow> tokenize (trim line) = Inl e)"
  using build_loop_no_fault [of _ tbl]
  by (auto simp: parse_line_def Let_def build_pipeline_ok build_pipeline_def tokenize_def
      split: if_splits sum.splits dest!: build_pipeline_ok [unfolded build_pipeline_def])

theorem parse_line_safe_witness:
  "pipeline_ok [''ps''] (mk_pipeline [''ps''] [[''ps'']] None)"
proof -
  have "parse_line [''ps''] ''ps'' = Some (Inr (mk_pipeline [''ps''] [[''ps'']] None))"
    by code_simp
  then show ?thesis using parse_line_safe [of "[''ps'']" "''ps''"] by blast
qed

text \<open>
  Property C40. A line of \<open>n\<close> pipe characters is tokenised into \<open>n\<close> tokens when \<open>n\<close> is below
  \<^verbatim>\<open>MAX_TOKS\<close>; from \<^verbatim>\<open>MAX_TOKS\<close> on, which is far below \<^verbatim>\<open>MAX_LINE\<close>, the terminating NULL
  pointer is stored one past the end of the caller's token array.
\<close>

theorem tokenize_pipes_overflow:
  "tokenize (replicate n CHR ''|'') =
     (if n < MAX_TOKS then Inr (replicate n ''|'') else Inl Out_Of_Bounds) \<and> MAX_TOKS < MAX_LINE"
  by (simp add: tokenize_def tokenize_loop_pipes MAX_LINE_def MAX_TOKS_def min_def)

text \<open>
  Double quotes do not protect an operator: a quoted bar between two plain words
  still splits the line into two commands, because the token is compared after its quotes
  were removed.
\<close>

theorem quoted_bar_is_pipe:
  assumes "a \<noteq> []" and "list_all plain_char a" and "b \<noteq> []" and "list_all plain_char b"
  shows "parse_line tbl (a @ '' \"|\" '' @ b) = Some (Inr (mk_pipeline tbl [[a], [b]] None))"
proof -
  have "list_all2 spells [a, ''\"|\"'', b] (pipe_tokens [[a], [b]] None)"
    using assms by (simp add: spells_def spells_word_def)
  moreover have "well_formed_words [[a], [b]]"
    using assms by (auto simp: well_formed_words_def is_operator_def plain_char_def MAX_TOKS_def)
  ultimately have "parse_line tbl (join_sp [a, ''\"|\"'', b]) = Some (Inr (mk_pipeline tbl [[a], [b]] None))"
    by (rule parse_line_spelled) (simp_all add: MAX_PIPE_def MAX_TOKS_def)
  then show ?thesis by simp
qed

theorem quoted_bar_is_pipe_witness:
  "parse_line [''cat''] ''cat \"|\" b'' = Some (Inr (mk_pipeline [''cat''] [[''cat''], [''b'']] None))"
  using quoted_bar_is_pipe [of "''cat''" "''b''" "[''cat'']"]
  by (simp add: plain_char_def c_isspace_def is_op_def)

end
