(* ===== verification/Line_Input.thy ===== *)
theory Line_Input
  imports Os
begin

text \<open>
  Reading lines from a descriptor one byte at a time: \<^verbatim>\<open>read_line\<close> of \<^verbatim>\<open>src/session.c\<close> and
  \<^verbatim>\<open>safe_read_line\<close> of \<^verbatim>\<open>src/util.c\<close>, and the contract both keep, as the locale
  \<open>line_reader\<close>: carriage returns are dropped, a line feed ends the line and is consumed, and
  at most \<open>max - 1\<close> characters are stored.
\<close>

section \<open>The code\<close>

text \<open>\<^verbatim>\<open>read_line\<close>: the result \<open>None\<close> is the return value \<^verbatim>\<open>-1\<close> (end of input or an error).\<close>

partial_function (option) read_line_loop ::
    "'w os \<Rightarrow> int \<Rightarrow> nat \<Rightarrow> string \<Rightarrow> 'w \<Rightarrow> (string option \<times> 'w) option" where
  "read_line_loop os fd mx buf w =
     (if length buf + 1 < mx then
        case os_read os fd 1 w of
          (Inl e, w1) \<Rightarrow> Some (None, w1)
        | (Inr s, w1) \<Rightarrow>
            if s = [] then Some (None, w1)
            else if hd s = CHR 0x0D then read_line_loop os fd mx buf w1
            else if hd s = CHR 0x0A then Some (Some buf, w1)
            else read_line_loop os fd mx (buf @ [hd s]) w1
      else Some (Some buf, w))"

declare read_line_loop.simps [code]

definition read_line :: "'w os \<Rightarrow> int \<Rightarrow> nat \<Rightarrow> 'w \<Rightarrow> (string option \<times> 'w) option" where
  "read_line os fd mx w = read_line_loop os fd mx [] w"

section \<open>The contract of a line reader\<close>

definition drop_cr :: "string \<Rightarrow> string" where
  "drop_cr s = filter (\<lambda>c. c \<noteq> CHR 0x0D) s"

locale line_reader =
  fixes rl :: "'w os \<Rightarrow> int \<Rightarrow> nat \<Rightarrow> 'w \<Rightarrow> (string option \<times> 'w) option"
  assumes line: "reads_from os fd inp \<Longrightarrow> inp w = a @ CHR 0x0A # rest \<Longrightarrow> CHR 0x0A \<notin> set a \<Longrightarrow>
      length (drop_cr a) + 1 < mx \<Longrightarrow> \<exists>w1. rl os fd mx w = Some (Some (drop_cr a), w1) \<and> inp w1 = rest"
    and stored: "rl os fd mx w = Some (Some s, w1) \<Longrightarrow> 0 < mx \<Longrightarrow>
      length s < mx \<and> CHR 0x0A \<notin> set s \<and> CHR 0x0D \<notin> set s"
begin

text \<open>A line ended by a telnet client with carriage return and line feed reads as the line.\<close>

lemma crlf_line:
  assumes "reads_from os fd inp" "inp w = a @ CHR 0x0D # CHR 0x0A # rest"
    "CHR 0x0A \<notin> set a" "CHR 0x0D \<notin> set a" "length a + 1 < mx"
  shows "\<exists>w1. rl os fd mx w = Some (Some a, w1) \<and> inp w1 = rest"
proof -
  have "drop_cr (a @ [CHR 0x0D]) = a" using assms(4) by (auto simp: drop_cr_def intro: filter_True)
  then show ?thesis
    using line [OF assms(1), of w "a @ [CHR 0x0D]" rest mx] assms by simp
qed

text \<open>Two lines in the stream are returned by two calls, in order.\<close>

lemma two_lines:
  assumes "reads_from os fd inp" "inp w = a @ CHR 0x0A # b @ CHR 0x0A # rest"
    "CHR 0x0A \<notin> set (a @ b)" "length (drop_cr a) + 1 < mx" "length (drop_cr b) + 1 < mx"
  shows "\<exists>w1 w2. rl os fd mx w = Some (Some (drop_cr a), w1) \<and> rl os fd mx w1 = Some (Some (drop_cr b), w2)
      \<and> inp w2 = rest"
proof -
  obtain w1 where "rl os fd mx w = Some (Some (drop_cr a), w1)" "inp w1 = b @ CHR 0x0A # rest"
    using line [OF assms(1,2) _ assms(4)] assms(3) by auto
  with line [OF assms(1) this(2) _ assms(5)] assms(3) show ?thesis by auto
qed

end

section \<open>Both readers keep it\<close>

lemma read_one:
  assumes "reads_from os fd inp" "inp w = c # r"
  obtains w1 where "os_read os fd 1 w = (Inr [c], w1)" "inp w1 = r"
proof (rule reads_fromE [OF assms(1), of 1 w])
  fix k w1 assume k: "os_read os fd 1 w = (Inr (take k (inp w)), w1)" "inp w1 = drop k (inp w)" "k \<le> 1"
    "inp w \<noteq> [] \<Longrightarrow> 0 < k"
  with assms(2) have "k = 1" by simp
  with k assms(2) that show thesis by simp
qed simp

lemma read_line_loop_line:
  "reads_from os fd inp \<Longrightarrow> inp w = a @ CHR 0x0A # rest \<Longrightarrow> CHR 0x0A \<notin> set a \<Longrightarrow>
     length buf + length (drop_cr a) + 1 < mx \<Longrightarrow>
     \<exists>w1. read_line_loop os fd mx buf w = Some (Some (buf @ drop_cr a), w1) \<and> inp w1 = rest"
proof (induction a arbitrary: buf w)
  case Nil
  then obtain w1 where "os_read os fd 1 w = (Inr [CHR 0x0A], w1)" "inp w1 = rest"
    using read_one [OF Nil(1), of w "CHR 0x0A" rest] by auto
  with Nil show ?case by (subst read_line_loop.simps) (simp add: drop_cr_def)
next
  case (Cons c a)
  then obtain w1 where w1: "os_read os fd 1 w = (Inr [c], w1)" "inp w1 = a @ CHR 0x0A # rest"
    using read_one [OF Cons.prems(1), of w c "a @ CHR 0x0A # rest"] by auto
  have "\<exists>w2. read_line_loop os fd mx (buf @ drop_cr [c]) w1 = Some (Some ((buf @ drop_cr [c]) @ drop_cr a), w2)
      \<and> inp w2 = rest"
    using Cons.prems w1(2) by (intro Cons.IH) (auto simp: drop_cr_def split: if_splits)
  with w1(1) Cons.prems show ?case by (subst read_line_loop.simps) (auto simp: drop_cr_def)
qed

lemma safe_read_line_loop_line:
  "reads_from os fd inp \<Longrightarrow> inp w = a @ CHR 0x0A # rest \<Longrightarrow> CHR 0x0A \<notin> set a \<Longrightarrow>
     length buf + length (drop_cr a) + 1 < mx \<Longrightarrow>
     \<exists>w1. safe_read_line_loop os fd mx buf w = Some (Some (buf @ drop_cr a), w1) \<and> inp w1 = rest"
proof (induction a arbitrary: buf w)
  case Nil
  then obtain w1 where "os_read os fd 1 w = (Inr [CHR 0x0A], w1)" "inp w1 = rest"
    using read_one [OF Nil(1), of w "CHR 0x0A" rest] by auto
  with Nil show ?case by (subst safe_read_line_loop.simps) (simp add: drop_cr_def)
next
  case (Cons c a)
  then obtain w1 where w1: "os_read os fd 1 w = (Inr [c], w1)" "inp w1 = a @ CHR 0x0A # rest"
    using read_one [OF Cons.prems(1), of w c "a @ CHR 0x0A # rest"] by auto
  have "\<exists>w2. safe_read_line_loop os fd mx (buf @ drop_cr [c]) w1 = Some (Some ((buf @ drop_cr [c]) @ drop_cr a), w2)
      \<and> inp w2 = rest"
    using Cons.prems w1(2) by (intro Cons.IH) (auto simp: drop_cr_def split: if_splits)
  with w1(1) Cons.prems show ?case by (subst safe_read_line_loop.simps) (auto simp: drop_cr_def)
qed

definition line_stored :: "nat \<Rightarrow> string \<Rightarrow> bool" where
  "line_stored mx s \<longleftrightarrow> length s < mx \<and> CHR 0x0A \<notin> set s \<and> CHR 0x0D \<notin> set s"

lemmas read_line_induct = read_line_loop.raw_induct [rotated 1, consumes 1, case_names step]
lemmas safe_read_line_induct = safe_read_line_loop.raw_induct [rotated 1, consumes 1, case_names step]

lemma read_line_loop_stored:
  "read_line_loop os fd mx buf w = Some y \<Longrightarrow> fst y = Some s \<Longrightarrow> line_stored mx buf \<Longrightarrow> line_stored mx s"
proof (induction os fd mx buf w y rule: read_line_induct)
  case (step f os fd mx buf w y)
  then show ?case
    by (auto simp: line_stored_def split: if_splits prod.splits sum.splits)
qed

lemma safe_read_line_loop_stored:
  "safe_read_line_loop os fd mx buf w = Some y \<Longrightarrow> fst y = Some s \<Longrightarrow> line_stored mx buf \<Longrightarrow> line_stored mx s"
proof (induction os fd mx buf w y rule: safe_read_line_induct)
  case (step f os fd mx buf w y)
  then show ?case
    by (auto simp: line_stored_def split: if_splits prod.splits sum.splits)
qed

text \<open>Reading a line does nothing but read: what other descriptors see is kept.\<close>

lemma read_line_loop_keeps:
  "read_line_loop os fd mx buf w = Some y \<Longrightarrow> read_keeps os fd v \<Longrightarrow> v (snd y) = v w"
proof (induction os fd mx buf w y rule: read_line_induct)
  case (step f os fd mx buf w y)
  obtain r w1 where r: "os_read os fd 1 w = (r, w1)" by fastforce
  note k = read_keepsD [OF step.prems r]
  show ?case
  proof (cases r)
    case (Inl e)
    with step.hyps r k show ?thesis by (auto split: if_splits)
  next
    case (Inr s)
    with step.hyps r k step.IH [OF _ step.prems] show ?thesis by (auto split: if_splits)
  qed
qed

lemma read_line_keeps: "read_line os fd mx w = Some (r, w1) \<Longrightarrow> read_keeps os fd v \<Longrightarrow> v w1 = v w"
  using read_line_loop_keeps [of os fd mx "[]" w "(r, w1)" v] by (simp add: read_line_def)

interpretation session_lines: line_reader read_line
proof unfold_locales
  fix os fd inp w a rest mx
  assume a: "reads_from os fd inp" "inp w = a @ CHR 0x0A # rest" "CHR 0x0A \<notin> set a" "length (drop_cr a) + 1 < mx"
  then show "\<exists>w1. read_line os fd mx w = Some (Some (drop_cr a), w1) \<and> inp w1 = rest"
    using read_line_loop_line [of os fd inp w a rest "[]" mx] by (simp add: read_line_def)
next
  fix os fd mx w s w1
  assume "read_line os fd mx w = Some (Some s, w1)" "0 < mx"
  then show "length s < mx \<and> CHR 0x0A \<notin> set s \<and> CHR 0x0D \<notin> set s"
    using read_line_loop_stored [of os fd mx "[]" w _ s] by (simp add: read_line_def line_stored_def)
qed

interpretation util_lines: line_reader safe_read_line
proof unfold_locales
  fix os fd inp w a rest mx
  assume a: "reads_from os fd inp" "inp w = a @ CHR 0x0A # rest" "CHR 0x0A \<notin> set a" "length (drop_cr a) + 1 < mx"
  then show "\<exists>w1. safe_read_line os fd mx w = Some (Some (drop_cr a), w1) \<and> inp w1 = rest"
    using safe_read_line_loop_line [of os fd inp w a rest "[]" mx] by (simp add: safe_read_line_def)
next
  fix os fd mx w s w1
  assume "safe_read_line os fd mx w = Some (Some s, w1)" "0 < mx"
  then show "length s < mx \<and> CHR 0x0A \<notin> set s \<and> CHR 0x0D \<notin> set s"
    using safe_read_line_loop_stored [of os fd mx "[]" w _ s] by (simp add: safe_read_line_def line_stored_def)
qed

section \<open>Properties\<close>

text \<open>The session reads CRLF and LF terminated lines alike: when the input starts with two lines
  that fit the buffer (the session's is 2048 bytes), two calls of \<^verbatim>\<open>read_line\<close> return them in
  order without their terminators and carriage returns, and leave the rest of the input unread.\<close>

theorem read_line_two_lines:
  assumes "reads_from os fd inp" "inp w = a @ CHR 0x0A # b @ CHR 0x0A # rest"
    "CHR 0x0A \<notin> set (a @ b)" "length (drop_cr a) + 1 < mx" "length (drop_cr b) + 1 < mx"
  shows "\<exists>w1 w2. read_line os fd mx w = Some (Some (drop_cr a), w1) \<and> read_line os fd mx w1 = Some (Some (drop_cr b), w2)
      \<and> inp w2 = rest"
  by (rule session_lines.two_lines [OF assms])

theorem read_line_two_lines_witness:
  "\<exists>w1 w2. read_line console_os 0 2048 (''ls'' @ [CHR 0x0D, CHR 0x0A] @ ''pwd'' @ [CHR 0x0A] @ ''x'', []) = Some (Some ''ls'', w1)
      \<and> read_line console_os 0 2048 w1 = Some (Some ''pwd'', w2) \<and> fst w2 = ''x''"
  using read_line_two_lines [OF console_laws(1), of "(''ls'' @ [CHR 0x0D, CHR 0x0A] @ ''pwd'' @ [CHR 0x0A] @ ''x'', [])"
      "''ls'' @ [CHR 0x0D]" "''pwd''" "''x''" 2048 0]
  by (simp add: drop_cr_def)

text \<open>Neither line reader overruns its buffer, whatever arrives: a line returned by
  \<^verbatim>\<open>read_line\<close> or by \<^verbatim>\<open>safe_read_line\<close> is shorter than the buffer, so that its terminating NUL fits,
  and it holds no line terminator.\<close>

theorem line_readers_bounded:
  assumes "0 < mx" "rl \<in> {read_line, safe_read_line}" "rl os fd mx w = Some (Some s, w1)"
  shows "length s < mx \<and> CHR 0x0A \<notin> set s \<and> CHR 0x0D \<notin> set s"
  using assms session_lines.stored [of os fd mx w s w1] util_lines.stored [of os fd mx w s w1] by blast

theorem line_readers_bounded_witness:
  "\<exists>s w1. safe_read_line console_os 0 3 (''abcd'', []) = Some (Some s, w1) \<and> length s < 3"
proof -
  have "safe_read_line console_os 0 3 (''abcd'', []) = Some (Some ''ab'', (''cd'', []))"
    by (simp add: safe_read_line_def safe_read_line_loop.simps)
  moreover from this have "length ''ab'' < 3"
    by (intro line_readers_bounded [of 3 safe_read_line, THEN conjunct1]) auto
  ultimately show ?thesis by blast
qed

end
