(* ===== verification/Session.thy ===== *)
theory Session
  imports Commands Session_Parse Line_Input
begin

text \<open>
  The session of \<^verbatim>\<open>src/session.c\<close>: the execution of a pipeline (its pipes, forks, descriptors
  and exit codes) and the read-execute loop of \<^verbatim>\<open>session_handle\<close>. \<^verbatim>\<open>fork\<close> returns 0 in the child,
  so one definition describes the parent and every child, according to what it returned.

  A session runs builtins, the builtin \<^verbatim>\<open>serverctl start\<close> runs a server and a server runs sessions.
  The sessions of a nested server are an argument of \<open>session_handle\<close>, and \<open>session_at\<close>
  closes the circle by the depth of the nesting.
\<close>

section \<open>Pipelines\<close>

text \<open>The pipes between \<open>n + 1\<close> commands; \<open>None\<close> after a failed \<^verbatim>\<open>pipe\<close>.\<close>

fun make_pipes :: "'w os \<Rightarrow> nat \<Rightarrow> (int \<times> int) list \<Rightarrow> 'w \<Rightarrow> (int \<times> int) list option \<times> 'w" where
  "make_pipes os 0 ps w = (Some ps, w)"
| "make_pipes os (Suc n) ps w =
     (case os_pipe os w of
        (Inl e, w1) \<Rightarrow> (None, w1)
      | (Inr p, w1) \<Rightarrow> make_pipes os n (ps @ [p]) w1)"

fun close_pipes :: "'w os \<Rightarrow> (int \<times> int) list \<Rightarrow> 'w \<Rightarrow> 'w" where
  "close_pipes os [] w = w"
| "close_pipes os (p # ps) w = close_pipes os ps (os_close os (snd p) (os_close os (fst p) w))"

text \<open>
  The descriptors of child \<open>i\<close> of \<open>n\<close>; \<open>False\<close> where the redirection file cannot be
  opened.
\<close>

definition child_fds ::
    "'w os \<Rightarrow> (int \<times> int) list \<Rightarrow> nat \<Rightarrow> nat \<Rightarrow> string option \<Rightarrow> bool \<Rightarrow> 'w \<Rightarrow> bool \<times> 'w" where
  "child_fds os pipes i n redir app w =
     (let w1 = (if i > 0 then os_dup2 os (fst (pipes ! (i - 1))) 0 w else w);
          (ok, w2) =
            (if i < n - 1 then (True, os_dup2 os (snd (pipes ! i)) 1 w1)
             else case redir of
                    None \<Rightarrow> (True, w1)
                  | Some f \<Rightarrow>
                      (case os_open os f (if app then [O_WRONLY, O_CREAT, O_APPEND] else [O_WRONLY, O_CREAT, O_TRUNC]) w1 of
                         (Inl e, w2) \<Rightarrow> (False, out os ''redir open failed\<newline>'' w2)
                       | (Inr fd, w2) \<Rightarrow> (True, os_close os fd (os_dup2 os fd 1 w2))))
      in if ok then (True, close_pipes os pipes w2) else (False, w2))"

text \<open>The exit status of a child that ran a builtin.\<close>

fun child_exit :: "int outcome \<times> 'w \<Rightarrow> int outcome \<times> 'w" where
  "child_exit (Ret rc, w) = (Exit (if rc < 0 then 1 else if rc = 255 then 0 else rc), w)"
| "child_exit (Exit n, w) = (Exit n, w)"
| "child_exit (Execed, w) = (Execed, w)"
| "child_exit (Crashed, w) = (Crashed, w)"

definition run_child ::
    "'w os \<Rightarrow> 'w spawner \<Rightarrow> 'w session \<Rightarrow> pipeline \<Rightarrow> (int \<times> int) list \<Rightarrow> nat \<Rightarrow> int \<Rightarrow> 'w \<Rightarrow> (int outcome \<times> 'w) option" where
  "run_child os spawn session pl pipes i lpid w =
     (case child_fds os pipes i (length (cmds pl)) (redir_file pl) (append_mode pl) w of
        (False, w1) \<Rightarrow> Some (Exit 1, w1)
      | (True, w1) \<Rightarrow>
          (let c = cmds pl ! i;
               w2 = os_setenv os ''SESSION_LISTENER_PID'' (show_int lpid) w1
           in if is_builtin c
              then map_option child_exit (run_builtin_in_current os spawn session (argv c) w2)
              else case os_execvp os (hd (argv c)) (argv c) w2 of
                     (None, w3) \<Rightarrow> Some (Execed, w3)
                   | (Some e, w3) \<Rightarrow> Some (Exit 127, out os (''exec failed: '' @ hd (argv c) @ ''\<newline>'') w3)))"

text \<open>The loop of forks, from command \<open>i\<close> on with \<open>k\<close> to go; \<open>Ret\<close> in the parent.\<close>

fun fork_loop ::
    "'w os \<Rightarrow> 'w spawner \<Rightarrow> 'w session \<Rightarrow> pipeline \<Rightarrow> (int \<times> int) list \<Rightarrow> int \<Rightarrow> nat \<Rightarrow> nat \<Rightarrow> 'w \<Rightarrow> (int outcome \<times> 'w) option" where
  "fork_loop os spawn session pl pipes lpid i 0 w = Some (Ret 0, w)"
| "fork_loop os spawn session pl pipes lpid i (Suc k) w =
     (case os_fork os w of
        (Inl e, w1) \<Rightarrow> fork_loop os spawn session pl pipes lpid (Suc i) k w1
      | (Inr pid, w1) \<Rightarrow>
          if pid = 0 then run_child os spawn session pl pipes i lpid w1
          else fork_loop os spawn session pl pipes lpid (Suc i) k w1)"

text \<open>The loop of waits: the last exit code that was seen.\<close>

fun wait_loop :: "'w os \<Rightarrow> nat \<Rightarrow> int \<Rightarrow> 'w \<Rightarrow> int \<times> 'w" where
  "wait_loop os 0 code w = (code, w)"
| "wait_loop os (Suc n) code w =
     (case os_wait os w of
        (Exited_With c, w1) \<Rightarrow> wait_loop os n c w1
      | (Signalled s, w1) \<Rightarrow> wait_loop os n code w1)"

definition execute_pipeline ::
    "'w os \<Rightarrow> 'w spawner \<Rightarrow> 'w session \<Rightarrow> pipeline \<Rightarrow> int \<Rightarrow> 'w \<Rightarrow> (int outcome \<times> 'w) option" where
  "execute_pipeline os spawn session pl lpid w =
     (if cmds pl = [] then Some (Ret 0, w)
      else if length (cmds pl) = 1 \<and> is_builtin (hd (cmds pl)) \<and> redir_file pl = None then
        map_option (\<lambda>(r, w1). (case r of Ret rc \<Rightarrow> Ret (if rc = 255 then - 2 else rc) | _ \<Rightarrow> r, w1))
          (run_builtin_in_current os spawn session (argv (hd (cmds pl))) w)
      else
        (case make_pipes os (length (cmds pl) - 1) [] w of
           (None, w1) \<Rightarrow> Some (Ret (- 1), out os ''pipe error\<newline>'' w1)
         | (Some pipes, w1) \<Rightarrow>
             do {
               (r, w2) \<leftarrow> fork_loop os spawn session pl pipes lpid 0 (length (cmds pl)) w1;
               case r of
                 Ret u \<Rightarrow>
                   (case wait_loop os (length (cmds pl)) 0 (close_pipes os pipes w2) of
                      (code, w3) \<Rightarrow> Some (Ret code, w3))
               | _ \<Rightarrow> Some (r, w2)
             }))"

section \<open>The session loop\<close>

text \<open>What the loop does with one line: whether it goes on.\<close>

datatype verdict = Go_On | Leave | Gone "unit outcome"

definition run_line ::
    "'w os \<Rightarrow> 'w spawner \<Rightarrow> 'w session \<Rightarrow> int \<Rightarrow> string \<Rightarrow> 'w \<Rightarrow> (verdict \<times> 'w) option" where
  "run_line os spawn session lpid line w =
     (case parse_line (map bi_name builtin_table) (c_str line) of
        None \<Rightarrow> Some (Go_On, w)
      | Some (Inl (Fault f)) \<Rightarrow> Some (Gone Crashed, w)
      | Some (Inl Parse_Error) \<Rightarrow> Some (Go_On, out os ''parse error\<newline>'' w)
      | Some (Inr pl) \<Rightarrow>
          map_option (\<lambda>(r, w1).
              (case r of Ret rc \<Rightarrow> if rc = - 2 then Leave else Go_On
               | Exit n \<Rightarrow> Gone (Exit n) | Execed \<Rightarrow> Gone Execed | Crashed \<Rightarrow> Gone Crashed, w1))
            (execute_pipeline os spawn session pl lpid w))"

partial_function (option) session_loop ::
    "'w os \<Rightarrow> 'w spawner \<Rightarrow> 'w session \<Rightarrow> int \<Rightarrow> 'w \<Rightarrow> (unit outcome \<times> 'w) option" where
  "session_loop os spawn session lpid w =
     do {
       (line, w1) \<leftarrow> read_line os 0 MAX_LINE (out os ''$ '' w);
       case line of
         None \<Rightarrow> Some (Ret (), w1)
       | Some ln \<Rightarrow> do {
           (v, w2) \<leftarrow> run_line os spawn session lpid ln w1;
           case v of
             Go_On \<Rightarrow> session_loop os spawn session lpid w2
           | Leave \<Rightarrow> Some (Ret (), w2)
           | Gone r \<Rightarrow> Some (r, w2)
         }
     }"

declare session_loop.simps [code]

definition session_handle :: "'w os \<Rightarrow> 'w spawner \<Rightarrow> 'w session \<Rightarrow> 'w session" where
  "session_handle os spawn session fd remote_ip lpid w =
     (let w1 = snd (dprintf os fd (''Pseudo-SSH (unencrypted) - remote '' @ remote_ip @ ''\<newline>'') w);
          w2 = snd (dprintf os fd (''Type '' @ [CHR 0x27] @ ''help'' @ [CHR 0x27] @ '' for builtins.\<newline>'') w1);
          w3 = os_dup2 os fd 2 (os_dup2 os fd 1 (os_dup2 os fd 0 w2))
      in session_loop os spawn session lpid w3)"

text \<open>Sessions inside servers inside sessions, to the depth \<open>n\<close>; the program is the root.\<close>

fun session_at :: "'w os \<Rightarrow> 'w spawner \<Rightarrow> nat \<Rightarrow> 'w session" where
  "session_at os spawn 0 fd ip lpid w = None"
| "session_at os spawn (Suc n) fd ip lpid w = session_handle os spawn (session_at os spawn n) fd ip lpid w"

definition program :: "'w os \<Rightarrow> 'w spawner \<Rightarrow> nat \<Rightarrow> string list \<Rightarrow> 'w \<Rightarrow> (int outcome \<times> 'w) option" where
  "program os spawn n av w = sshsvr_main os (session_at os spawn n) av w"

section \<open>Descriptors\<close>

text \<open>
  What is documented of the calls on descriptors, on a table of what each descriptor refers
  to: duplicating and closing, and opening files and pipes on free descriptors from 3 on.
\<close>

definition fd_laws :: "'w os \<Rightarrow> ('w \<Rightarrow> int \<Rightarrow> 'o option) \<Rightarrow> bool" where
  "fd_laws os fdt \<longleftrightarrow>
     (\<forall>a b w. fdt w a \<noteq> None \<longrightarrow> fdt (os_dup2 os a b w) = (fdt w)(b := fdt w a))
   \<and> (\<forall>fd w. fdt (os_close os fd w) = (fdt w)(fd := None))"

definition opens :: "'w os \<Rightarrow> ('w \<Rightarrow> int \<Rightarrow> 'o option) \<Rightarrow> (string \<Rightarrow> open_flag list \<Rightarrow> 'o) \<Rightarrow> bool" where
  "opens os fdt fobj \<longleftrightarrow>
     (\<forall>f fl w. \<exists>fd w1. os_open os f fl w = (Inr fd, w1) \<and> 2 < fd \<and> fdt w fd = None \<and> fdt w1 = (fdt w)(fd \<mapsto> fobj f fl))"

definition pipe_laws :: "'w os \<Rightarrow> ('w \<Rightarrow> int \<Rightarrow> 'o option) \<Rightarrow> bool" where
  "pipe_laws os fdt \<longleftrightarrow>
     (\<forall>w. \<exists>r x w1 a b. os_pipe os w = (Inr (r, x), w1) \<and> r \<noteq> x \<and> fdt w r = None \<and> fdt w x = None
          \<and> fdt w1 = (fdt w)(r \<mapsto> a, x \<mapsto> b))"

definition pipe_fds :: "(int \<times> int) list \<Rightarrow> int set" where
  "pipe_fds ps = set (map fst ps) \<union> set (map snd ps)"

lemma close_pipes_fdt:
  assumes "fd_laws os fdt"
  shows "fdt (close_pipes os ps w) = (\<lambda>fd. if fd \<in> pipe_fds ps then None else fdt w fd)"
proof (induction ps arbitrary: w)
  case (Cons p ps)
  have "fdt (os_close os (snd p) (os_close os (fst p) w)) = (fdt w)(fst p := None, snd p := None)"
    using assms by (simp add: fd_laws_def)
  then show ?case by (auto simp: Cons pipe_fds_def fun_eq_iff)
qed (simp add: pipe_fds_def)

definition redir_flags :: "bool \<Rightarrow> open_flag list" where
  "redir_flags app = (if app then [O_WRONLY, O_CREAT, O_APPEND] else [O_WRONLY, O_CREAT, O_TRUNC])"

lemma nth_pipe_fds: "j < length ps \<Longrightarrow> fst (ps ! j) \<in> pipe_fds ps \<and> snd (ps ! j) \<in> pipe_fds ps"
  by (simp add: pipe_fds_def)

text \<open>Property C7.
  The descriptors of each child of a pipeline: command \<open>i\<close> of \<open>n\<close> reads from pipe \<open>i - 1\<close> unless it is
  the first, writes to pipe \<open>i\<close> unless it is the last, the last one writes to the redirection
  file when there is one (opened for appending or truncated), no other end of a pipe is left open
  in it, and every other descriptor is the session's.\<close>

theorem child_plumbing:
  assumes "fd_laws os fdt" "opens os fdt fobj" "i < n" "length pipes = n - 1"
    "\<forall>fd\<in>pipe_fds pipes. 2 < fd \<and> fdt w fd \<noteq> None"
  shows "\<exists>w1. child_fds os pipes i n redir app w = (True, w1) \<and> fdt w1 =
    (\<lambda>fd. if fd = 0 \<and> 0 < i then fdt w (fst (pipes ! (i - 1)))
          else if fd = 1 \<and> i < n - 1 then fdt w (snd (pipes ! i))
          else if fd = 1 \<and> redir \<noteq> None then Some (fobj (the redir) (redir_flags app))
          else if fd \<in> pipe_fds pipes then None else fdt w fd)"
proof -
  define w1 where "w1 = (if 0 < i then os_dup2 os (fst (pipes ! (i - 1))) 0 w else w)"
  have p: "2 < fst (pipes ! j) \<and> 2 < snd (pipes ! j) \<and> fdt w (fst (pipes ! j)) \<noteq> None \<and> fdt w (snd (pipes ! j)) \<noteq> None"
    if "j < n - 1" for j using nth_pipe_fds [of j pipes] assms(4,5) that by auto
  have dup: "fdt (os_dup2 os a b v) = (fdt v)(b := fdt v a)" if "fdt v a \<noteq> None" for a b v
    using assms(1) that by (simp add: fd_laws_def)
  have f1: "fdt w1 = (\<lambda>fd. if fd = 0 \<and> 0 < i then fdt w (fst (pipes ! (i - 1))) else fdt w fd)"
    using p [of "i - 1"] assms(3) dup by (auto simp: w1_def fun_eq_iff)
  have small: "0 \<notin> pipe_fds pipes" "1 \<notin> pipe_fds pipes" using assms(5) by auto
  consider "i < n - 1" | "\<not> i < n - 1" "redir = None" | f where "\<not> i < n - 1" "redir = Some f" by auto
  then show ?thesis
  proof cases
    case 1
    have s: "fdt w1 (snd (pipes ! i)) = fdt w (snd (pipes ! i))" "fdt w1 (snd (pipes ! i)) \<noteq> None"
      using p [OF 1] f1 by auto
    have "child_fds os pipes i n redir app w = (True, close_pipes os pipes (os_dup2 os (snd (pipes ! i)) 1 w1))"
      using 1 by (simp add: child_fds_def w1_def Let_def)
    moreover have "fdt (os_dup2 os (snd (pipes ! i)) 1 w1) = (fdt w1)(1 := fdt w (snd (pipes ! i)))"
      using dup [OF s(2)] s(1) by simp
    ultimately show ?thesis using 1 small by (auto simp: close_pipes_fdt [OF assms(1)] f1 fun_eq_iff)
  next
    case 2
    then have "child_fds os pipes i n redir app w = (True, close_pipes os pipes w1)"
      by (simp add: child_fds_def w1_def Let_def)
    then show ?thesis using 2 small by (auto simp: close_pipes_fdt [OF assms(1)] f1 fun_eq_iff)
  next
    case 3
    obtain fd w2 where o: "os_open os f (redir_flags app) w1 = (Inr fd, w2)" "2 < fd" "fdt w1 fd = None"
      "fdt w2 = (fdt w1)(fd \<mapsto> fobj f (redir_flags app))" using assms(2) unfolding opens_def by blast
    have "child_fds os pipes i n redir app w = (True, close_pipes os pipes (os_close os fd (os_dup2 os fd 1 w2)))"
      using 3 o(1) by (simp add: child_fds_def w1_def [symmetric] redir_flags_def Let_def)
    moreover have "fdt (os_close os fd (os_dup2 os fd 1 w2)) = (fdt w1)(1 \<mapsto> fobj f (redir_flags app))"
      using o(2-4) dup [of w2 fd 1] assms(1) by (auto simp: fd_laws_def fun_eq_iff)
    ultimately show ?thesis using 3 small by (auto simp: close_pipes_fdt [OF assms(1)] f1 fun_eq_iff)
  qed
qed

text \<open>A kernel with a descriptor table, an association list in which the first entry counts.\<close>

type_synonym fdlist = "(int \<times> string) list"

definition fd_os :: "fdlist os" where
  "fd_os = null_os\<lparr>
     os_dup2 := (\<lambda>a b t. case map_of t a of None \<Rightarrow> t | Some o1 \<Rightarrow> (b, o1) # t),
     os_close := (\<lambda>fd t. filter (\<lambda>x. fst x \<noteq> fd) t),
     os_open := (\<lambda>f fl t. (Inr (fresh_fd t), (fresh_fd t, f) # t)),
     os_pipe := (\<lambda>t. (Inr (fresh_fd t, fresh_fd t + 1), (fresh_fd t + 1, ''w'') # (fresh_fd t, ''r'') # t)),
     os_fork := (\<lambda>t. (Inr 7, t))\<rparr>"

lemma fd_os_laws: "fd_laws fd_os map_of" "opens fd_os map_of (\<lambda>f fl. f)" "pipe_laws fd_os map_of"
  by (auto simp: fd_laws_def opens_def pipe_laws_def fd_os_def fresh_fd map_of_close fun_eq_iff)

theorem child_plumbing_witness:
  "\<exists>w1. child_fds fd_os [(3, 4)] 1 2 (Some ''out'') False [(0, ''sock''), (1, ''sock''), (3, ''r''), (4, ''w'')] = (True, w1)
    \<and> map_of w1 0 = Some ''r'' \<and> map_of w1 1 = Some ''out'' \<and> map_of w1 4 = None"
proof -
  let ?p = "[(3, 4)] :: (int \<times> int) list"
  let ?w = "[(0, ''sock''), (1, ''sock''), (3, ''r''), (4, ''w'')] :: fdlist"
  have "\<forall>fd\<in>pipe_fds ?p. 2 < fd \<and> map_of ?w fd \<noteq> None" by (simp add: pipe_fds_def)
  then have "\<exists>w1. child_fds fd_os ?p 1 2 (Some ''out'') False ?w = (True, w1) \<and> map_of w1 =
    (\<lambda>fd. if fd = 0 \<and> 0 < (1::nat) then map_of ?w (fst (?p ! (1 - 1)))
          else if fd = 1 \<and> (1::nat) < 2 - 1 then map_of ?w (snd (?p ! 1))
          else if fd = 1 \<and> Some ''out'' \<noteq> None then Some (the (Some ''out''))
          else if fd \<in> pipe_fds ?p then None else map_of ?w fd)"
    by (intro child_plumbing [where fobj = "\<lambda>f fl. f"] fd_os_laws) simp_all
  then show ?thesis by (fastforce simp: pipe_fds_def)
qed

lemma make_pipes_fdt:
  "pipe_laws os fdt \<Longrightarrow> pipe_fds ps \<inter> dom F = {} \<Longrightarrow> (\<And>fd. fdt w fd \<noteq> None \<longleftrightarrow> fd \<in> pipe_fds ps \<or> F fd \<noteq> None) \<Longrightarrow>
    (\<And>fd. fd \<notin> pipe_fds ps \<Longrightarrow> fdt w fd = F fd) \<Longrightarrow>
    \<exists>ps1 w1. make_pipes os n ps w = (Some ps1, w1) \<and> pipe_fds ps1 \<inter> dom F = {}
      \<and> (\<forall>fd. fd \<notin> pipe_fds ps1 \<longrightarrow> fdt w1 fd = F fd)"
proof (induction n arbitrary: ps w)
  case (Suc n)
  obtain r x w1 a b where p: "os_pipe os w = (Inr (r, x), w1)" "r \<noteq> x" "fdt w r = None" "fdt w x = None"
    "fdt w1 = (fdt w)(r \<mapsto> a, x \<mapsto> b)" using Suc.prems(1) unfolding pipe_laws_def by blast
  have fr: "F r = None" "F x = None" using Suc.prems(3) [of r] Suc.prems(3) [of x] p(3,4) by auto
  have e: "pipe_fds (ps @ [(r, x)]) = insert r (insert x (pipe_fds ps))" by (auto simp: pipe_fds_def)
  have "\<exists>ps1 w2. make_pipes os n (ps @ [(r, x)]) w1 = (Some ps1, w2) \<and> pipe_fds ps1 \<inter> dom F = {}
      \<and> (\<forall>fd. fd \<notin> pipe_fds ps1 \<longrightarrow> fdt w2 fd = F fd)"
    by (rule Suc.IH [OF Suc.prems(1)]) (use fr Suc.prems(2-4) p in \<open>auto simp: e\<close>)
  then show ?case using p(1) by simp
qed auto


text \<open>The parent: every fork returns the id of a child, and neither it nor a wait changes the table.\<close>

definition parent_laws :: "'w os \<Rightarrow> ('w \<Rightarrow> int \<Rightarrow> 'o option) \<Rightarrow> bool" where
  "parent_laws os fdt \<longleftrightarrow>
     (\<forall>w. \<exists>pid w1. os_fork os w = (Inr pid, w1) \<and> pid \<noteq> 0 \<and> fdt w1 = fdt w)
   \<and> (\<forall>w. fdt (snd (os_wait os w)) = fdt w)"

lemma fork_loop_parent:
  assumes "parent_laws os fdt"
  shows "\<exists>w1. fork_loop os spawn session pl pipes lpid i k w = Some (Ret 0, w1) \<and> fdt w1 = fdt w"
proof (induction k arbitrary: i w)
  case (Suc k)
  obtain pid w1 where "os_fork os w = (Inr pid, w1)" "pid \<noteq> 0" "fdt w1 = fdt w"
    using assms unfolding parent_laws_def by blast
  with Suc [of "Suc i" w1] show ?case by simp
qed simp

lemma wait_loop_fdt: "parent_laws os fdt \<Longrightarrow> fdt (snd (wait_loop os n c w)) = fdt w"
proof (induction n arbitrary: c w)
  case (Suc n)
  obtain s w1 where s: "os_wait os w = (s, w1)" by fastforce
  have "fdt w1 = fdt w" using Suc.prems s unfolding parent_laws_def by (metis snd_conv)
  with Suc s show ?case by (cases s) simp_all
qed simp

text \<open>A pipeline does not leak descriptors into the session: when the commands of a pipeline (or a
  single command that is redirected or not a builtin) have been forked and waited for, the
  session's descriptor table is what it was before.\<close>

theorem pipeline_no_leak:
  assumes "fd_laws os fdt" "pipe_laws os fdt" "parent_laws os fdt" "cmds pl \<noteq> []"
    "length (cmds pl) > 1 \<or> \<not> is_builtin (hd (cmds pl)) \<or> redir_file pl \<noteq> None"
  shows "\<exists>code w1. execute_pipeline os spawn session pl lpid w = Some (Ret code, w1) \<and> fdt w1 = fdt w"
proof -
  let ?n = "length (cmds pl)"
  have nb: "\<not> (?n = 1 \<and> is_builtin (hd (cmds pl)) \<and> redir_file pl = None)" using assms(5) by auto
  obtain ps w1 where m: "make_pipes os (?n - 1) [] w = (Some ps, w1)" "pipe_fds ps \<inter> dom (fdt w) = {}"
    "\<And>fd. fd \<notin> pipe_fds ps \<Longrightarrow> fdt w1 fd = fdt w fd"
    using make_pipes_fdt [OF assms(2), of "[]" "fdt w" w "?n - 1"] by (auto simp: pipe_fds_def)
  obtain w2 where f: "fork_loop os spawn session pl ps lpid 0 ?n w1 = Some (Ret 0, w2)" "fdt w2 = fdt w1"
    using fork_loop_parent [OF assms(3)] by blast
  obtain code w3 where l: "wait_loop os ?n 0 (close_pipes os ps w2) = (code, w3)" by fastforce
  have "fdt w3 = fdt (close_pipes os ps w2)" using wait_loop_fdt [OF assms(3)] l by (metis snd_conv)
  also have "\<dots> = fdt w"
  proof
    fix fd
    have "fdt w fd = None" if "fd \<in> pipe_fds ps" using m(2) that by blast
    then show "fdt (close_pipes os ps w2) fd = fdt w fd" using m(3) [of fd] f(2) by (simp add: close_pipes_fdt [OF assms(1)])
  qed
  finally have "fdt w3 = fdt w" .
  then show ?thesis unfolding execute_pipeline_def if_not_P [OF assms(4)] if_not_P [OF nb] m(1) by (simp add: f(1) l)
qed

theorem pipeline_no_leak_witness:
  "\<exists>code w1. execute_pipeline fd_os (\<lambda>d av w. Some (Ret (- 1), w)) (\<lambda>fd ip lp w. None)
      \<lparr>cmds = [\<lparr>argv = [''ls''], argc = 1, is_builtin = True\<rparr>, \<lparr>argv = [''cat''], argc = 1, is_builtin = True\<rparr>],
       redir_file = None, append_mode = False\<rparr> 77 [(0, ''sock'')] = Some (Ret code, w1)
    \<and> map_of w1 = map_of [(0, ''sock'')]"
  by (rule pipeline_no_leak [OF fd_os_laws(1,3)]) (simp_all add: parent_laws_def fd_os_def null_os_def)

section \<open>The loop\<close>

text \<open>A line that fits the buffer and is blank (nothing but white space) or does not parse.\<close>

definition idle_line :: "string \<Rightarrow> bool" where
  "idle_line a \<longleftrightarrow> CHR 0x0A \<notin> set a \<and> length (drop_cr a) + 1 < MAX_LINE
     \<and> (list_all c_isspace (c_str (drop_cr a))
        \<or> parse_line (map bi_name builtin_table) (c_str (drop_cr a)) = Some (Inl Parse_Error))"

lemma exit_line:
  "run_line os spawn session lpid ''exit'' w = Some (Leave, w)"
proof -
  have p: "parse_line (map bi_name builtin_table) (c_str ''exit'') =
     Some (Inr \<lparr>cmds = [\<lparr>argv = [''exit''], argc = 1, is_builtin = True\<rparr>], redir_file = None, append_mode = False\<rparr>)"
    by code_simp
  have "run_builtin_in_current os spawn session [''exit''] w = Some (Ret 255, w)"
    by (simp add: run_builtin_in_current_def builtin_table_def g_builtins_def bi_def cmd_exit_def ret_def)
  then show ?thesis unfolding run_line_def p by (simp add: execute_pipeline_def)
qed

lemma session_step:
  assumes "reads_from os 0 inp" "write_keeps os 1 inp" "writes_all os 1 outv" "read_keeps os 0 outv"
    "inp w = a @ CHR 0x0A # rest" "CHR 0x0A \<notin> set a" "length (drop_cr a) + 1 < MAX_LINE"
  obtains w1 where "read_line os 0 MAX_LINE (out os ''$ '' w) = Some (Some (drop_cr a), w1)" "inp w1 = rest"
    "outv w1 = outv w @ ''$ ''"
proof -
  obtain w1 where w1: "read_line os 0 MAX_LINE (out os ''$ '' w) = Some (Some (drop_cr a), w1)" "inp w1 = rest"
    using session_lines.line [OF assms(1) _ assms(6,7), of "out os ''$ '' w" rest] out_keeps [OF assms(2)] assms(5) by auto
  have "outv w1 = outv (out os ''$ '' w)" by (rule read_line_keeps [OF w1(1) assms(4)])
  with w1 out_writes [OF assms(3), of "''$ ''" w] that show thesis by simp
qed

text \<open>What the session answers to such a line: nothing to a blank one, a message to one that does not
  parse.\<close>

definition idle_reply :: "string \<Rightarrow> string" where
  "idle_reply a = (if list_all c_isspace (c_str (drop_cr a)) then [] else ''parse error\<newline>'')"

lemma idle_step:
  assumes "idle_line a" "writes_all os 1 outv" "write_keeps os 1 inp"
  obtains w1 where "run_line os spawn session lpid (drop_cr a) w = Some (Go_On, w1)" "inp w1 = inp w"
    "outv w1 = outv w @ idle_reply a"
proof (cases "list_all c_isspace (c_str (drop_cr a))")
  case True
  then have "run_line os spawn session lpid (drop_cr a) w = Some (Go_On, w)"
    by (simp add: run_line_def parse_line_blank [THEN iffD2])
  with True that show ?thesis by (simp add: idle_reply_def)
next
  case False
  then have "run_line os spawn session lpid (drop_cr a) w = Some (Go_On, out os ''parse error\<newline>'' w)"
    using assms(1) by (simp add: run_line_def idle_line_def)
  with False that out_keeps [OF assms(3)] out_writes [OF assms(2)] show ?thesis by (simp add: idle_reply_def)
qed

text \<open>Property C17.
  A session ends on \<^verbatim>\<open>exit\<close>: when the client sends any number of lines that are blank (only white space) or do not parse
  and then \<^verbatim>\<open>exit\<close>, the loop prompts for every line, answers nothing to a blank line and
  \<^verbatim>\<open>parse error\<close> to one that does not parse, prompts once more, reads the \<^verbatim>\<open>exit\<close> and returns. It has
  written exactly these prompts and answers, in this order, and what the client sent after the
  \<^verbatim>\<open>exit\<close> is not read.\<close>

theorem session_exits:
  assumes "reads_from os 0 inp" "write_keeps os 1 inp" "writes_all os 1 outv" "read_keeps os 0 outv"
    "\<forall>a\<in>set ls. idle_line a" "inp w = concat (map (\<lambda>a. a @ ''\<newline>'') ls) @ ''exit\<newline>'' @ rest"
  shows "\<exists>w1. session_loop os spawn session lpid w = Some (Ret (), w1) \<and> inp w1 = rest
    \<and> outv w1 = outv w @ concat (map (\<lambda>a. ''$ '' @ idle_reply a) ls) @ ''$ ''"
  using assms(5,6)
proof (induction ls arbitrary: w)
  case Nil
  obtain w1 where w1: "read_line os 0 MAX_LINE (out os ''$ '' w) = Some (Some (drop_cr ''exit''), w1)" "inp w1 = rest"
    "outv w1 = outv w @ ''$ ''"
    by (rule session_step [OF assms(1-4), of w "''exit''" rest]) (use Nil in \<open>auto simp: drop_cr_def MAX_LINE_def\<close>)
  moreover have "drop_cr ''exit'' = ''exit''" by (simp add: drop_cr_def)
  ultimately show ?case by (subst session_loop.simps) (simp add: exit_line)
next
  case (Cons a ls)
  have a: "idle_line a" using Cons.prems by simp
  obtain w1 where w1: "read_line os 0 MAX_LINE (out os ''$ '' w) = Some (Some (drop_cr a), w1)"
    "inp w1 = concat (map (\<lambda>a. a @ ''\<newline>'') ls) @ ''exit\<newline>'' @ rest" "outv w1 = outv w @ ''$ ''"
    by (rule session_step [OF assms(1-4), of w a]) (use Cons.prems a in \<open>auto simp: idle_line_def\<close>)
  obtain w2 where w2: "run_line os spawn session lpid (drop_cr a) w1 = Some (Go_On, w2)" "inp w2 = inp w1"
    "outv w2 = outv w1 @ idle_reply a" by (rule idle_step [OF a assms(3,2)])
  with Cons.IH [of w2] Cons.prems(1) w1(2) obtain w3 where
    "session_loop os spawn session lpid w2 = Some (Ret (), w3)" "inp w3 = rest"
    "outv w3 = outv w2 @ concat (map (\<lambda>a. ''$ '' @ idle_reply a) ls) @ ''$ ''" by auto
  then show ?case using w1(1,3) w2(1,3) by (subst session_loop.simps) simp
qed

theorem session_exits_witness:
  "\<exists>w1. session_loop console_os (\<lambda>d av w. Some (Ret (- 1), w)) (\<lambda>fd ip lp w. None) 77 (''  '' @ ''\<newline>'' @ ''ls >'' @ ''\<newline>exit\<newline>more'', [])
     = Some (Ret (), w1) \<and> fst w1 = ''more'' \<and> snd w1 = ''$ $ parse error\<newline>$ ''"
proof -
  have p: "list_all c_isspace (c_str (drop_cr ''  ''))" "\<not> list_all c_isspace (c_str (drop_cr ''ls >''))"
    "parse_line (map bi_name builtin_table) (c_str (drop_cr ''ls >'')) = Some (Inl Parse_Error)" by code_simp+
  then have "\<forall>a\<in>set [''  '', ''ls >'']. idle_line a" by (simp add: idle_line_def drop_cr_def MAX_LINE_def)
  from session_exits [OF console_laws(1,5) console_writes_all console_laws(4) this] p show ?thesis
    by (simp add: idle_reply_def)
qed

end
