(* ===== verification/Descriptors.thy ===== *)
theory Descriptors
  imports Session
begin

text \<open>
  The builtins and the descriptor table of the session: whatever a builtin opens, files, sockets, the pidfile, it
  closes on every path on which it returns. The kernel's table is an interface, the locale \<open>fd_kernel\<close>; the rules of
  the collection \<open>tables\<close> say for each call, and then for each function, what it makes of the table.
\<close>

section \<open>The kernel's descriptor table\<close>

named_theorems tables \<open>what a call makes of the descriptor table\<close>

text \<open>A loader that leaves what \<open>v\<close> sees of the calling process alone.\<close>

definition quiet :: "('w \<Rightarrow> 'a) \<Rightarrow> 'w spawner \<Rightarrow> bool" where
  "quiet v spawn \<longleftrightarrow> (\<forall>data av w r w1. spawn data av w = Some (Ret r, w1) \<longrightarrow> v w1 = v w)"

locale fd_kernel =
  fixes os :: "'w os" and fdt :: "'w \<Rightarrow> int \<Rightarrow> 'o option"
  assumes dup2_table: "fdt w a \<noteq> None \<Longrightarrow> fdt (os_dup2 os a b w) = (fdt w)(b := fdt w a)"
    and close_table [simp]: "fdt (os_close os fd w) = (fdt w)(fd := None)"
    and open_table [tables]: "os_open os f fl w = (Inl e, w1) \<Longrightarrow> fdt w1 = fdt w"
      "os_open os f fl w = (Inr fd, w1) \<Longrightarrow> fdt w1 fd \<noteq> None \<and> (fdt w1)(fd := None) = fdt w"
    and socket_table [tables]: "os_socket os w = (Inl e, w1) \<Longrightarrow> fdt w1 = fdt w"
      "os_socket os w = (Inr fd, w1) \<Longrightarrow> fdt w1 fd \<noteq> None \<and> (fdt w1)(fd := None) = fdt w"
    and accept_table [tables]: "os_accept os fd w = (Inl e, w1) \<Longrightarrow> fdt w1 = fdt w"
      "os_accept os fd w = (Inr c, w1) \<Longrightarrow> fdt w1 (fst c) \<noteq> None \<and> (fdt w1)(fst c := None) = fdt w"
    and pipe_table [tables]: "os_pipe os w = (Inl e, w1) \<Longrightarrow> fdt w1 = fdt w"
      "os_pipe os w = (Inr pp, w1) \<Longrightarrow> fst pp \<noteq> snd pp \<and> fdt w1 (fst pp) \<noteq> None \<and> fdt w1 (snd pp) \<noteq> None
         \<and> (fdt w1)(fst pp := None, snd pp := None) = fdt w"
    and keeps [simp]: "fdt (snd (os_read os fd n w)) = fdt w" "fdt (snd (os_write os fd s w)) = fdt w"
      "fdt (snd (os_lseek_end os fd w)) = fdt w" "fdt (os_lseek_start os fd w) = fdt w"
      "fdt (snd (os_stat os p w)) = fdt w" "fdt (snd (os_lstat os p w)) = fdt w" "fdt (snd (os_readdir os p w)) = fdt w"
      "fdt (snd (os_unlink os p w)) = fdt w" "fdt (snd (os_rmdir os p w)) = fdt w" "fdt (snd (os_mkdir os p w)) = fdt w"
      "fdt (snd (os_rename os p q w)) = fdt w" "fdt (snd (os_chdir os p w)) = fdt w" "fdt (snd (os_getcwd os w)) = fdt w"
      "fdt (snd (os_access os p w)) = fdt w"
      "fdt (snd (os_kill os i j w)) = fdt w" "fdt (snd (os_fork os w)) = fdt w" "fdt (snd (os_waitpid os i w)) = fdt w"
      "fdt (snd (os_wait os w)) = fdt w" "fdt (snd (os_sysctl_size os w)) = fdt w" "fdt (snd (os_sysctl_procs os i w)) = fdt w"
      "fdt (os_usleep os n w) = fdt w" "fdt (snd (os_connect os fd n w)) = fdt w" "fdt (snd (os_select os fd n w)) = fdt w"
      "fdt (snd (os_bind os fd n w)) = fdt w" "fdt (snd (os_listen os fd n w)) = fdt w" "fdt (os_reuseaddr os fd w) = fdt w"
      "fdt (os_sigaction os i w) = fdt w" "fdt (snd (os_set_name os s w)) = fdt w"
      "fdt (os_setenv os p q w) = fdt w" "fdt (os_putenv os s w) = fdt w" "fdt (os_klog os s w) = fdt w" "fdt (os_klog_perror os s w) = fdt w"
      "fdt (snd (os_term_signal os w)) = fdt w"
begin

text \<open>The laws as the case splits of the code meet them.\<close>

lemma keeps_pair [tables]:
  "os_read os fd n w = (r1, w1) \<Longrightarrow> fdt w1 = fdt w" "os_write os fd s w = (r2, w1) \<Longrightarrow> fdt w1 = fdt w"
  "os_lseek_end os fd w = (r3, w1) \<Longrightarrow> fdt w1 = fdt w" "os_stat os p w = (r4, w1) \<Longrightarrow> fdt w1 = fdt w"
  "os_lstat os p w = (r4, w1) \<Longrightarrow> fdt w1 = fdt w" "os_readdir os p w = (r5, w1) \<Longrightarrow> fdt w1 = fdt w"
  "os_unlink os p w = (r6, w1) \<Longrightarrow> fdt w1 = fdt w" "os_rmdir os p w = (r6, w1) \<Longrightarrow> fdt w1 = fdt w"
  "os_mkdir os p w = (r6, w1) \<Longrightarrow> fdt w1 = fdt w" "os_rename os p q w = (r6, w1) \<Longrightarrow> fdt w1 = fdt w"
  "os_chdir os p w = (r6, w1) \<Longrightarrow> fdt w1 = fdt w" "os_getcwd os w = (r7, w1) \<Longrightarrow> fdt w1 = fdt w"
  "os_access os p w = (r6, w1) \<Longrightarrow> fdt w1 = fdt w"
  "os_kill os i j w = (r6, w1) \<Longrightarrow> fdt w1 = fdt w" "os_fork os w = (r8, w1) \<Longrightarrow> fdt w1 = fdt w"
  "os_waitpid os i w = (r9, w1) \<Longrightarrow> fdt w1 = fdt w" "os_wait os w = (r9, w1) \<Longrightarrow> fdt w1 = fdt w"
  "os_sysctl_size os w = (r8, w1) \<Longrightarrow> fdt w1 = fdt w" "os_sysctl_procs os i w = (r10, w1) \<Longrightarrow> fdt w1 = fdt w"
  "os_connect os fd n w = (r6, w1) \<Longrightarrow> fdt w1 = fdt w" "os_select os fd n w = (r11, w1) \<Longrightarrow> fdt w1 = fdt w"
  "os_bind os fd n w = (r6, w1) \<Longrightarrow> fdt w1 = fdt w" "os_listen os fd n w = (r6, w1) \<Longrightarrow> fdt w1 = fdt w"
  "os_set_name os s w = (r12, w1) \<Longrightarrow> fdt w1 = fdt w" "os_term_signal os w = (r13, w1) \<Longrightarrow> fdt w1 = fdt w"
  by (metis keeps snd_conv)+

lemma out_table [simp]: "fdt (out os s w) = fdt w"
  by (auto simp: out_def dprintf_def split: prod.split sum.split dest!: tables)

lemma print_error_table [simp]: "fdt (print_error os s e w) = fdt w"
  by (simp add: print_error_def)

text \<open>The builtins.\<close>

lemma do_ls_entry_table [simp]: "fdt (snd (do_ls_entry os path n l w)) = fdt w"
  by (auto simp: do_ls_entry_def split: prod.splits sum.splits dest!: tables)

lemma ls_entries_table [simp]: "fdt (ls_entries os path l a ns w) = fdt w"
  by (induction ns arbitrary: w) auto

lemma ls_recursive_table [simp]: "fdt (snd (ls_recursive os path l a w)) = fdt w"
  by (auto simp: ls_recursive_def split: prod.splits sum.splits dest!: tables)

lemma ls_one_table [simp]: "fdt (ls_one os l a p w) = fdt w"
  by (auto simp: ls_one_def split: prod.splits sum.splits dest!: tables)

lemma ls_args_table [simp]: "fdt (ls_args os l a r as w) = fdt w"
  by (induction as arbitrary: w) simp_all

lemma cmd_ls_table: "fdt (snd (cmd_ls os av w)) = fdt w"
  by (auto simp: cmd_ls_def Let_def split: prod.splits sum.splits dest!: tables)

lemma while_ok_table:
  "while_ok f xs w = Some y \<Longrightarrow> (\<And>x v z. x \<in> set xs \<Longrightarrow> f x v = Some z \<Longrightarrow> fdt (snd z) = fdt v) \<Longrightarrow> fdt (snd y) = fdt w"
proof (induction xs arbitrary: w)
  case (Cons x xs)
  from Cons.prems(1) obtain r w1 where f: "f x w = Some (r, w1)" by (auto split: option.splits)
  have e: "fdt w1 = fdt w" using Cons.prems(2) [OF _ f] by simp
  show ?case
  proof (cases r)
    case (Inr u)
    with Cons.prems(1) f have "while_ok f xs w1 = Some y" by simp
    from Cons.IH [OF this] Cons.prems(2) e show ?thesis by (metis list.set_intros(2))
  qed (use Cons.prems(1) f e in auto)
qed auto

lemma recurse_rm_table_of: "recurse_rm os' path w = Some y \<Longrightarrow> os' = os \<Longrightarrow> fdt (snd y) = fdt w"
proof (induction os' path w y rule: recurse_rm_induct)
  case (step f os' path w y)
  have kids: "fdt (snd z) = fdt v" if "while_ok (\<lambda>n. f os (path_join path n)) ns v = Some z" for ns v z
    using that by (rule while_ok_table) (use step in blast)
  show ?case using step(2,3)
    by (auto split: prod.splits sum.splits if_splits option.splits elim!: bind_SomeE dest!: tables kids)
qed

lemmas recurse_rm_table [tables] = recurse_rm_table_of [OF _ refl]

lemma rm_args_table [tables]: "rm_args os r as w = Some w1 \<Longrightarrow> fdt w1 = fdt w"
proof (induction as arbitrary: w)
  case (Cons a as)
  show ?case
  proof (cases r)
    case True
    with Cons.prems obtain x v where "recurse_rm os a w = Some (x, v)"
      "rm_args os r as (case x of Inl e \<Rightarrow> print_error os a e v | Inr u \<Rightarrow> v) = Some w1" by (auto simp: bind_eq_Some_conv)
    then show ?thesis using Cons.IH recurse_rm_table by (cases x) fastforce+
  qed (use Cons in \<open>auto split: prod.splits option.splits dest!: tables\<close>)
qed simp

lemma cmd_rm_table [tables]: "cmd_rm os av w = Some y \<Longrightarrow> fdt (snd y) = fdt w"
  by (auto simp: cmd_rm_def Let_def split: if_splits dest!: tables)

text \<open>Two descriptors that were opened are closed, in the order in which they were opened.\<close>

lemma close_both: "T(i := None) = (F :: int \<Rightarrow> 'o option) \<Longrightarrow> U(j := None) = T \<Longrightarrow> U(i := None, j := None) = F"
  by (cases "i = j") (auto simp: fun_upd_twist)

lemma copy_loop_table_of:
  "copy_loop os' i j w = Some y \<Longrightarrow> os' = os \<Longrightarrow> fdt (snd y) = (fdt w)(i := None, j := None)"
proof (induction os' i j w y rule: copy_loop.raw_induct [rotated 1, consumes 1, case_names step])
  case (step f os' i j w y)
  show ?case using step(2) step(1) [OF _ step(3)] unfolding step(3)
    by (auto split: prod.splits sum.splits if_splits dest!: tables)
qed

lemmas copy_loop_table [tables] = copy_loop_table_of [OF _ refl]

lemma copy_file_table [tables]: "copy_file os s d w = Some y \<Longrightarrow> fdt (snd y) = fdt w"
  by (auto simp: copy_file_def split: if_splits prod.splits sum.splits dest!: tables intro: close_both)

lemma recurse_cp_table_of: "recurse_cp os' src dst w = Some y \<Longrightarrow> os' = os \<Longrightarrow> fdt (snd y) = fdt w"
proof (induction os' src dst w y rule: recurse_cp.raw_induct [rotated 1, consumes 1, case_names step])
  case (step f os' src dst w y)
  have kids: "fdt (snd z) = fdt v" if "while_ok (\<lambda>n. f os (path_join src n) (path_join dst n)) ns v = Some z" for ns v z
    using that by (rule while_ok_table) (use step in blast)
  show ?case using step(2,3) by (auto split: prod.splits sum.splits if_splits dest!: tables kids)
qed

lemmas recurse_cp_table [tables] = recurse_cp_table_of [OF _ refl]

lemma cmd_cp_table [tables]: "cmd_cp os av w = Some y \<Longrightarrow> fdt (snd y) = fdt w"
  by (auto simp: cmd_cp_def Let_def bind_eq_Some_conv split: if_splits sum.splits dest!: tables)

lemma cmd_mkdir_table: "fdt (snd (cmd_mkdir os av w)) = fdt w"
proof -
  have e [simp]: "fdt (snd (ensure_dir os p v)) = fdt v" for p v
    by (auto simp: ensure_dir_def split: prod.splits sum.splits dest!: tables)
  have e' [tables]: "fdt v1 = fdt v" if "ensure_dir os p v = (r, v1)" for p v r v1
    using e [of p v] that by simp
  have [simp]: "fdt (mkdir_parents os d cs v) = fdt v" for d cs v
    by (induction cs arbitrary: d v) auto
  have [simp]: "fdt (mkdir_p os p v) = fdt v" for p v
    by (auto simp: mkdir_p_def Let_def split: prod.splits option.splits dest!: e')
  have [simp]: "fdt (mkdir_args os b as v) = fdt v" for b as v
    by (induction as arbitrary: v) (auto split: prod.splits option.splits dest!: tables)
  show ?thesis by (auto simp: cmd_mkdir_def Let_def)
qed

lemma cmd_mv_table: "fdt (snd (cmd_mv os av w)) = fdt w"
  by (auto simp: cmd_mv_def split: prod.splits option.splits dest!: tables)

lemma cmd_pwd_table: "fdt (snd (cmd_pwd os av w)) = fdt w"
  by (auto simp: cmd_pwd_def split: prod.splits sum.splits dest!: tables)

lemma cmd_cd_table: "fdt (snd (cmd_cd os av w)) = fdt w"
  by (auto simp: cmd_cd_def split: prod.splits option.splits dest!: tables)

lemma cmd_ps_table: "fdt (snd (cmd_ps os av w)) = fdt w"
proof -
  have [simp]: "fdt (ps_lines os ps v) = fdt v" for ps v by (induction ps arbitrary: v) auto
  show ?thesis by (auto simp: cmd_ps_def split: prod.splits sum.splits dest!: tables)
qed

lemma cat_loop_table_of: "cat_loop os' fd w = Some w1 \<Longrightarrow> os' = os \<Longrightarrow> fdt w1 = fdt w"
proof (induction os' fd w w1 rule: cat_loop.raw_induct [rotated 1, consumes 1, case_names step])
  case (step f os' fd w w1)
  show ?case using step(2) step(1) [OF _ step(3)] unfolding step(3) by (auto split: prod.splits sum.splits if_splits dest!: tables)
qed

lemma cmd_cat_table [tables]: "cmd_cat os av w = Some y \<Longrightarrow> fdt (snd y) = fdt w"
proof -
  have [tables]: "fdt w1 = fdt v" if "cat_files os as v = Some w1" for as v w1
    using that
  proof (induction as arbitrary: v)
    case (Cons a as)
    then show ?case by (auto split: prod.splits sum.splits elim!: bind_SomeE dest!: tables cat_loop_table_of [OF _ refl])
  qed simp
  show "cmd_cat os av w = Some y \<Longrightarrow> fdt (snd y) = fdt w" by (auto simp: cmd_cat_def split: if_splits dest!: tables)
qed

lemma cmd_put_table [tables]: "cmd_put os av w = Some y \<Longrightarrow> fdt (snd y) = fdt w"
proof -
  have loop: "put_loop os' fd v = Some w1 \<Longrightarrow> os' = os \<Longrightarrow> fdt w1 = fdt v" for os' fd v w1
  proof (induction os' fd v w1 rule: put_loop.raw_induct [rotated 1, consumes 1, case_names step])
    case (step f os' fd w w1)
    show ?case using step(2) step(1) [OF _ step(3)] unfolding step(3)
      by (auto split: prod.splits sum.splits if_splits option.splits dest!: tables)
  qed
  show "cmd_put os av w = Some y \<Longrightarrow> fdt (snd y) = fdt w"
    by (auto simp: cmd_put_def split: if_splits prod.splits sum.splits elim!: bind_SomeE dest!: tables loop [OF _ refl])
qed

lemma cmd_get_table [tables]: "cmd_get os av w = Some y \<Longrightarrow> fdt (snd y) = fdt w"
proof -
  have loop: "get_loop os' fd v = Some w1 \<Longrightarrow> os' = os \<Longrightarrow> fdt w1 = fdt v" for os' fd v w1
  proof (induction os' fd v w1 rule: get_loop.raw_induct [rotated 1, consumes 1, case_names step])
    case (step f os' fd w w1)
    show ?case using step(2) step(1) [OF _ step(3)] unfolding step(3)
      by (auto simp: get_block_def split: prod.splits sum.splits if_splits dest!: tables)
  qed
  show "cmd_get os av w = Some y \<Longrightarrow> fdt (snd y) = fdt w"
    by (auto simp: cmd_get_def split: if_splits prod.splits sum.splits elim!: bind_SomeE dest!: tables loop [OF _ refl])
qed

lemma dpi_response_table [tables]: "dpi_response os fd n w = (r, w1) \<Longrightarrow> fdt w1 = (fdt w)(fd := None)"
  by (auto simp: dpi_response_def split: prod.splits sum.splits bool.splits dest!: tables)

lemma dpi_send_json_table [tables]: "dpi_send_json_9090 os url w = (r, w1) \<Longrightarrow> fdt w1 = fdt w"
  by (auto simp: dpi_send_json_9090_def split: prod.splits sum.splits option.splits if_splits dest!: tables)

lemma dpi_v2_post_table [tables]: "dpi_v2_post_url_12800 os url w = (r, w1) \<Longrightarrow> fdt w1 = fdt w"
  by (auto simp: dpi_v2_post_url_12800_def Let_def split: prod.splits sum.splits option.splits if_splits dest!: tables)

lemma klog_messages_table [simp]: "fdt (klog_messages os s w) = fdt w"
  by (simp add: klog_messages_def Let_def split: option.splits prod.splits)

lemma klog_process_line_table [simp]: "fdt (snd (klog_process_line os st w)) = fdt w"
  by (simp add: klog_process_line_def klog_whole_process_def Let_def split: option.splits)

lemma klog_chunk_table [simp]: "fdt (snd (klog_chunk os p st w)) = fdt w"
proof (induction p arbitrary: st w rule: length_induct)
  case (1 p)
  let ?c = "takeWhile (\<lambda>c. c \<noteq> CHR 0x0A) p"
  let ?l = "klog_process_line os (klog_append ?c st) w"
  have "p \<noteq> [] \<Longrightarrow> fdt (snd (klog_chunk os (drop (length ?c + 1) p) (snd (fst ?l)) (snd ?l))) = fdt w"
    using 1 by simp
  then show ?case by (subst klog_chunk.simps) (simp add: Let_def split_beta)
qed

lemma klog_loop_table_of:
  "klog_loop os' fd t st w = Some y \<Longrightarrow> os' = os \<Longrightarrow>
     fdt (snd y) = (case fst y of Klog_Return rc \<Rightarrow> (fdt w)(fd := None) | Klog_Finished s \<Rightarrow> fdt w)"
proof (induction os' fd t st w y rule: klog_loop_induct)
  case (step f os' fd t st w y)
  show ?case using step(2) step(1) [OF _ step(3)] unfolding step(3)
    by (auto split: prod.splits sum.splits if_splits klog_end.split dest!: tables)
qed

lemma klog_finish_table [simp]: "fdt (snd (klog_finish os fd st w)) = (fdt w)(fd := None)"
  by (simp add: klog_finish_def Let_def)

lemma klog_wait_install_table [tables]: "klog_wait_install os t w = Some y \<Longrightarrow> fdt (snd y) = fdt w"
  by (auto simp: klog_wait_install_def split: prod.splits sum.splits option.splits klog_end.splits
      elim!: bind_SomeE dest!: tables klog_loop_table_of [OF _ refl])

lemma cmd_install_table [tables]: "cmd_install os av w = Some y \<Longrightarrow> fdt (snd y) = fdt w"
  by (auto simp: cmd_install_def Let_def split: prod.splits sum.splits list.splits option.splits if_splits dest!: tables)

lemma cmd_kill_table: "fdt (snd (cmd_kill os av w)) = fdt w"
  by (auto simp: cmd_kill_def Let_def split: prod.splits option.splits dest!: tables)

lemma read_pid_table [tables]: "read_pidfile_builtin os w = (p, w1) \<Longrightarrow> fdt w1 = fdt w"
  by (auto simp: read_pidfile_builtin_def fscanf_pid_def split: prod.splits sum.splits option.splits if_splits dest!: tables)

lemma wait_for_exit_table [tables]: "wait_for_exit os pid t w = (r, w1) \<Longrightarrow> fdt w1 = fdt w"
proof -
  have [tables]: "exit_probes os pid n v = (b, v1) \<Longrightarrow> fdt v1 = fdt v" for n v b v1
  proof (induction n arbitrary: v)
    case (Suc n)
    then show ?case by (auto split: prod.splits option.splits dest!: tables)
  qed simp
  show "wait_for_exit os pid t w = (r, w1) \<Longrightarrow> fdt w1 = fdt w"
    by (auto simp: wait_for_exit_def split: prod.splits option.splits bool.splits dest!: tables)
qed

lemma serverctl_stop_table [tables]: "serverctl_stop os w = (r, w1) \<Longrightarrow> fdt w1 = fdt w"
  by (auto simp: serverctl_stop_def split: prod.splits option.splits if_splits dest!: tables)

lemma serverctl_status_table [tables]: "serverctl_status os w = (r, w1) \<Longrightarrow> fdt w1 = fdt w"
  by (auto simp: serverctl_status_def split: prod.splits option.splits if_splits dest!: tables)

lemma running_pid_table [tables]: "running_pid os w = (r, w1) \<Longrightarrow> fdt w1 = fdt w"
  by (auto simp: running_pid_def split: prod.splits option.splits dest!: tables)

lemma exit0_Ret: "exit0 x \<noteq> (Ret r, w1)"
  by (cases x rule: exit0.cases) auto

lemma serverctl_launch_table [tables]: "serverctl_launch os session port f w = Some (Ret r, w1) \<Longrightarrow> fdt w1 = fdt w"
  by (auto simp: serverctl_launch_def Let_def exit0_Ret split: prod.splits sum.splits option.splits if_splits dest!: tables)

lemma serverctl_start_table [tables]: "serverctl_start os session av k f w = Some (Ret r, w1) \<Longrightarrow> fdt w1 = fdt w"
  by (auto simp: serverctl_start_def Let_def split: prod.splits option.splits if_splits dest!: tables)

lemma cmd_serverctl_table [tables]: "cmd_serverctl os session av w = Some (Ret r, w1) \<Longrightarrow> fdt w1 = fdt w"
  using serverctl_stop_table [OF prod.collapse [symmetric]]
  by (auto simp: cmd_serverctl_def Let_def split: prod.splits if_splits dest!: tables)

lemma load_file_table [tables]: "load_file os p w = (r, w1) \<Longrightarrow> fdt w1 = fdt w"
  by (auto simp: load_file_def Let_def split: prod.splits sum.splits if_splits dest!: tables)

lemma cmd_help_table: "fdt (snd (cmd_help os av w)) = fdt w"
proof -
  have "fdt (fold (\<lambda>b v. out os (g b) v) bs v) = fdt v" for g :: "builtin_t \<Rightarrow> string" and bs v
    by (induction bs arbitrary: v) auto
  then show ?thesis by (simp add: cmd_help_def)
qed

lemma klogtail_never: "klogtail_loop os' v \<noteq> Some y"
proof
  assume "klogtail_loop os' v = Some y"
  then show False by (induction os' v y rule: klogtail_loop.raw_induct [rotated 1, consumes 1])
qed

text \<open>The loader, and with it every builtin.\<close>

lemma putenv_table [simp]: "fdt (fold (os_putenv os) es w) = fdt w"
  by (induction es arbitrary: w) auto

lemma exec_image_table: "exec_image os spawn d es p as w = Some (Ret r, w1) \<Longrightarrow> quiet fdt spawn \<Longrightarrow> fdt w1 = fdt w"
  by (auto simp: exec_image_def Let_def quiet_def split: prod.splits sum.splits outcome.splits if_splits wait_status.splits
      elim!: bind_SomeE dest!: tables)

lemma do_exec_common_table:
  "do_exec_common os spawn av d w = Some (Ret r, w1) \<Longrightarrow> quiet fdt spawn \<Longrightarrow> fdt w1 = fdt w"
  by (auto simp: do_exec_common_def split: prod.splits list.splits if_splits dest!: exec_image_table)

lemma call_builtin_table:
  assumes "quiet fdt spawn" "call_builtin os spawn session b av w = Some (Ret r, w1)"
  shows "fdt w1 = fdt w"
proof -
  have R: "fdt w1 = fdt w" if "ret x = Some (Ret r, w1)" "fdt (snd x) = fdt w" for x using that by (auto simp: ret_def)
  have O: "fdt w1 = fdt w" if "ret_opt x = Some (Ret r, w1)" "\<And>y. x = Some y \<Longrightarrow> fdt (snd y) = fdt w" for x
    using that by (auto simp: ret_opt_def ret_def elim!: bind_SomeE)
  note t = cmd_ls_table cmd_mkdir_table cmd_mv_table cmd_pwd_table cmd_cd_table cmd_ps_table cmd_kill_table cmd_help_table
  show ?thesis using assms(2)
    by (cases b) (auto simp: t cmd_exit_def cmd_klogtail_def cmd_execelf_def cmd_debugelf_def klogtail_never
        dest!: R O tables do_exec_common_table [OF _ assms(1)])
qed

end

end
