(* ===== verification/Pt.thy ===== *)
theory Pt
  imports Prelude
begin

unbundle bit_operations_syntax

text \<open>
  The tracer of \<^verbatim>\<open>shsrv/pt.c\<close>: \<^verbatim>\<open>ptrace\<close> under raised credentials, access to the memory and the
  registers of a traced process, and calls of functions and system calls inside it.

  The console's kernel, its SDK functions and the traced process are not part of the
  repository: a value of type \<open>'w pk\<close> holds one function per \<^verbatim>\<open>ptrace\<close> request and SDK call, over
  the state \<open>'w\<close> of this process, the kernel and the tracee. A request that fails (returns -1)
  gives \<open>None\<close>, a call that reports failure by a non-zero result gives \<open>False\<close>.
\<close>

section \<open>The interface\<close>

record reg =
  r_rip :: u64
  r_rsp :: u64
  r_rax :: u64
  r_rdi :: u64
  r_rsi :: u64
  r_rdx :: u64
  r_rcx :: u64
  r_r8 :: u64
  r_r9 :: u64
  r_r10 :: u64
  r_others :: "u64 list"

text \<open>
  \<open>pk_va i\<close> is what \<^verbatim>\<open>va_arg\<close> yields for an argument \<open>i\<close> that the caller did not pass, and
  \<open>pk_widen n\<close> the 64 bits it reads for an \<^verbatim>\<open>int\<close> argument \<open>n\<close>, whose upper half the language
  leaves open.
\<close>

record 'w pk =
  pk_getpid :: "'w \<Rightarrow> int"
  pk_get_authid :: "int \<Rightarrow> 'w \<Rightarrow> u64 \<times> 'w"
  pk_get_caps :: "int \<Rightarrow> 'w \<Rightarrow> byte list option \<times> 'w"
  pk_set_authid :: "int \<Rightarrow> u64 \<Rightarrow> 'w \<Rightarrow> bool \<times> 'w"
  pk_set_caps :: "int \<Rightarrow> byte list \<Rightarrow> 'w \<Rightarrow> bool \<times> 'w"
  pk_trace_me :: "'w \<Rightarrow> unit option \<times> 'w"
  pk_attach :: "int \<Rightarrow> 'w \<Rightarrow> unit option \<times> 'w"
  pk_detach :: "int \<Rightarrow> int \<Rightarrow> 'w \<Rightarrow> unit option \<times> 'w"
  pk_follow_fork :: "int \<Rightarrow> 'w \<Rightarrow> unit option \<times> 'w"
  pk_lwp_events :: "int \<Rightarrow> 'w \<Rightarrow> unit option \<times> 'w"
  pk_lwpinfo :: "int \<Rightarrow> 'w \<Rightarrow> (nat \<times> int) option \<times> 'w"
  pk_step :: "int \<Rightarrow> 'w \<Rightarrow> unit option \<times> 'w"
  pk_continue :: "int \<Rightarrow> int \<Rightarrow> 'w \<Rightarrow> unit option \<times> 'w"
  pk_read_d :: "int \<Rightarrow> u64 \<Rightarrow> 'w \<Rightarrow> int option \<times> 'w"
  pk_write_d :: "int \<Rightarrow> u64 \<Rightarrow> int \<Rightarrow> 'w \<Rightarrow> unit option \<times> 'w"
  pk_getregs :: "int \<Rightarrow> 'w \<Rightarrow> reg option \<times> 'w"
  pk_setregs :: "int \<Rightarrow> reg \<Rightarrow> 'w \<Rightarrow> unit option \<times> 'w"
  pk_io_write :: "int \<Rightarrow> u64 \<Rightarrow> byte list \<Rightarrow> 'w \<Rightarrow> unit option \<times> 'w"
  pk_io_read :: "int \<Rightarrow> u64 \<Rightarrow> nat \<Rightarrow> 'w \<Rightarrow> byte list option \<times> 'w"
  pk_waitpid :: "int \<Rightarrow> 'w \<Rightarrow> bool \<times> 'w"
  pk_resolve :: "int \<Rightarrow> u64 \<Rightarrow> string \<Rightarrow> 'w \<Rightarrow> u64 \<times> 'w"
  pk_va :: "nat \<Rightarrow> 'w \<Rightarrow> u64"
  pk_widen :: "int \<Rightarrow> u64"
  pk_puts :: "string \<Rightarrow> 'w \<Rightarrow> 'w"
  pk_perror :: "string \<Rightarrow> 'w \<Rightarrow> 'w"
  pk_strerror :: "int \<Rightarrow> string"

section \<open>The code\<close>

subsection \<open>Credentials\<close>

definition privcaps :: "byte list" where
  "privcaps = replicate 16 0xff"

definition DEBUG_AUTHID :: u64 where "DEBUG_AUTHID = 0x4800000000010003"

text \<open>\<^verbatim>\<open>sys_ptrace\<close>, with the system call itself as the argument \<open>call\<close>.\<close>

definition sys_ptrace :: "'w pk \<Rightarrow> ('w \<Rightarrow> 'r option \<times> 'w) \<Rightarrow> 'w \<Rightarrow> 'r option \<times> 'w" where
  "sys_ptrace pk call w =
     (let mypid = pk_getpid pk w in
      case pk_get_authid pk mypid w of
        (authid, w1) \<Rightarrow>
          if authid = 0 then (None, w1)
          else case pk_get_caps pk mypid w1 of
                 (None, w2) \<Rightarrow> (None, w2)
               | (Some caps, w2) \<Rightarrow>
                   (case pk_set_authid pk mypid DEBUG_AUTHID w2 of
                      (False, w3) \<Rightarrow> (None, w3)
                    | (True, w3) \<Rightarrow>
                        (case pk_set_caps pk mypid privcaps w3 of
                           (False, w4) \<Rightarrow> (None, w4)
                         | (True, w4) \<Rightarrow>
                             (case call w4 of
                                (ret, w5) \<Rightarrow>
                                  (case pk_set_authid pk mypid authid w5 of
                                     (False, w6) \<Rightarrow> (None, w6)
                                   | (True, w6) \<Rightarrow>
                                       (case pk_set_caps pk mypid caps w6 of
                                          (False, w7) \<Rightarrow> (None, w7)
                                        | (True, w7) \<Rightarrow> (ret, w7)))))))"

definition pt_resolve :: "'w pk \<Rightarrow> int \<Rightarrow> string \<Rightarrow> 'w \<Rightarrow> u64 \<times> 'w" where
  "pt_resolve pk pid nid w =
     (case pk_resolve pk pid 0x1 nid w of
        (addr, w1) \<Rightarrow> if addr \<noteq> 0 then (addr, w1) else pk_resolve pk pid 0x2001 nid w1)"

subsection \<open>Control\<close>

text \<open>\<^verbatim>\<open>waitpid\<close> after a request, as in \<^verbatim>\<open>pt_attach\<close> and \<^verbatim>\<open>pt_step\<close>.\<close>

definition then_wait :: "'w pk \<Rightarrow> int \<Rightarrow> unit option \<times> 'w \<Rightarrow> unit option \<times> 'w" where
  "then_wait pk pid x =
     (case x of
        (None, w1) \<Rightarrow> (None, w1)
      | (Some u, w1) \<Rightarrow> (case pk_waitpid pk pid w1 of (ok, w2) \<Rightarrow> (if ok then Some () else None, w2)))"

definition pt_trace_me :: "'w pk \<Rightarrow> 'w \<Rightarrow> unit option \<times> 'w" where
  "pt_trace_me pk w = sys_ptrace pk (pk_trace_me pk) w"

definition pt_attach :: "'w pk \<Rightarrow> int \<Rightarrow> 'w \<Rightarrow> unit option \<times> 'w" where
  "pt_attach pk pid w = then_wait pk pid (sys_ptrace pk (pk_attach pk pid) w)"

definition pt_detach :: "'w pk \<Rightarrow> int \<Rightarrow> int \<Rightarrow> 'w \<Rightarrow> unit option \<times> 'w" where
  "pt_detach pk pid sig w = sys_ptrace pk (pk_detach pk pid sig) w"

definition pt_follow_fork :: "'w pk \<Rightarrow> int \<Rightarrow> 'w \<Rightarrow> unit option \<times> 'w" where
  "pt_follow_fork pk pid w =
     (case sys_ptrace pk (pk_follow_fork pk pid) w of
        (None, w1) \<Rightarrow> (None, w1)
      | (Some u, w1) \<Rightarrow> sys_ptrace pk (pk_lwp_events pk pid) w1)"

definition pt_follow_exec :: "'w pk \<Rightarrow> int \<Rightarrow> 'w \<Rightarrow> unit option \<times> 'w" where
  "pt_follow_exec pk pid w = sys_ptrace pk (pk_lwp_events pk pid) w"

text \<open>
  The loop of \<^verbatim>\<open>pt_await_child\<close> and \<^verbatim>\<open>pt_await_exec\<close>, which waits until a flag (its bit number) is
  set; the result is the child id of the last \<^verbatim>\<open>ptrace_lwpinfo\<close>.
\<close>

definition PL_FLAG_EXEC :: nat where "PL_FLAG_EXEC = 4"
definition PL_FLAG_FORKED :: nat where "PL_FLAG_FORKED = 6"

partial_function (option) await_flag :: "'w pk \<Rightarrow> int \<Rightarrow> nat \<Rightarrow> nat \<Rightarrow> int \<Rightarrow> 'w \<Rightarrow> (int option \<times> 'w) option" where
  "await_flag pk pid flag flags child w =
     (if bit flags flag then Some (Some child, w)
      else case pk_waitpid pk pid w of
             (ok, w1) \<Rightarrow>
               if \<not> ok then Some (None, w1)
               else case sys_ptrace pk (pk_lwpinfo pk pid) w1 of
                      (r, w2) \<Rightarrow>
                        (case r of
                           None \<Rightarrow> Some (None, w2)
                         | Some info \<Rightarrow> await_flag pk pid flag (fst info) (snd info) w2))"

definition pt_await_child :: "'w pk \<Rightarrow> int \<Rightarrow> 'w \<Rightarrow> (int option \<times> 'w) option" where
  "pt_await_child pk pid w =
     Option.bind (await_flag pk pid PL_FLAG_FORKED 0 0 w)
       (\<lambda>(r, w1). case r of
          None \<Rightarrow> Some (None, w1)
        | Some child \<Rightarrow> (case pk_waitpid pk child w1 of (ok, w2) \<Rightarrow> Some (if ok then Some child else None, w2)))"

definition pt_await_exec :: "'w pk \<Rightarrow> int \<Rightarrow> 'w \<Rightarrow> (unit option \<times> 'w) option" where
  "pt_await_exec pk pid w =
     map_option (\<lambda>(r, w1). (map_option (\<lambda>_. ()) r, w1)) (await_flag pk pid PL_FLAG_EXEC 0 0 w)"

definition pt_step :: "'w pk \<Rightarrow> int \<Rightarrow> 'w \<Rightarrow> unit option \<times> 'w" where
  "pt_step pk pid w = then_wait pk pid (sys_ptrace pk (pk_step pk pid) w)"

definition pt_continue :: "'w pk \<Rightarrow> int \<Rightarrow> int \<Rightarrow> 'w \<Rightarrow> unit option \<times> 'w" where
  "pt_continue pk pid sig w = sys_ptrace pk (pk_continue pk pid sig) w"

subsection \<open>Memory and registers\<close>

definition pt_getint :: "'w pk \<Rightarrow> int \<Rightarrow> u64 \<Rightarrow> 'w \<Rightarrow> int \<times> 'w" where
  "pt_getint pk pid addr w =
     (case sys_ptrace pk (pk_read_d pk pid addr) w of (None, w1) \<Rightarrow> (- 1, w1) | (Some v, w1) \<Rightarrow> (v, w1))"

definition pt_setint :: "'w pk \<Rightarrow> int \<Rightarrow> u64 \<Rightarrow> int \<Rightarrow> 'w \<Rightarrow> unit option \<times> 'w" where
  "pt_setint pk pid addr val w = sys_ptrace pk (pk_write_d pk pid addr val) w"

definition pt_getregs :: "'w pk \<Rightarrow> int \<Rightarrow> 'w \<Rightarrow> reg option \<times> 'w" where
  "pt_getregs pk pid w = sys_ptrace pk (pk_getregs pk pid) w"

definition pt_setregs :: "'w pk \<Rightarrow> int \<Rightarrow> reg \<Rightarrow> 'w \<Rightarrow> unit option \<times> 'w" where
  "pt_setregs pk pid r w = sys_ptrace pk (pk_setregs pk pid r) w"

definition pt_copyin :: "'w pk \<Rightarrow> int \<Rightarrow> byte list \<Rightarrow> u64 \<Rightarrow> 'w \<Rightarrow> unit option \<times> 'w" where
  "pt_copyin pk pid buf addr w = sys_ptrace pk (pk_io_write pk pid addr buf) w"

definition pt_copyout :: "'w pk \<Rightarrow> int \<Rightarrow> u64 \<Rightarrow> nat \<Rightarrow> 'w \<Rightarrow> byte list option \<times> 'w" where
  "pt_copyout pk pid addr len w = sys_ptrace pk (pk_io_read pk pid addr len) w"

text \<open>The bytes of an integer object in memory, the lowest first, and back.\<close>

definition le_bytes :: "nat \<Rightarrow> 'a::len word \<Rightarrow> byte list" where
  "le_bytes n v = map (\<lambda>i. ucast (drop_bit (8 * i) v)) [0..<n]"

fun le_word :: "byte list \<Rightarrow> 'a::len word" where
  "le_word [] = 0"
| "le_word (b # bs) = ucast b + 256 * le_word bs"

text \<open>A failed copy leaves the local variable at its initial 0.\<close>

definition copied :: "byte list option \<times> 'w \<Rightarrow> 'a::len word \<times> 'w" where
  "copied x = (case x of (None, w1) \<Rightarrow> (0, w1) | (Some bs, w1) \<Rightarrow> (le_word bs, w1))"

definition pt_setchar :: "'w pk \<Rightarrow> int \<Rightarrow> u64 \<Rightarrow> 8 word \<Rightarrow> 'w \<Rightarrow> unit option \<times> 'w" where
  "pt_setchar pk pid addr val w = pt_copyin pk pid (le_bytes 1 val) addr w"

definition pt_setshort :: "'w pk \<Rightarrow> int \<Rightarrow> u64 \<Rightarrow> 16 word \<Rightarrow> 'w \<Rightarrow> unit option \<times> 'w" where
  "pt_setshort pk pid addr val w = pt_copyin pk pid (le_bytes 2 val) addr w"

definition pt_setlong :: "'w pk \<Rightarrow> int \<Rightarrow> u64 \<Rightarrow> u64 \<Rightarrow> 'w \<Rightarrow> unit option \<times> 'w" where
  "pt_setlong pk pid addr val w = pt_copyin pk pid (le_bytes 8 val) addr w"

definition pt_getchar :: "'w pk \<Rightarrow> int \<Rightarrow> u64 \<Rightarrow> 'w \<Rightarrow> 8 word \<times> 'w" where
  "pt_getchar pk pid addr w = copied (pt_copyout pk pid addr 1 w)"

definition pt_getshort :: "'w pk \<Rightarrow> int \<Rightarrow> u64 \<Rightarrow> 'w \<Rightarrow> 16 word \<times> 'w" where
  "pt_getshort pk pid addr w = copied (pt_copyout pk pid addr 2 w)"

definition pt_getlong :: "'w pk \<Rightarrow> int \<Rightarrow> u64 \<Rightarrow> 'w \<Rightarrow> u64 \<times> 'w" where
  "pt_getlong pk pid addr w = copied (pt_copyout pk pid addr 8 w)"

subsection \<open>Calls in the tracee\<close>

text \<open>
  The single-stepping loop: the registers when the stack pointer has risen above the old one
  (registers are signed 64-bit integers in \<^verbatim>\<open>struct reg\<close>).
\<close>

partial_function (option) step_until ::
    "'w pk \<Rightarrow> int \<Rightarrow> u64 \<Rightarrow> reg \<Rightarrow> 'w \<Rightarrow> (reg option \<times> 'w) option" where
  "step_until pk pid bak_rsp jmp w =
     (if word_sle (r_rsp jmp) bak_rsp then
        (case pt_step pk pid w of
           (s, w1) \<Rightarrow>
             if s = None then Some (None, w1)
             else case pt_getregs pk pid w1 of
                    (r, w2) \<Rightarrow>
                      (case r of None \<Rightarrow> Some (None, w2) | Some jmp1 \<Rightarrow> step_until pk pid bak_rsp jmp1 w2))
      else Some (Some jmp, w))"

text \<open>From the load of the registers to the return value; -1 on every failure.\<close>

definition run_remote :: "'w pk \<Rightarrow> int \<Rightarrow> reg \<Rightarrow> reg \<Rightarrow> 'w \<Rightarrow> (u64 \<times> 'w) option" where
  "run_remote pk pid bak jmp w =
     (case pt_setregs pk pid jmp w of
        (None, w1) \<Rightarrow> Some (- 1, w1)
      | (Some u, w1) \<Rightarrow>
          Option.bind (step_until pk pid (r_rsp bak) jmp w1)
            (\<lambda>(r, w2). case r of
               None \<Rightarrow> Some (- 1, w2)
             | Some jmp1 \<Rightarrow>
                 (case pt_setregs pk pid bak w2 of
                    (None, w3) \<Rightarrow> Some (- 1, w3)
                  | (Some u, w3) \<Rightarrow> Some (r_rax jmp1, w3))))"

text \<open>The variable arguments: 64-bit ones and \<^verbatim>\<open>int\<close>s.\<close>

datatype varg = L64 u64 | I32 int

fun arg_word :: "'w pk \<Rightarrow> varg \<Rightarrow> u64" where
  "arg_word pk (L64 v) = v"
| "arg_word pk (I32 n) = pk_widen pk n"

definition va_arg :: "'w pk \<Rightarrow> varg list \<Rightarrow> 'w \<Rightarrow> nat \<Rightarrow> u64" where
  "va_arg pk args w i = (if i < length args then arg_word pk (args ! i) else pk_va pk i w)"

definition call_regs :: "reg \<Rightarrow> u64 \<Rightarrow> (nat \<Rightarrow> u64) \<Rightarrow> reg" where
  "call_regs bak addr a =
     bak\<lparr>r_rip := addr, r_rdi := a 0, r_rsi := a 1, r_rdx := a 2, r_rcx := a 3, r_r8 := a 4, r_r9 := a 5\<rparr>"

definition pt_call :: "'w pk \<Rightarrow> int \<Rightarrow> u64 \<Rightarrow> varg list \<Rightarrow> 'w \<Rightarrow> (u64 \<times> 'w) option" where
  "pt_call pk pid addr args w =
     (case pt_getregs pk pid w of
        (None, w1) \<Rightarrow> Some (- 1, w1)
      | (Some bak, w1) \<Rightarrow> run_remote pk pid bak (call_regs bak addr (va_arg pk args w1)) w1)"

definition syscall_regs :: "reg \<Rightarrow> u64 \<Rightarrow> int \<Rightarrow> (nat \<Rightarrow> u64) \<Rightarrow> reg" where
  "syscall_regs bak addr sysno a =
     bak\<lparr>r_rip := addr, r_rax := word_of_int sysno, r_rdi := a 0, r_rsi := a 1, r_rdx := a 2, r_r10 := a 3, r_r8 := a 4,
         r_r9 := a 5\<rparr>"

definition pt_syscall :: "'w pk \<Rightarrow> int \<Rightarrow> int \<Rightarrow> varg list \<Rightarrow> 'w \<Rightarrow> (u64 \<times> 'w) option" where
  "pt_syscall pk pid sysno args w =
     (case pt_resolve pk pid ''HoLVWNanBBc'' w of
        (addr, w0) \<Rightarrow>
          if addr = 0 then Some (- 1, w0)
          else case pt_getregs pk pid w0 of
                 (None, w1) \<Rightarrow> Some (- 1, w1)
               | (Some bak, w1) \<Rightarrow>
                   run_remote pk pid bak (syscall_regs bak (addr + 0xa) sysno (va_arg pk args w1)) w1)"

subsection \<open>System calls of the tracee\<close>

definition SYS_close :: int where "SYS_close = 6"
definition SYS_chdir :: int where "SYS_chdir = 12"
definition SYS_recvmsg :: int where "SYS_recvmsg = 27"
definition SYS_msync :: int where "SYS_msync = 65"
definition SYS_munmap :: int where "SYS_munmap = 73"
definition SYS_mprotect :: int where "SYS_mprotect = 74"
definition SYS_dup2 :: int where "SYS_dup2 = 90"
definition SYS_socket :: int where "SYS_socket = 97"
definition SYS_bind :: int where "SYS_bind = 104"
definition SYS_setsockopt :: int where "SYS_setsockopt = 105"
definition SYS_thr_set_name :: int where "SYS_thr_set_name = 464"
definition SYS_mmap :: int where "SYS_mmap = 477"

text \<open>The conversion of the result to \<^verbatim>\<open>int\<close>.\<close>

definition as_int :: "(u64 \<times> 'w) option \<Rightarrow> (int \<times> 'w) option" where
  "as_int x = map_option (\<lambda>(v, w). (to_int32 (uint v), w)) x"

definition pt_mmap :: "'w pk \<Rightarrow> int \<Rightarrow> u64 \<Rightarrow> u64 \<Rightarrow> int \<Rightarrow> int \<Rightarrow> int \<Rightarrow> u64 \<Rightarrow> 'w \<Rightarrow> (u64 \<times> 'w) option" where
  "pt_mmap pk pid addr len prot flags fd off w =
     pt_syscall pk pid SYS_mmap [L64 addr, L64 len, I32 prot, I32 flags, I32 fd, L64 off] w"

definition pt_msync :: "'w pk \<Rightarrow> int \<Rightarrow> u64 \<Rightarrow> u64 \<Rightarrow> int \<Rightarrow> 'w \<Rightarrow> (int \<times> 'w) option" where
  "pt_msync pk pid addr len flags w = as_int (pt_syscall pk pid SYS_msync [L64 addr, L64 len, I32 flags] w)"

definition pt_munmap :: "'w pk \<Rightarrow> int \<Rightarrow> u64 \<Rightarrow> u64 \<Rightarrow> 'w \<Rightarrow> (int \<times> 'w) option" where
  "pt_munmap pk pid addr len w = as_int (pt_syscall pk pid SYS_munmap [L64 addr, L64 len] w)"

definition pt_mprotect :: "'w pk \<Rightarrow> int \<Rightarrow> u64 \<Rightarrow> u64 \<Rightarrow> int \<Rightarrow> 'w \<Rightarrow> (int \<times> 'w) option" where
  "pt_mprotect pk pid addr len prot w = as_int (pt_syscall pk pid SYS_mprotect [L64 addr, L64 len, I32 prot] w)"

definition pt_socket :: "'w pk \<Rightarrow> int \<Rightarrow> int \<Rightarrow> int \<Rightarrow> int \<Rightarrow> 'w \<Rightarrow> (int \<times> 'w) option" where
  "pt_socket pk pid domain type protocol w =
     as_int (pt_syscall pk pid SYS_socket [I32 domain, I32 type, I32 protocol] w)"

definition pt_setsockopt :: "'w pk \<Rightarrow> int \<Rightarrow> int \<Rightarrow> int \<Rightarrow> int \<Rightarrow> u64 \<Rightarrow> int \<Rightarrow> 'w \<Rightarrow> (int \<times> 'w) option" where
  "pt_setsockopt pk pid fd level optname optval optlen w =
     as_int (pt_syscall pk pid SYS_setsockopt [I32 fd, I32 level, I32 optname, L64 optval, I32 optlen, I32 0] w)"

definition pt_bind :: "'w pk \<Rightarrow> int \<Rightarrow> int \<Rightarrow> u64 \<Rightarrow> int \<Rightarrow> 'w \<Rightarrow> (int \<times> 'w) option" where
  "pt_bind pk pid sockfd addr addrlen w =
     as_int (pt_syscall pk pid SYS_bind [I32 sockfd, L64 addr, I32 addrlen] w)"

definition pt_recvmsg :: "'w pk \<Rightarrow> int \<Rightarrow> int \<Rightarrow> u64 \<Rightarrow> int \<Rightarrow> 'w \<Rightarrow> (int \<times> 'w) option" where
  "pt_recvmsg pk pid fd msg flags w = as_int (pt_syscall pk pid SYS_recvmsg [I32 fd, L64 msg, I32 flags] w)"

definition pt_close :: "'w pk \<Rightarrow> int \<Rightarrow> int \<Rightarrow> 'w \<Rightarrow> (int \<times> 'w) option" where
  "pt_close pk pid fd w = as_int (pt_syscall pk pid SYS_close [I32 fd] w)"

definition pt_dup2 :: "'w pk \<Rightarrow> int \<Rightarrow> int \<Rightarrow> int \<Rightarrow> 'w \<Rightarrow> (int \<times> 'w) option" where
  "pt_dup2 pk pid oldfd newfd w = as_int (pt_syscall pk pid SYS_dup2 [I32 oldfd, I32 newfd] w)"

definition pt_rdup :: "'w pk \<Rightarrow> int \<Rightarrow> int \<Rightarrow> int \<Rightarrow> 'w \<Rightarrow> (int \<times> 'w) option" where
  "pt_rdup pk pid other_pid fd w = as_int (pt_syscall pk pid 0x25b [I32 other_pid, I32 fd] w)"

subsection \<open>Library functions of the tracee\<close>

text \<open>A call by the identifier of the function; an identifier that is not found is called at address 0.\<close>

definition pt_call_nid :: "'w pk \<Rightarrow> int \<Rightarrow> string \<Rightarrow> varg list \<Rightarrow> 'w \<Rightarrow> (u64 \<times> 'w) option" where
  "pt_call_nid pk pid nid args w = (case pt_resolve pk pid nid w of (faddr, w1) \<Rightarrow> pt_call pk pid faddr args w1)"

definition pt_pipe :: "'w pk \<Rightarrow> int \<Rightarrow> u64 \<Rightarrow> 'w \<Rightarrow> (int \<times> 'w) option" where
  "pt_pipe pk pid pipefd w = as_int (pt_call_nid pk pid ''-Jp7F+pXxNg'' [L64 pipefd] w)"

definition pt_signal :: "'w pk \<Rightarrow> int \<Rightarrow> int \<Rightarrow> u64 \<Rightarrow> 'w \<Rightarrow> (int \<times> 'w) option" where
  "pt_signal pk pid signum handler w = as_int (pt_call_nid pk pid ''VADc3MNQ3cM'' [I32 signum, L64 handler] w)"

definition pt_perror :: "'w pk \<Rightarrow> int \<Rightarrow> string \<Rightarrow> 'w \<Rightarrow> (unit \<times> 'w) option" where
  "pt_perror pk pid s w =
     do { (addr, w1) \<leftarrow> pt_call_nid pk pid ''9BcDykPmo1I'' [] w;
          let (err, w2) = pt_getint pk pid addr w1;
          Some ((), pk_puts pk (s @ '': '' @ pk_strerror pk err) w2) }"

definition pt_sceKernelGetProcParam :: "'w pk \<Rightarrow> int \<Rightarrow> 'w \<Rightarrow> (u64 \<times> 'w) option" where
  "pt_sceKernelGetProcParam pk pid w = pt_call_nid pk pid ''959qrazPIrg'' [] w"

definition pt_getargv :: "'w pk \<Rightarrow> int \<Rightarrow> 'w \<Rightarrow> (u64 \<times> 'w) option" where
  "pt_getargv pk pid w = pt_call_nid pk pid ''FJmglmTMdr4'' [] w"

section \<open>What the kernel promises\<close>

text \<open>
  The credentials of the calling process: \<open>auth\<close> and \<open>caps\<close> read them off the state, and
  \<open>view\<close> is any part of the state that changing them does not affect.
\<close>

definition cred_laws :: "'w pk \<Rightarrow> ('w \<Rightarrow> u64) \<Rightarrow> ('w \<Rightarrow> byte list) \<Rightarrow> ('w \<Rightarrow> 'v) \<Rightarrow> bool" where
  "cred_laws pk auth caps view \<longleftrightarrow>
     (\<forall>w. pk_get_authid pk (pk_getpid pk w) w = (auth w, w)
        \<and> pk_get_caps pk (pk_getpid pk w) w = (Some (caps w), w))
   \<and> (\<forall>w a. a \<noteq> 0 \<longrightarrow> (\<exists>w'. pk_set_authid pk (pk_getpid pk w) a w = (True, w') \<and> auth w' = a \<and> caps w' = caps w
        \<and> view w' = view w \<and> pk_getpid pk w' = pk_getpid pk w))
   \<and> (\<forall>w c. \<exists>w'. pk_set_caps pk (pk_getpid pk w) c w = (True, w') \<and> auth w' = auth w \<and> caps w' = c
        \<and> view w' = view w \<and> pk_getpid pk w' = pk_getpid pk w)"

text \<open>A step that leaves the credentials and the identity of the caller alone.\<close>

definition keeps_creds :: "'w pk \<Rightarrow> ('w \<Rightarrow> u64) \<Rightarrow> ('w \<Rightarrow> byte list) \<Rightarrow> 'w \<Rightarrow> 'w \<Rightarrow> bool" where
  "keeps_creds pk auth caps w w' \<longleftrightarrow> auth w' = auth w \<and> caps w' = caps w \<and> pk_getpid pk w' = pk_getpid pk w"

lemma keeps_creds_trans [trans]:
  "keeps_creds pk auth caps w w' \<Longrightarrow> keeps_creds pk auth caps w' w'' \<Longrightarrow> keeps_creds pk auth caps w w''"
  by (simp add: keeps_creds_def)

text \<open>Under these laws, \<^verbatim>\<open>sys_ptrace\<close> is the call in a state with raised credentials.\<close>

lemma sys_ptrace_call:
  assumes laws: "cred_laws pk auth caps view" and a: "auth w \<noteq> 0"
    and call: "\<And>v. keeps_creds pk auth caps v (snd (call v))"
  obtains v w' where "auth v = DEBUG_AUTHID" "caps v = privcaps" "view v = view w"
    "sys_ptrace pk call w = (fst (call v), w')" "keeps_creds pk auth caps w w'" "view w' = view (snd (call v))"
proof -
  let ?p = "pk_getpid pk w"
  have nz: "DEBUG_AUTHID \<noteq> 0" by (simp add: DEBUG_AUTHID_def)
  obtain w3 where w3: "pk_set_authid pk ?p DEBUG_AUTHID w = (True, w3)" "auth w3 = DEBUG_AUTHID" "caps w3 = caps w"
    "view w3 = view w" "pk_getpid pk w3 = ?p" using laws nz unfolding cred_laws_def by blast
  obtain w4 where w4: "pk_set_caps pk ?p privcaps w3 = (True, w4)" "auth w4 = DEBUG_AUTHID" "caps w4 = privcaps"
    "view w4 = view w" "pk_getpid pk w4 = ?p" using laws w3 unfolding cred_laws_def by metis
  obtain r w5 where w5: "call w4 = (r, w5)" by fastforce
  then have p5: "pk_getpid pk w5 = ?p" using call [of w4] w4 by (simp add: keeps_creds_def)
  obtain w6 where w6: "pk_set_authid pk ?p (auth w) w5 = (True, w6)" "auth w6 = auth w"
    "view w6 = view w5" "pk_getpid pk w6 = ?p" using laws p5 a unfolding cred_laws_def by metis
  obtain w7 where w7: "pk_set_caps pk ?p (caps w) w6 = (True, w7)" "auth w7 = auth w" "caps w7 = caps w"
    "view w7 = view w5" "pk_getpid pk w7 = ?p" using laws w6 unfolding cred_laws_def by metis
  have get: "pk_get_authid pk ?p w = (auth w, w)" "pk_get_caps pk ?p w = (Some (caps w), w)"
    using laws unfolding cred_laws_def by blast+
  have "sys_ptrace pk call w = (r, w7)"
    unfolding sys_ptrace_def Let_def using get a w3(1) w4(1) w5 w6(1) w7(1) by simp
  with that [of w4 w7] w4 w5 w7 show thesis by (simp add: keeps_creds_def)
qed

text \<open>
  The traced process: its registers and its memory. \<open>cpu\<close> is what one instruction does, \<open>symb\<close> the
  symbols of its libraries (library handle, identifier).
\<close>

record machine =
  m_regs :: reg
  m_mem :: "u64 \<rightharpoonup> byte"

definition mapped :: "(u64 \<rightharpoonup> byte) \<Rightarrow> u64 \<Rightarrow> nat \<Rightarrow> bool" where
  "mapped m a n \<longleftrightarrow> (\<forall>i < n. m (a + of_nat i) \<noteq> None)"

definition mem_write :: "(u64 \<rightharpoonup> byte) \<Rightarrow> u64 \<Rightarrow> byte list \<Rightarrow> (u64 \<rightharpoonup> byte)" where
  "mem_write m a bs = (\<lambda>x. if unat (x - a) < length bs then Some (bs ! unat (x - a)) else m x)"

definition mem_read :: "(u64 \<rightharpoonup> byte) \<Rightarrow> u64 \<Rightarrow> nat \<Rightarrow> byte list" where
  "mem_read m a n = map (\<lambda>i. the (m (a + of_nat i))) [0..<n]"

definition tracee_laws ::
    "'w pk \<Rightarrow> int \<Rightarrow> ('w \<Rightarrow> u64) \<Rightarrow> ('w \<Rightarrow> byte list) \<Rightarrow> ('w \<Rightarrow> machine) \<Rightarrow> (machine \<Rightarrow> machine) \<Rightarrow> (u64 \<Rightarrow> string \<Rightarrow> u64) \<Rightarrow> bool"
where
  "tracee_laws pk pid auth caps view cpu symb \<longleftrightarrow>
     cred_laws pk auth caps view
   \<and> (\<forall>w. keeps_creds pk auth caps w (snd (pk_getregs pk pid w))
        \<and> fst (pk_getregs pk pid w) = Some (m_regs (view w)) \<and> view (snd (pk_getregs pk pid w)) = view w)
   \<and> (\<forall>w r. keeps_creds pk auth caps w (snd (pk_setregs pk pid r w))
        \<and> fst (pk_setregs pk pid r w) = Some () \<and> view (snd (pk_setregs pk pid r w)) = (view w)\<lparr>m_regs := r\<rparr>)
   \<and> (\<forall>w. keeps_creds pk auth caps w (snd (pk_step pk pid w))
        \<and> fst (pk_step pk pid w) = Some () \<and> view (snd (pk_step pk pid w)) = cpu (view w))
   \<and> (\<forall>w. keeps_creds pk auth caps w (snd (pk_waitpid pk pid w))
        \<and> fst (pk_waitpid pk pid w) \<and> view (snd (pk_waitpid pk pid w)) = view w)
   \<and> (\<forall>w a bs. keeps_creds pk auth caps w (snd (pk_io_write pk pid a bs w))
        \<and> (mapped (m_mem (view w)) a (length bs) \<longrightarrow> fst (pk_io_write pk pid a bs w) = Some ()
           \<and> view (snd (pk_io_write pk pid a bs w)) = (view w)\<lparr>m_mem := mem_write (m_mem (view w)) a bs\<rparr>))
   \<and> (\<forall>w a n. keeps_creds pk auth caps w (snd (pk_io_read pk pid a n w)) \<and> view (snd (pk_io_read pk pid a n w)) = view w
        \<and> (mapped (m_mem (view w)) a n \<longrightarrow> fst (pk_io_read pk pid a n w) = Some (mem_read (m_mem (view w)) a n)))
   \<and> (\<forall>w h nid. keeps_creds pk auth caps w (snd (pk_resolve pk pid h nid w))
        \<and> fst (pk_resolve pk pid h nid w) = symb h nid \<and> view (snd (pk_resolve pk pid h nid w)) = view w)"

section \<open>Requests on the tracee\<close>

text \<open>The state after an operation that leaves the tracee as \<open>m\<close> and the caller's credentials alone.\<close>

definition leaves :: "'w pk \<Rightarrow> ('w \<Rightarrow> u64) \<Rightarrow> ('w \<Rightarrow> byte list) \<Rightarrow> ('w \<Rightarrow> machine) \<Rightarrow> machine \<Rightarrow> 'w \<Rightarrow> 'w \<Rightarrow> bool" where
  "leaves pk auth caps view m w w' \<longleftrightarrow> keeps_creds pk auth caps w w' \<and> view w' = m"

lemma leaves_view: "leaves pk auth caps view m w w' \<Longrightarrow> view w' = m"
  by (simp add: leaves_def)

lemma leaves_auth: "leaves pk auth caps view m w w' \<Longrightarrow> auth w' = auth w"
  by (simp add: leaves_def keeps_creds_def)

lemma leaves_trans: "leaves pk auth caps view m w w' \<Longrightarrow> leaves pk auth caps view m' w' w'' \<Longrightarrow> leaves pk auth caps view m' w w''"
  by (simp add: leaves_def keeps_creds_def)

lemma ptrace_request:
  assumes laws: "tracee_laws pk pid auth caps view cpu symb" and a: "auth w \<noteq> 0"
    and call: "\<And>v. keeps_creds pk auth caps v (snd (call v))"
    and res: "\<And>v. view v = view w \<Longrightarrow> fst (call v) = r \<and> view (snd (call v)) = m"
  shows "\<exists>w'. sys_ptrace pk call w = (r, w') \<and> leaves pk auth caps view m w w'"
proof -
  have "cred_laws pk auth caps view" using laws by (simp add: tracee_laws_def)
  then show ?thesis using sys_ptrace_call [of pk auth caps view w call] a call res leaves_def by (metis (no_types))
qed

lemma pt_getregs_view:
  assumes "tracee_laws pk pid auth caps view cpu symb" "auth w \<noteq> 0"
  shows "\<exists>w'. pt_getregs pk pid w = (Some (m_regs (view w)), w') \<and> leaves pk auth caps view (view w) w w'"
  unfolding pt_getregs_def
  by (rule ptrace_request [OF assms]) (use assms(1) in \<open>auto simp: tracee_laws_def\<close>)

lemma pt_setregs_view:
  assumes "tracee_laws pk pid auth caps view cpu symb" "auth w \<noteq> 0"
  shows "\<exists>w'. pt_setregs pk pid r w = (Some (), w') \<and> leaves pk auth caps view ((view w)\<lparr>m_regs := r\<rparr>) w w'"
  unfolding pt_setregs_def
  by (rule ptrace_request [OF assms]) (use assms(1) in \<open>auto simp: tracee_laws_def\<close>)

lemma pt_step_view:
  assumes laws: "tracee_laws pk pid auth caps view cpu symb" and a: "auth w \<noteq> 0"
  shows "\<exists>w'. pt_step pk pid w = (Some (), w') \<and> leaves pk auth caps view (cpu (view w)) w w'"
proof -
  have "\<exists>w1. sys_ptrace pk (pk_step pk pid) w = (Some (), w1) \<and> leaves pk auth caps view (cpu (view w)) w w1"
    by (rule ptrace_request [OF assms]) (use laws in \<open>auto simp: tracee_laws_def\<close>)
  then obtain w1 where w1: "sys_ptrace pk (pk_step pk pid) w = (Some (), w1)" "leaves pk auth caps view (cpu (view w)) w w1"
    by blast
  have wait: "fst (pk_waitpid pk pid w1)" "keeps_creds pk auth caps w1 (snd (pk_waitpid pk pid w1))"
    "view (snd (pk_waitpid pk pid w1)) = view w1" using laws by (auto simp: tracee_laws_def)
  have "pt_step pk pid w = (Some (), snd (pk_waitpid pk pid w1))"
    unfolding pt_step_def then_wait_def using w1(1) wait(1) by (simp add: split_def)
  moreover have "leaves pk auth caps view (cpu (view w)) w (snd (pk_waitpid pk pid w1))"
    using w1(2) wait by (auto simp: leaves_def intro: keeps_creds_trans)
  ultimately show ?thesis by blast
qed

lemma pt_copyin_view:
  assumes "tracee_laws pk pid auth caps view cpu symb" "auth w \<noteq> 0" "mapped (m_mem (view w)) addr (length bs)"
  shows "\<exists>w'. pt_copyin pk pid bs addr w = (Some (), w')
      \<and> leaves pk auth caps view ((view w)\<lparr>m_mem := mem_write (m_mem (view w)) addr bs\<rparr>) w w'"
  unfolding pt_copyin_def
  by (rule ptrace_request [OF assms(1,2)]) (use assms in \<open>auto simp: tracee_laws_def\<close>)

lemma pt_copyout_view:
  assumes "tracee_laws pk pid auth caps view cpu symb" "auth w \<noteq> 0" "mapped (m_mem (view w)) addr n"
  shows "\<exists>w'. pt_copyout pk pid addr n w = (Some (mem_read (m_mem (view w)) addr n), w')
      \<and> leaves pk auth caps view (view w) w w'"
  unfolding pt_copyout_def
  by (rule ptrace_request [OF assms(1,2)]) (use assms in \<open>auto simp: tracee_laws_def\<close>)

section \<open>Remote calls\<close>

text \<open>
  The specification of a call in the traced process: with the registers \<open>jmp\<close> loaded, the process
  runs until its stack pointer is above the old one (at most \<open>k\<close> instructions); the value is
  \<^verbatim>\<open>rax\<close> then, and the old registers come back.
\<close>

fun machine_run :: "(machine \<Rightarrow> machine) \<Rightarrow> u64 \<Rightarrow> nat \<Rightarrow> machine \<Rightarrow> machine option" where
  "machine_run cpu rsp k m =
     (if word_sle (r_rsp (m_regs m)) rsp then (case k of 0 \<Rightarrow> None | Suc k' \<Rightarrow> machine_run cpu rsp k' (cpu m)) else Some m)"

declare machine_run.simps [simp del]

definition remote_call :: "(machine \<Rightarrow> machine) \<Rightarrow> nat \<Rightarrow> reg \<Rightarrow> machine \<Rightarrow> (u64 \<times> machine) option" where
  "remote_call cpu k jmp m =
     map_option (\<lambda>m'. (r_rax (m_regs m'), m'\<lparr>m_regs := m_regs m\<rparr>))
       (machine_run cpu (r_rsp (m_regs m)) k (m\<lparr>m_regs := jmp\<rparr>))"

text \<open>The arguments: the ones passed, then whatever \<open>g\<close> yields.\<close>

definition given_args :: "'w pk \<Rightarrow> varg list \<Rightarrow> (nat \<Rightarrow> u64) \<Rightarrow> nat \<Rightarrow> u64" where
  "given_args pk args g i = (if i < length args then arg_word pk (args ! i) else g i)"

lemma va_arg_given: "va_arg pk args w = given_args pk args (\<lambda>i. pk_va pk i w)"
  by (simp add: fun_eq_iff va_arg_def given_args_def)

lemma step_until_view:
  assumes laws: "tracee_laws pk pid auth caps view cpu symb"
    and "auth w \<noteq> 0" and "machine_run cpu rsp k (view w) = Some m"
  shows "\<exists>w'. step_until pk pid rsp (m_regs (view w)) w = Some (Some (m_regs m), w') \<and> leaves pk auth caps view m w w'"
  using assms(2,3)
proof (induction k arbitrary: w)
  case 0
  then show ?case
    by (auto simp: machine_run.simps [of _ _ 0] step_until.simps [of _ _ _ "m_regs (view w)"] leaves_def keeps_creds_def
             split: if_splits)
next
  case (Suc k)
  show ?case
  proof (cases "word_sle (r_rsp (m_regs (view w))) rsp")
    case False
    with Suc.prems show ?thesis
      by (auto simp: machine_run.simps [of _ _ "Suc k"] step_until.simps [of _ _ _ "m_regs (view w)"] leaves_def keeps_creds_def)
  next
    case True
    obtain w1 where w1: "pt_step pk pid w = (Some (), w1)" "leaves pk auth caps view (cpu (view w)) w w1"
      using pt_step_view [OF laws] Suc.prems by blast
    then have v1: "auth w1 \<noteq> 0" "view w1 = cpu (view w)" using Suc.prems leaves_auth leaves_view by metis+
    obtain w2 where w2: "pt_getregs pk pid w1 = (Some (m_regs (view w1)), w2)" "leaves pk auth caps view (view w1) w1 w2"
      using pt_getregs_view [OF laws v1(1)] by blast
    then have v2: "auth w2 \<noteq> 0" "view w2 = cpu (view w)" using v1 leaves_auth leaves_view by metis+
    have "machine_run cpu rsp k (view w2) = Some m"
      using Suc.prems True v2 by (simp add: machine_run.simps [of _ _ "Suc k"])
    from Suc.IH [OF v2(1) this] obtain w'
      where w': "step_until pk pid rsp (m_regs (view w2)) w2 = Some (Some (m_regs m), w')" "leaves pk auth caps view m w2 w'"
      by blast
    have "step_until pk pid rsp (m_regs (view w)) w = Some (Some (m_regs m), w')"
      using True w1(1) w2(1) w'(1) v1 v2 by (simp add: step_until.simps [of _ _ _ "m_regs (view w)"])
    then show ?thesis using leaves_trans [OF w1(2) leaves_trans [OF w2(2) w'(2)]] by blast
  qed
qed

lemma run_remote_view:
  assumes laws: "tracee_laws pk pid auth caps view cpu symb" and a: "auth w \<noteq> 0"
    and run: "remote_call cpu k jmp (view w) = Some (v, m)"
  shows "\<exists>w'. run_remote pk pid (m_regs (view w)) jmp w = Some (v, w') \<and> leaves pk auth caps view m w w'"
proof -
  obtain m' where m': "machine_run cpu (r_rsp (m_regs (view w))) k ((view w)\<lparr>m_regs := jmp\<rparr>) = Some m'"
    "v = r_rax (m_regs m')" "m = m'\<lparr>m_regs := m_regs (view w)\<rparr>"
    using run by (auto simp: remote_call_def)
  obtain w1 where w1: "pt_setregs pk pid jmp w = (Some (), w1)" "leaves pk auth caps view ((view w)\<lparr>m_regs := jmp\<rparr>) w w1"
    using pt_setregs_view [OF laws a] by blast
  then have v1: "auth w1 \<noteq> 0" "view w1 = (view w)\<lparr>m_regs := jmp\<rparr>" using a leaves_auth leaves_view by metis+
  obtain w2 where w2: "step_until pk pid (r_rsp (m_regs (view w))) jmp w1 = Some (Some (m_regs m'), w2)"
    "leaves pk auth caps view m' w1 w2"
    using step_until_view [OF laws v1(1)] m'(1) v1(2) by (metis machine.select_convs(1) machine.surjective machine.update_convs(1))
  then have v2: "auth w2 \<noteq> 0" "view w2 = m'" using v1 leaves_auth leaves_view by metis+
  obtain w3 where w3: "pt_setregs pk pid (m_regs (view w)) w2 = (Some (), w3)"
    "leaves pk auth caps view (m'\<lparr>m_regs := m_regs (view w)\<rparr>) w2 w3"
    using pt_setregs_view [OF laws v2(1)] v2 by metis
  have "run_remote pk pid (m_regs (view w)) jmp w = Some (v, w3)"
    unfolding run_remote_def using w1(1) w2(1) w3(1) m'(2) by simp
  then show ?thesis using leaves_trans [OF w1(2) leaves_trans [OF w2(2) w3(2)]] m'(3) by blast
qed

text \<open>A remote call whose value and memory satisfy \<open>Q\<close>, whatever the arguments not passed are.\<close>

lemma pt_call_some:
  assumes laws: "tracee_laws pk pid auth caps view cpu symb" and a: "auth w \<noteq> 0"
    and run: "\<forall>g. \<exists>k v m. remote_call cpu k (call_regs (m_regs (view w)) addr (given_args pk args g)) (view w) = Some (v, m) \<and> Q v m"
  shows "\<exists>w' v m. pt_call pk pid addr args w = Some (v, w') \<and> Q v m \<and> m_regs m = m_regs (view w) \<and> leaves pk auth caps view m w w'"
proof -
  obtain w1 where w1: "pt_getregs pk pid w = (Some (m_regs (view w)), w1)" "leaves pk auth caps view (view w) w w1"
    using pt_getregs_view [OF laws a] by blast
  then have v1: "auth w1 \<noteq> 0" "view w1 = view w" using a leaves_auth leaves_view by metis+
  obtain k v m where m: "remote_call cpu k (call_regs (m_regs (view w)) addr (va_arg pk args w1)) (view w1) = Some (v, m)" "Q v m"
    using run v1(2) unfolding va_arg_given by metis
  obtain w' where w': "run_remote pk pid (m_regs (view w1)) (call_regs (m_regs (view w)) addr (va_arg pk args w1)) w1 = Some (v, w')"
    "leaves pk auth caps view m w1 w'"
    using run_remote_view [OF laws v1(1) m(1)] by blast
  have "pt_call pk pid addr args w = Some (v, w')" unfolding pt_call_def using w1(1) w'(1) v1(2) by simp
  moreover have "m_regs m = m_regs (view w)" using m(1) v1(2) by (auto simp: remote_call_def)
  ultimately show ?thesis using m(2) leaves_trans [OF w1(2) w'(2)] by blast
qed

text \<open>Property C4.
  \<^verbatim>\<open>pt_call\<close> implements the specification of a remote call: if the traced process, started at the
  function with the arguments in the argument registers (whatever the registers of arguments not
  passed hold), comes back after finitely many instructions with value \<open>v\<close> and memory \<open>m\<close>,
  then the single-stepping loop ends, \<^verbatim>\<open>pt_call\<close> returns \<open>v\<close>, the memory is \<open>m\<close>'s, the registers
  are those from before the call, and the tracer's credentials are its own again.\<close>

theorem pt_call_refines:
  assumes laws: "tracee_laws pk pid auth caps view cpu symb" and a: "auth w \<noteq> 0"
    and run: "\<forall>g. \<exists>k. remote_call cpu k (call_regs (m_regs (view w)) addr (given_args pk args g)) (view w) = Some (v, m)"
  shows "\<exists>w'. pt_call pk pid addr args w = Some (v, w') \<and> view w' = m \<and> m_regs m = m_regs (view w)
      \<and> auth w' = auth w \<and> caps w' = caps w"
proof -
  from run have "\<forall>g. \<exists>k v' m'. remote_call cpu k (call_regs (m_regs (view w)) addr (given_args pk args g)) (view w) = Some (v', m')
      \<and> v' = v \<and> m' = m" by metis
  from pt_call_some [OF laws a this] show ?thesis by (auto simp: leaves_def keeps_creds_def)
qed

lemma pt_resolve_view:
  assumes laws: "tracee_laws pk pid auth caps view cpu symb"
  shows "\<exists>w'. pt_resolve pk pid nid w = (if symb 0x1 nid \<noteq> 0 then symb 0x1 nid else symb 0x2001 nid, w')
      \<and> leaves pk auth caps view (view w) w w'"
proof -
  have r: "\<exists>x'. pk_resolve pk pid h nid x = (symb h nid, x') \<and> leaves pk auth caps view (view x) x x'" for h x
    using laws by (intro exI [of _ "snd (pk_resolve pk pid h nid x)"]) (auto simp: tracee_laws_def leaves_def intro: prod_eqI)
  obtain w1 where w1: "pk_resolve pk pid 0x1 nid w = (symb 0x1 nid, w1)" "leaves pk auth caps view (view w) w w1" using r by blast
  obtain w2 where w2: "pk_resolve pk pid 0x2001 nid w1 = (symb 0x2001 nid, w2)" "leaves pk auth caps view (view w1) w1 w2"
    using r by blast
  show ?thesis
    unfolding pt_resolve_def using w1 w2 leaves_trans [OF w1(2) w2(2)] leaves_view [OF w1(2)] by simp
qed

lemma pt_syscall_some:
  assumes laws: "tracee_laws pk pid auth caps view cpu symb" and a: "auth w \<noteq> 0"
    and addr: "addr = (if symb 0x1 ''HoLVWNanBBc'' \<noteq> 0 then symb 0x1 ''HoLVWNanBBc'' else symb 0x2001 ''HoLVWNanBBc'')"
    and nz: "addr \<noteq> 0"
    and run: "\<forall>g. \<exists>k v m. remote_call cpu k (syscall_regs (m_regs (view w)) (addr + 0xa) sysno (given_args pk args g)) (view w) = Some (v, m)
      \<and> Q v m"
  shows "\<exists>w' v m. pt_syscall pk pid sysno args w = Some (v, w') \<and> Q v m \<and> m_regs m = m_regs (view w)
      \<and> leaves pk auth caps view m w w'"
proof -
  obtain w0 where w0: "pt_resolve pk pid ''HoLVWNanBBc'' w = (addr, w0)" "leaves pk auth caps view (view w) w w0"
    using pt_resolve_view [OF laws] unfolding addr by blast
  then have v0: "auth w0 \<noteq> 0" "view w0 = view w" using a leaves_auth leaves_view by metis+
  obtain w1 where w1: "pt_getregs pk pid w0 = (Some (m_regs (view w)), w1)" "leaves pk auth caps view (view w) w0 w1"
    using pt_getregs_view [OF laws v0(1)] v0(2) by auto
  then have v1: "auth w1 \<noteq> 0" "view w1 = view w" using v0 leaves_auth leaves_view by metis+
  obtain k v m where m: "remote_call cpu k (syscall_regs (m_regs (view w)) (addr + 0xa) sysno (va_arg pk args w1)) (view w1) = Some (v, m)"
    "Q v m" using run v1(2) unfolding va_arg_given by metis
  obtain w' where w': "run_remote pk pid (m_regs (view w1))
      (syscall_regs (m_regs (view w)) (addr + 0xa) sysno (va_arg pk args w1)) w1 = Some (v, w')"
    "leaves pk auth caps view m w1 w'"
    using run_remote_view [OF laws v1(1) m(1)] by blast
  have "pt_syscall pk pid sysno args w = Some (v, w')" unfolding pt_syscall_def using nz w0(1) w1(1) w'(1) v1(2) by simp
  moreover have "m_regs m = m_regs (view w)" using m(1) v1(2) by (auto simp: remote_call_def)
  ultimately show ?thesis using m(2) leaves_trans [OF w0(2) leaves_trans [OF w1(2) w'(2)]] by blast
qed

lemma pt_syscall_view:
  assumes laws: "tracee_laws pk pid auth caps view cpu symb" and a: "auth w \<noteq> 0"
    and addr: "addr = (if symb 0x1 ''HoLVWNanBBc'' \<noteq> 0 then symb 0x1 ''HoLVWNanBBc'' else symb 0x2001 ''HoLVWNanBBc'')"
    and nz: "addr \<noteq> 0"
    and run: "\<forall>g. \<exists>k. remote_call cpu k (syscall_regs (m_regs (view w)) (addr + 0xa) sysno (given_args pk args g)) (view w) = Some (v, m)"
  shows "\<exists>w'. pt_syscall pk pid sysno args w = Some (v, w') \<and> leaves pk auth caps view m w w'"
proof -
  from run have "\<forall>g. \<exists>k v' m'. remote_call cpu k (syscall_regs (m_regs (view w)) (addr + 0xa) sysno (given_args pk args g)) (view w)
      = Some (v', m') \<and> v' = v \<and> m' = m" by metis
  from pt_syscall_some [OF laws a addr nz this] show ?thesis by blast
qed

section \<open>A console\<close>

text \<open>
  A concrete instance of the interface: a traced process with registers, memory and instruction
  set \<open>cpu\<close>, credentials, and standard output.
\<close>

record sim =
  s_auth :: u64
  s_caps :: "byte list"
  s_mach :: machine
  s_out :: "string list"

definition sim_pk :: "(machine \<Rightarrow> machine) \<Rightarrow> (u64 \<Rightarrow> string \<Rightarrow> u64) \<Rightarrow> 'a sim_scheme pk" where
  "sim_pk cpu symb = \<lparr>
     pk_getpid = \<lambda>w. 100,
     pk_get_authid = \<lambda>p w. (s_auth w, w),
     pk_get_caps = \<lambda>p w. (Some (s_caps w), w),
     pk_set_authid = \<lambda>p a w. (True, w\<lparr>s_auth := a\<rparr>),
     pk_set_caps = \<lambda>p c w. (True, w\<lparr>s_caps := c\<rparr>),
     pk_trace_me = \<lambda>w. (Some (), w),
     pk_attach = \<lambda>p w. (Some (), w),
     pk_detach = \<lambda>p sg w. (Some (), w),
     pk_follow_fork = \<lambda>p w. (Some (), w),
     pk_lwp_events = \<lambda>p w. (Some (), w),
     pk_lwpinfo = \<lambda>p w. (Some (0x50, 102), w),
     pk_step = \<lambda>p w. (Some (), w\<lparr>s_mach := cpu (s_mach w)\<rparr>),
     pk_continue = \<lambda>p sg w. (Some (), w),
     pk_read_d = \<lambda>p a w. (if mapped (m_mem (s_mach w)) a 4 then Some (to_int32 (uint (le_word (mem_read (m_mem (s_mach w)) a 4) :: u32)))
                       else None, w),
     pk_write_d = \<lambda>p a v w. if mapped (m_mem (s_mach w)) a 4
        then (Some (), w\<lparr>s_mach := (s_mach w)\<lparr>m_mem := mem_write (m_mem (s_mach w)) a (le_bytes 4 (word_of_int v :: u32))\<rparr>\<rparr>)
        else (None, w),
     pk_getregs = \<lambda>p w. (Some (m_regs (s_mach w)), w),
     pk_setregs = \<lambda>p r w. (Some (), w\<lparr>s_mach := (s_mach w)\<lparr>m_regs := r\<rparr>\<rparr>),
     pk_io_write = \<lambda>p a bs w. if mapped (m_mem (s_mach w)) a (length bs)
        then (Some (), w\<lparr>s_mach := (s_mach w)\<lparr>m_mem := mem_write (m_mem (s_mach w)) a bs\<rparr>\<rparr>) else (None, w),
     pk_io_read = \<lambda>p a n w. (if mapped (m_mem (s_mach w)) a n then Some (mem_read (m_mem (s_mach w)) a n) else None, w),
     pk_waitpid = \<lambda>p w. (True, w),
     pk_resolve = \<lambda>p h nid w. (symb h nid, w),
     pk_va = \<lambda>i w. 0,
     pk_widen = \<lambda>n. word_of_int n,
     pk_puts = \<lambda>s w. w\<lparr>s_out := s_out w @ [s]\<rparr>,
     pk_perror = \<lambda>s w. w\<lparr>s_out := s_out w @ [s]\<rparr>,
     pk_strerror = \<lambda>e. ''error '' @ show_int e \<rparr>"

lemma sim_pk_simps [simp]:
  "pk_getpid (sim_pk cpu symb) = (\<lambda>w. 100)"
  "pk_get_authid (sim_pk cpu symb) = (\<lambda>p w. (s_auth w, w))"
  "pk_get_caps (sim_pk cpu symb) = (\<lambda>p w. (Some (s_caps w), w))"
  "pk_set_authid (sim_pk cpu symb) = (\<lambda>p a w. (True, w\<lparr>s_auth := a\<rparr>))"
  "pk_set_caps (sim_pk cpu symb) = (\<lambda>p c w. (True, w\<lparr>s_caps := c\<rparr>))"
  "pk_step (sim_pk cpu symb) = (\<lambda>p w. (Some (), w\<lparr>s_mach := cpu (s_mach w)\<rparr>))"
  "pk_lwpinfo (sim_pk cpu symb) = (\<lambda>p w. (Some (0x50, 102), w))"
  "pk_getregs (sim_pk cpu symb) = (\<lambda>p w. (Some (m_regs (s_mach w)), w))"
  "pk_setregs (sim_pk cpu symb) = (\<lambda>p r w. (Some (), w\<lparr>s_mach := (s_mach w)\<lparr>m_regs := r\<rparr>\<rparr>))"
  "pk_io_write (sim_pk cpu symb) = (\<lambda>p a bs w. if mapped (m_mem (s_mach w)) a (length bs)
        then (Some (), w\<lparr>s_mach := (s_mach w)\<lparr>m_mem := mem_write (m_mem (s_mach w)) a bs\<rparr>\<rparr>) else (None, w))"
  "pk_io_read (sim_pk cpu symb) = (\<lambda>p a n w. (if mapped (m_mem (s_mach w)) a n then Some (mem_read (m_mem (s_mach w)) a n) else None, w))"
  "pk_waitpid (sim_pk cpu symb) = (\<lambda>p w. (True, w))"
  "pk_resolve (sim_pk cpu symb) = (\<lambda>p h nid w. (symb h nid, w))"
  "pk_va (sim_pk cpu symb) = (\<lambda>i w. 0)"
  "pk_widen (sim_pk cpu symb) = (\<lambda>n. word_of_int n)"
  by (simp_all add: sim_pk_def)

lemma mapped_empty [simp]: "mapped Map.empty a n \<longleftrightarrow> n = 0"
  by (auto simp: mapped_def)

lemma sim_cred_laws: "cred_laws (sim_pk cpu symb) s_auth s_caps s_mach"
  by (simp add: cred_laws_def)

lemma sim_laws: "tracee_laws (sim_pk cpu symb) pid s_auth s_caps s_mach cpu symb"
  by (simp add: tracee_laws_def sim_cred_laws keeps_creds_def)

definition sim_regs :: reg where
  "sim_regs = \<lparr>r_rip = 0x400000, r_rsp = 0x7fff0008, r_rax = 7, r_rdi = 0, r_rsi = 0, r_rdx = 0, r_rcx = 0, r_r8 = 0,
     r_r9 = 0, r_r10 = 0, r_others = []\<rparr>"

text \<open>A process whose code is an addition and then a return.\<close>

definition add_ret :: "machine \<Rightarrow> machine" where
  "add_ret m = (if r_rip (m_regs m) = 0x1000
     then m\<lparr>m_regs := (m_regs m)\<lparr>r_rip := 0x1001, r_rax := r_rdi (m_regs m) + r_rsi (m_regs m)\<rparr>\<rparr>
     else m\<lparr>m_regs := (m_regs m)\<lparr>r_rsp := r_rsp (m_regs m) + 8\<rparr>\<rparr>)"

definition sim0 :: sim where
  "sim0 = \<lparr>s_auth = 0x123, s_caps = replicate 16 0, s_mach = \<lparr>m_regs = sim_regs, m_mem = Map.empty\<rparr>, s_out = []\<rparr>"

lemma add_ret_run:
  "remote_call add_ret 2 (call_regs sim_regs 0x1000 (given_args (sim_pk add_ret (\<lambda>h n. 0)) [L64 40, I32 2] g)) (s_mach sim0)
   = Some (42, s_mach sim0)"
  by (simp add: remote_call_def machine_run.simps numeral_2_eq_2 sim0_def sim_regs_def call_regs_def add_ret_def given_args_def
                word_sle_eq)

theorem pt_call_refines_witness:
  "\<exists>w'. pt_call (sim_pk add_ret (\<lambda>h n. 0)) 101 0x1000 [L64 40, I32 2] sim0 = Some (42, w') \<and> s_mach w' = s_mach sim0
      \<and> m_regs (s_mach sim0) = m_regs (s_mach sim0) \<and> s_auth w' = 0x123 \<and> s_caps w' = replicate 16 0"
proof -
  have "s_auth sim0 \<noteq> 0" "m_regs (s_mach sim0) = sim_regs" by (simp_all add: sim0_def)
  then show ?thesis
    using pt_call_refines [OF sim_laws, of sim0 add_ret "0x1000" "\<lambda>h n. 0" "[L64 40, I32 2]" 42 "s_mach sim0" 101] add_ret_run
    by (auto simp: sim0_def)
qed

text \<open>Property C11.
  A \<^verbatim>\<open>ptrace\<close> request is made with the authority id and the full capabilities of a debugger, and
  afterwards the process has its own authority id and capabilities again, whether the request
  succeeded or failed.\<close>

theorem sys_ptrace_credentials:
  assumes "cred_laws pk auth caps view" "auth w \<noteq> 0" "\<forall>v. keeps_creds pk auth caps v (snd (call v))"
  shows "\<exists>v. auth v = 0x4800000000010003 \<and> caps v = replicate 16 0xff \<and> view v = view w
      \<and> fst (sys_ptrace pk call w) = fst (call v)
      \<and> auth (snd (sys_ptrace pk call w)) = auth w \<and> caps (snd (sys_ptrace pk call w)) = caps w"
  using sys_ptrace_call [OF assms(1,2), of call] assms(3)
  by (metis DEBUG_AUTHID_def privcaps_def fst_conv snd_conv keeps_creds_def)

theorem sys_ptrace_credentials_witness:
  "fst (sys_ptrace (sim_pk id (\<lambda>h n. 0)) (pk_io_read (sim_pk id (\<lambda>h n. 0)) 101 0x5000 8) sim0) = None
      \<and> s_auth (snd (sys_ptrace (sim_pk id (\<lambda>h n. 0)) (pk_io_read (sim_pk id (\<lambda>h n. 0)) 101 0x5000 8) sim0)) = 0x123
      \<and> s_caps (snd (sys_ptrace (sim_pk id (\<lambda>h n. 0)) (pk_io_read (sim_pk id (\<lambda>h n. 0)) 101 0x5000 8) sim0)) = replicate 16 0"
  using sys_ptrace_credentials [OF sim_cred_laws, where w = sim0 and cpu1 = id and symb1 = "\<lambda>h n. 0"
      and call = "pk_io_read (sim_pk id (\<lambda>h n. 0)) 101 0x5000 8"]
  by (auto simp: sim0_def keeps_creds_def)

text \<open>The way back is not guarded: when the kernel refuses to restore, the raised authority id stays.\<close>

lemma sys_ptrace_stuck_high:
  assumes "pk_get_authid pk (pk_getpid pk w) w = (a, w)" "a \<noteq> 0" "pk_get_caps pk (pk_getpid pk w) w = (Some c, w)"
    "pk_set_authid pk (pk_getpid pk w) DEBUG_AUTHID w = (True, w')" "auth w' = DEBUG_AUTHID"
    "pk_set_caps pk (pk_getpid pk w) privcaps w' = (False, w')"
  shows "fst (sys_ptrace pk call w) = None \<and> auth (snd (sys_ptrace pk call w)) = DEBUG_AUTHID"
  using assms by (simp add: sys_ptrace_def Let_def)

section \<open>Integers in the memory of the tracee\<close>

lemma mem_read_write: "length bs \<le> 2 ^ 64 \<Longrightarrow> mem_read (mem_write m a bs) a (length bs) = bs"
  by (rule nth_equalityI) (auto simp: mem_read_def mem_write_def unat_of_nat)

lemma mapped_write: "mapped m a n \<Longrightarrow> mapped (mem_write m b bs) a n"
  by (auto simp: mapped_def mem_write_def)

lemma mapped_mono: "mapped m a n \<Longrightarrow> k \<le> n \<Longrightarrow> mapped m a k"
  unfolding mapped_def by (meson less_le_trans)

lemma length_le_bytes [simp]: "length (le_bytes n v) = n"
  by (simp add: le_bytes_def)

lemma le_bytes_Suc: "le_bytes (Suc n) v = ucast v # le_bytes n (drop_bit 8 v)" for v :: "'a::len word"
  by (simp add: le_bytes_def map_upt_Suc drop_bit_drop_bit ac_simps del: upt_Suc)

lemma byte_plus_rest:
  "ucast (ucast v :: byte) + 256 * take_bit n (drop_bit 8 v) = take_bit (n + 8) v" for v :: "'a::len word"
proof -
  have disj: "ucast (ucast v :: byte) AND push_bit 8 (take_bit n (drop_bit 8 v)) = (0 :: 'a word)"
    by (rule bit_word_eqI) (auto simp: bit_simps dest: bit_imp_le_length)
  have "256 * take_bit n (drop_bit 8 v) = push_bit 8 (take_bit n (drop_bit 8 v))" by (simp add: push_bit_eq_mult)
  then have "ucast (ucast v :: byte) + 256 * take_bit n (drop_bit 8 v)
      = ucast (ucast v :: byte) OR push_bit 8 (take_bit n (drop_bit 8 v))"
    using disj by (simp add: disjunctive_add_eq_or)
  also have "\<dots> = take_bit (n + 8) v"
    by (rule bit_word_eqI) (auto simp: bit_simps less_diff_conv dest: bit_imp_le_length)
  finally show ?thesis .
qed

lemma le_word_bytes: "le_word (le_bytes n v) = take_bit (8 * n) v" for v :: "'a::len word"
proof (induction n arbitrary: v)
  case 0
  then show ?case by (simp add: le_bytes_def)
next
  case (Suc n)
  then show ?case by (simp add: le_bytes_Suc byte_plus_rest) (simp add: algebra_simps)
qed

text \<open>
  The interface of an encoding of values as \<open>n\<close> bytes in the tracee, and what storing and loading
  through \<^verbatim>\<open>pt_copyin\<close> and \<^verbatim>\<open>pt_copyout\<close> gives.
\<close>

locale remote_cell =
  fixes enc :: "'a \<Rightarrow> byte list" and dec :: "byte list \<Rightarrow> 'a" and n :: nat
  assumes dec_enc: "dec (enc v) = v"
    and length_enc: "length (enc v) = n"
    and n_small: "n \<le> 2 ^ 64"
begin

lemma store_load:
  assumes laws: "tracee_laws pk pid auth caps view cpu symb" and a: "auth w \<noteq> 0" and m: "mapped (m_mem (view w)) addr n"
  shows "\<exists>w1 w2 bs. pt_copyin pk pid (enc v) addr w = (Some (), w1) \<and> pt_copyout pk pid addr n w1 = (Some bs, w2) \<and> dec bs = v
      \<and> view w2 = view w1 \<and> m_regs (view w1) = m_regs (view w) \<and> auth w2 = auth w"
proof -
  obtain w1 where w1: "pt_copyin pk pid (enc v) addr w = (Some (), w1)"
    "leaves pk auth caps view ((view w)\<lparr>m_mem := mem_write (m_mem (view w)) addr (enc v)\<rparr>) w w1"
    using pt_copyin_view [OF laws a] m by (metis length_enc)
  then have a1: "auth w1 \<noteq> 0" using a leaves_auth by metis
  have v1: "view w1 = (view w)\<lparr>m_mem := mem_write (m_mem (view w)) addr (enc v)\<rparr>" using leaves_view [OF w1(2)] .
  have "mapped (m_mem (view w1)) addr n" using m by (simp add: v1 mapped_write)
  from pt_copyout_view [OF laws a1 this] obtain w2
    where w2: "pt_copyout pk pid addr n w1 = (Some (mem_read (m_mem (view w1)) addr n), w2)"
      "leaves pk auth caps view (view w1) w1 w2" by blast
  have "mem_read (m_mem (view w1)) addr n = enc v"
    using mem_read_write [of "enc v"] n_small by (simp add: v1 length_enc)
  then show ?thesis using w1 w2 v1 leaves_auth [OF w1(2)] leaves_auth [OF w2(2)] leaves_view [OF w2(2)] dec_enc by auto
qed

end

interpretation char_cell: remote_cell "le_bytes 1 :: 8 word \<Rightarrow> byte list" le_word 1
  by unfold_locales (simp_all add: le_word_bytes take_bit_word_eq_self)

interpretation short_cell: remote_cell "le_bytes 2 :: 16 word \<Rightarrow> byte list" le_word 2
  by unfold_locales (simp_all add: le_word_bytes take_bit_word_eq_self)

interpretation long_cell: remote_cell "le_bytes 8 :: 64 word \<Rightarrow> byte list" le_word 8
  by unfold_locales (simp_all add: le_word_bytes take_bit_word_eq_self)

text \<open>Property C21.
  What \<^verbatim>\<open>pt_setchar\<close>, \<^verbatim>\<open>pt_setshort\<close> and \<^verbatim>\<open>pt_setlong\<close> store at a mapped address of the tracee, the
  corresponding \<^verbatim>\<open>pt_get\<close> function reads back.\<close>

theorem remote_roundtrip:
  assumes laws: "tracee_laws pk pid auth caps view cpu symb" and a: "auth w \<noteq> 0" and m: "mapped (m_mem (view w)) addr 8"
  shows "fst (pt_getchar pk pid addr (snd (pt_setchar pk pid addr c w))) = c
    \<and> fst (pt_getshort pk pid addr (snd (pt_setshort pk pid addr s w))) = s
    \<and> fst (pt_getlong pk pid addr (snd (pt_setlong pk pid addr l w))) = l"
proof -
  have le: "mapped (m_mem (view w)) addr 1" "mapped (m_mem (view w)) addr 2" by (rule mapped_mono [OF m], simp)+
  show ?thesis
    using char_cell.store_load [OF laws a le(1), of c] short_cell.store_load [OF laws a le(2), of s]
      long_cell.store_load [OF laws a m, of l]
    by (auto simp: pt_getchar_def pt_setchar_def pt_getshort_def pt_setshort_def pt_getlong_def pt_setlong_def copied_def)
qed

definition sim_mem :: sim where
  "sim_mem = sim0\<lparr>s_mach := \<lparr>m_regs = sim_regs, m_mem = \<lambda>x. Some 0\<rparr>\<rparr>"

theorem remote_roundtrip_witness:
  "fst (pt_getchar (sim_pk id (\<lambda>h n. 0)) 101 16 (snd (pt_setchar (sim_pk id (\<lambda>h n. 0)) 101 16 0xcc sim_mem))) = 0xcc
    \<and> fst (pt_getshort (sim_pk id (\<lambda>h n. 0)) 101 16 (snd (pt_setshort (sim_pk id (\<lambda>h n. 0)) 101 16 0xabcd sim_mem))) = 0xabcd
    \<and> fst (pt_getlong (sim_pk id (\<lambda>h n. 0)) 101 16 (snd (pt_setlong (sim_pk id (\<lambda>h n. 0)) 101 16 0x123456789abcdef0 sim_mem)))
        = 0x123456789abcdef0"
proof (rule remote_roundtrip [OF sim_laws])
  show "s_auth sim_mem \<noteq> 0" by (simp add: sim_mem_def sim0_def)
  show "mapped (m_mem (s_mach sim_mem)) 16 8" by (simp add: sim_mem_def mapped_def)
qed

end
