(* ===== verification/Elfldr.thy ===== *)
theory Elfldr
  imports Pt Os
begin

unbundle bit_operations_syntax

text \<open>
  The ELF loader of \<^verbatim>\<open>shsrv/elfldr.c\<close>: it creates a process, stops it before its \<^verbatim>\<open>main\<close>, and
  through the tracer replaces what it runs by an ELF image held in memory.

  Results are \<open>outcome\<close>s: \<open>Crashed\<close> is an access outside the image (\<^verbatim>\<open>elf\<close>) or outside the local
  mirror of the mapping (\<^verbatim>\<open>base_mirror\<close>). The SDK and system calls of the loader that the tracer
  does not use are the functions of a value of type \<open>'w lk\<close>.
\<close>

section \<open>The interface\<close>

record 'w lk =
  lk_page :: u64
  lk_mmap :: "u64 \<Rightarrow> int \<Rightarrow> int \<Rightarrow> 'w \<Rightarrow> bool \<times> 'w"
  lk_munmap :: "u64 \<Rightarrow> 'w \<Rightarrow> 'w"
  lk_kernel_mprotect :: "int \<Rightarrow> u64 \<Rightarrow> u64 \<Rightarrow> int \<Rightarrow> 'w \<Rightarrow> bool \<times> 'w"
  lk_overlap_sockets :: "int \<Rightarrow> int \<Rightarrow> int \<Rightarrow> 'w \<Rightarrow> bool \<times> 'w"
  lk_proc_file :: "int \<Rightarrow> int \<Rightarrow> 'w \<Rightarrow> u64 \<times> 'w"
  lk_data_base :: u64
  lk_kill :: "int \<Rightarrow> int \<Rightarrow> 'w \<Rightarrow> 'w"
  lk_entry_addr :: "int \<Rightarrow> u64 \<Rightarrow> 'w \<Rightarrow> u64 \<times> 'w"
  lk_set_uid :: "int \<Rightarrow> int \<Rightarrow> 'w \<Rightarrow> bool \<times> 'w"
  lk_getenv :: "string \<Rightarrow> 'w \<Rightarrow> string option"
  lk_getcwd :: "'w \<Rightarrow> string option \<times> 'w"
  lk_environ :: "'w \<Rightarrow> string list"
  lk_kqueue :: "'w \<Rightarrow> int option \<times> 'w"
  lk_malloc :: "u64 \<Rightarrow> 'w \<Rightarrow> bool \<times> 'w"
  lk_free :: "'w \<Rightarrow> 'w"
  lk_close :: "int \<Rightarrow> 'w \<Rightarrow> 'w"
  lk_rfork :: "('w \<Rightarrow> int outcome \<times> 'w) \<Rightarrow> 'w \<Rightarrow> int option \<times> 'w"
  lk_kevent_exec :: "int \<Rightarrow> int \<Rightarrow> 'w \<Rightarrow> bool \<times> 'w"
  lk_budget_set :: "int \<Rightarrow> 'w \<Rightarrow> bool \<times> 'w"
  lk_open :: "string \<Rightarrow> open_flag \<Rightarrow> 'w \<Rightarrow> bool \<times> 'w"
  lk_ptrace_me :: "'w \<Rightarrow> bool \<times> 'w"
  lk_execve :: "string \<Rightarrow> string list \<Rightarrow> 'w \<Rightarrow> bool \<times> 'w"
  lk_klog_perror :: "string \<Rightarrow> 'w \<Rightarrow> 'w"

text \<open>Constants of the system headers.\<close>

definition PROT_READ :: int where "PROT_READ = 1"
definition PROT_WRITE :: int where "PROT_WRITE = 2"
definition PROT_EXEC :: int where "PROT_EXEC = 4"
definition MAP_PRIVATE :: int where "MAP_PRIVATE = 2"
definition MAP_FIXED :: int where "MAP_FIXED = 0x10"
definition MAP_ANONYMOUS :: int where "MAP_ANONYMOUS = 0x1000"
definition MS_SYNC :: int where "MS_SYNC = 0"
definition SIGKILL :: int where "SIGKILL = 9"
definition SIGCONT :: int where "SIGCONT = 19"
definition AF_INET6 :: int where "AF_INET6 = 28"
definition SOCK_DGRAM :: int where "SOCK_DGRAM = 2"
definition IPPROTO_UDP :: int where "IPPROTO_UDP = 17"
definition IPPROTO_IPV6 :: int where "IPPROTO_IPV6 = 41"
definition IPV6_PKTINFO :: int where "IPV6_PKTINFO = 46"
definition IPV6_TCLASS :: int where "IPV6_TCLASS = 61"
definition PF_X :: u32 where "PF_X = 1"
definition PF_W :: u32 where "PF_W = 2"
definition PF_R :: u32 where "PF_R = 4"
definition ET_EXEC :: "16 word" where "ET_EXEC = 2"
definition ET_DYN :: "16 word" where "ET_DYN = 3"
definition PT_LOAD :: u32 where "PT_LOAD = 1"
definition SHT_RELA :: u32 where "SHT_RELA = 4"
definition R_X86_64_RELATIVE :: u64 where "R_X86_64_RELATIVE = 8"

definition IPV6_2292PKTOPTIONS :: int where "IPV6_2292PKTOPTIONS = 25"

section \<open>Pages\<close>

definition ROUND_PG :: "u64 \<Rightarrow> u64 \<Rightarrow> u64" where
  "ROUND_PG page x = (x + (page - 1)) AND NOT (page - 1)"

definition TRUNC_PG :: "u64 \<Rightarrow> u64 \<Rightarrow> u64" where
  "TRUNC_PG page x = x AND NOT (page - 1)"

definition PFLAGS :: "u32 \<Rightarrow> int" where
  "PFLAGS x = (if x AND PF_R \<noteq> 0 then PROT_READ else 0) OR (if x AND PF_W \<noteq> 0 then PROT_WRITE else 0)
     OR (if x AND PF_X \<noteq> 0 then PROT_EXEC else 0)"

section \<open>The file\<close>

record elf64_ehdr =
  e_ident :: "byte list"
  e_type :: "16 word"
  e_entry :: u64
  e_phoff :: u64
  e_shoff :: u64
  e_phnum :: "16 word"
  e_shnum :: "16 word"

record elf64_phdr =
  p_type :: u32
  p_flags :: u32
  p_offset :: u64
  p_vaddr :: u64
  p_filesz :: u64
  p_memsz :: u64

record elf64_shdr =
  sh_type :: u32
  sh_offset :: u64
  sh_size :: u64

record elf64_rela =
  r_offset :: u64
  r_info :: u64
  r_addend :: u64

text \<open>Reads of the file at a 64-bit offset, \<open>None\<close> outside it.\<close>

definition elf_bytes :: "byte list \<Rightarrow> u64 \<Rightarrow> nat \<Rightarrow> byte list option" where
  "elf_bytes elf off n = (if unat off + n \<le> length elf then Some (take n (drop (unat off) elf)) else None)"

definition elf_word :: "byte list \<Rightarrow> u64 \<Rightarrow> nat \<Rightarrow> 'a::len word option" where
  "elf_word elf off n = map_option le_word (elf_bytes elf off n)"

definition read_ehdr :: "byte list \<Rightarrow> elf64_ehdr option" where
  "read_ehdr elf = do {
     ident \<leftarrow> elf_bytes elf 0 16;
     ty \<leftarrow> elf_word elf 16 2;
     entry \<leftarrow> elf_word elf 24 8;
     phoff \<leftarrow> elf_word elf 32 8;
     shoff \<leftarrow> elf_word elf 40 8;
     phnum \<leftarrow> elf_word elf 56 2;
     shnum \<leftarrow> elf_word elf 60 2;
     Some \<lparr>e_ident = ident, e_type = ty, e_entry = entry, e_phoff = phoff, e_shoff = shoff, e_phnum = phnum, e_shnum = shnum\<rparr> }"

definition read_phdr :: "byte list \<Rightarrow> u64 \<Rightarrow> elf64_phdr option" where
  "read_phdr elf off = do {
     ty \<leftarrow> elf_word elf off 4;
     fl \<leftarrow> elf_word elf (off + 4) 4;
     o' \<leftarrow> elf_word elf (off + 8) 8;
     va \<leftarrow> elf_word elf (off + 16) 8;
     fs \<leftarrow> elf_word elf (off + 32) 8;
     ms \<leftarrow> elf_word elf (off + 40) 8;
     Some \<lparr>p_type = ty, p_flags = fl, p_offset = o', p_vaddr = va, p_filesz = fs, p_memsz = ms\<rparr> }"

definition read_shdr :: "byte list \<Rightarrow> u64 \<Rightarrow> elf64_shdr option" where
  "read_shdr elf off = do {
     ty \<leftarrow> elf_word elf (off + 4) 4;
     o' \<leftarrow> elf_word elf (off + 24) 8;
     sz \<leftarrow> elf_word elf (off + 32) 8;
     Some \<lparr>sh_type = ty, sh_offset = o', sh_size = sz\<rparr> }"

definition read_rela :: "byte list \<Rightarrow> u64 \<Rightarrow> elf64_rela option" where
  "read_rela elf off = do {
     o' \<leftarrow> elf_word elf off 8;
     inf' \<leftarrow> elf_word elf (off + 8) 8;
     ad \<leftarrow> elf_word elf (off + 16) 8;
     Some \<lparr>r_offset = o', r_info = inf', r_addend = ad\<rparr> }"

text \<open>A table of \<open>n\<close> entries of a size, from an offset.\<close>

fun read_table :: "(u64 \<Rightarrow> 'a option) \<Rightarrow> u64 \<Rightarrow> u64 \<Rightarrow> nat \<Rightarrow> 'a list option" where
  "read_table rd off sz 0 = Some []"
| "read_table rd off sz (Suc n) = do { x \<leftarrow> rd off; xs \<leftarrow> read_table rd (off + sz) sz n; Some (x # xs) }"

section \<open>Building the image\<close>

text \<open>A write to the mirror at an offset, \<open>None\<close> outside it.\<close>

definition poke :: "byte list \<Rightarrow> u64 \<Rightarrow> byte list \<Rightarrow> byte list option" where
  "poke mirror off bs =
     (if unat off + length bs \<le> length mirror
      then Some (take (unat off) mirror @ bs @ drop (unat off + length bs) mirror) else None)"

definition r_relative :: "u64 \<Rightarrow> elf64_rela \<Rightarrow> byte list \<Rightarrow> byte list option" where
  "r_relative base_addr rela mirror = poke mirror (r_offset rela) (le_bytes 8 (base_addr + r_addend rela))"

definition pt_load :: "byte list \<Rightarrow> elf64_phdr \<Rightarrow> byte list \<Rightarrow> byte list option" where
  "pt_load elf phdr mirror =
     (if p_memsz phdr = 0 then Some mirror
      else if p_filesz phdr = 0 then Some mirror
      else Option.bind (elf_bytes elf (p_offset phdr) (unat (p_filesz phdr))) (poke mirror (p_vaddr phdr)))"

fun load_segments :: "byte list \<Rightarrow> elf64_phdr list \<Rightarrow> byte list \<Rightarrow> byte list option" where
  "load_segments elf [] mirror = Some mirror"
| "load_segments elf (ph # phs) mirror =
     Option.bind (if p_type ph = PT_LOAD then pt_load elf ph mirror else Some mirror) (load_segments elf phs)"

fun relocate :: "u64 \<Rightarrow> elf64_rela list \<Rightarrow> byte list \<Rightarrow> byte list option" where
  "relocate base [] mirror = Some mirror"
| "relocate base (r # rs) mirror =
     Option.bind (if r_info r AND 0xffffffff = R_X86_64_RELATIVE then r_relative base r mirror else Some mirror)
       (relocate base rs)"

fun apply_relocations :: "byte list \<Rightarrow> u64 \<Rightarrow> elf64_shdr list \<Rightarrow> byte list \<Rightarrow> byte list option" where
  "apply_relocations elf base [] mirror = Some mirror"
| "apply_relocations elf base (sh # shs) mirror =
     (if sh_type sh \<noteq> SHT_RELA then apply_relocations elf base shs mirror
      else do { rs \<leftarrow> read_table (read_rela elf) (sh_offset sh) 24 (unat (sh_size sh) div 24);
                m \<leftarrow> relocate base rs mirror;
                apply_relocations elf base shs m })"

definition build_image :: "byte list \<Rightarrow> elf64_ehdr \<Rightarrow> elf64_phdr list \<Rightarrow> u64 \<Rightarrow> u64 \<Rightarrow> byte list option" where
  "build_image elf eh phs base base_size = do {
     m \<leftarrow> load_segments elf phs (replicate (unat base_size) 0);
     shs \<leftarrow> read_table (read_shdr elf) (e_shoff eh) 64 (unat (e_shnum eh));
     apply_relocations elf base shs m }"

section \<open>Loading\<close>

text \<open>The extent of the program headers: the lowest start and the highest end.\<close>

definition vaddr_step :: "elf64_phdr \<Rightarrow> u64 \<times> u64 \<Rightarrow> u64 \<times> u64" where
  "vaddr_step ph b =
     (if p_vaddr ph < fst b then p_vaddr ph else fst b,
      if snd b < p_vaddr ph + p_memsz ph then p_vaddr ph + p_memsz ph else snd b)"

definition vaddr_range :: "u64 \<Rightarrow> elf64_phdr list \<Rightarrow> u64 \<times> u64" where
  "vaddr_range page phs =
     (let b = fold vaddr_step phs (- 1, 0) in (TRUNC_PG page (fst b), ROUND_PG page (snd b)))"

text \<open>The protection bits of the segments; the result is \<^verbatim>\<open>error\<close>.\<close>

fun protect_segments ::
    "'w pk \<Rightarrow> 'w lk \<Rightarrow> int \<Rightarrow> u64 \<Rightarrow> elf64_phdr list \<Rightarrow> bool \<Rightarrow> 'w \<Rightarrow> (bool \<times> 'w) option" where
  "protect_segments pk lk pid base [] err w = Some (err, w)"
| "protect_segments pk lk pid base (ph # phs) err w =
     (if err then Some (err, w)
      else if p_type ph \<noteq> PT_LOAD \<or> p_memsz ph = 0 then protect_segments pk lk pid base phs err w
      else if p_flags ph AND PF_X \<noteq> 0 then
        (case lk_kernel_mprotect lk pid (base + p_vaddr ph) (ROUND_PG (lk_page lk) (p_memsz ph)) (PFLAGS (p_flags ph)) w of
           (ok, w1) \<Rightarrow>
             protect_segments pk lk pid base phs (\<not> ok) (if ok then w1 else pk_perror pk ''kernel_mprotect'' w1))
      else do {
        (r, w1) \<leftarrow> pt_mprotect pk pid (base + p_vaddr ph) (ROUND_PG (lk_page lk) (p_memsz ph)) (PFLAGS (p_flags ph)) w;
        if r \<noteq> 0 then do { (u, w2) \<leftarrow> pt_perror pk pid ''pt_mprotect'' w1; protect_segments pk lk pid base phs True w2 }
        else protect_segments pk lk pid base phs err w1 })"

text \<open>From the copy of the image to the result: the entry address and the base address, 0 on failure.\<close>

definition install_image ::
    "'w pk \<Rightarrow> 'w lk \<Rightarrow> int \<Rightarrow> elf64_ehdr \<Rightarrow> elf64_phdr list \<Rightarrow> u64 \<Rightarrow> u64 \<Rightarrow> byte list \<Rightarrow> 'w
     \<Rightarrow> ((u64 \<times> u64 option) outcome \<times> 'w) option" where
  "install_image pk lk pid eh phs base base_size mirror w = do {
     let (c, w1) = pt_copyin pk pid mirror base w;
     let w2 = (if c = None then pk_perror pk ''pt_copyin'' w1 else w1);
     (err, w3) \<leftarrow> protect_segments pk lk pid base phs (c = None) w2;
     (s, w4) \<leftarrow> pt_msync pk pid base base_size MS_SYNC w3;
     (err', w5) \<leftarrow> (if s \<noteq> 0 then do { (u, w5) \<leftarrow> pt_perror pk pid ''pt_msync'' w4; Some (True, w5) } else Some (err, w4));
     let w6 = lk_munmap lk base_size w5;
     if err' then do { (u, w7) \<leftarrow> pt_munmap pk pid base base_size w6; Some (Ret (0, None), w7) }
     else Some (Ret (base + e_entry eh, Some base), w6) }"

text \<open>From the reservation of the address space on.\<close>

definition map_image ::
    "'w pk \<Rightarrow> 'w lk \<Rightarrow> int \<Rightarrow> byte list \<Rightarrow> elf64_ehdr \<Rightarrow> elf64_phdr list \<Rightarrow> u64 \<Rightarrow> u64 \<Rightarrow> int \<Rightarrow> 'w
     \<Rightarrow> ((u64 \<times> u64 option) outcome \<times> 'w) option" where
  "map_image pk lk pid elf eh phs base0 base_size flags w = do {
     (base, w1) \<leftarrow> pt_mmap pk pid base0 base_size (PROT_READ OR PROT_WRITE) flags (- 1) 0 w;
     if base = - 1 then do { (u, w2) \<leftarrow> pt_perror pk pid ''pt_mmap'' w1; Some (Ret (0, None), w2) }
     else case lk_mmap lk base_size (PROT_READ OR PROT_WRITE) flags w1 of
            (ok, w2) \<Rightarrow>
              if \<not> ok then do { (u, w3) \<leftarrow> pt_munmap pk pid base base_size w2; Some (Ret (0, None), pk_perror pk ''mmap'' w3) }
              else case build_image elf eh phs base base_size of
                     None \<Rightarrow> Some (Crashed, w2)
                   | Some mirror \<Rightarrow> install_image pk lk pid eh phs base base_size mirror w2 }"

definition elf_magic :: "byte list" where "elf_magic = [0x7f, 0x45, 0x4c, 0x46]"

text \<open>
  The program and section header offsets (the first 48 bytes) are read before the magic number is
  looked at, the rest of the header after it.
\<close>

definition elfldr_load ::
    "'w pk \<Rightarrow> 'w lk \<Rightarrow> int \<Rightarrow> byte list \<Rightarrow> 'w \<Rightarrow> ((u64 \<times> u64 option) outcome \<times> 'w) option" where
  "elfldr_load pk lk pid elf w =
     (case elf_bytes elf 0 48 of
        None \<Rightarrow> Some (Crashed, w)
      | Some h \<Rightarrow>
          if take 4 h \<noteq> elf_magic
          then Some (Ret (0, None), pk_puts pk ''elfldr_load: Malformed ELF file'' w)
          else case read_ehdr elf of
                 None \<Rightarrow> Some (Crashed, w)
               | Some eh \<Rightarrow>
                   (case read_table (read_phdr elf) (e_phoff eh) 56 (unat (e_phnum eh)) of
                      None \<Rightarrow> Some (Crashed, w)
                    | Some phs \<Rightarrow>
                        (case vaddr_range (lk_page lk) phs of
                           (lo, hi) \<Rightarrow>
                             if e_type eh = ET_DYN
                             then map_image pk lk pid elf eh phs 0 (hi - lo) (MAP_PRIVATE OR MAP_ANONYMOUS) w
                             else if e_type eh = ET_EXEC
                             then map_image pk lk pid elf eh phs lo (hi - lo) (MAP_PRIVATE OR MAP_ANONYMOUS OR MAP_FIXED) w
                             else Some (Ret (0, None), pk_puts pk ''elfldr_load: ELF type not supported'' w))))"

section \<open>Environment, arguments, registers\<close>

definition cstr_bytes :: "string \<Rightarrow> byte list" where
  "cstr_bytes s = map of_char s @ [0]"

text \<open>The size of the block, and the number of variables, of \<^verbatim>\<open>elfldr_set_environ\<close>.\<close>

definition environ_size :: "u64 \<Rightarrow> string list \<Rightarrow> u64" where
  "environ_size page envp = ROUND_PG page (fold (\<lambda>e sz. sz + (8 + of_nat (length e) + 1)) envp 8)"

text \<open>A failed store: the message, and the block is given back.\<close>

definition environ_fail :: "'w pk \<Rightarrow> int \<Rightarrow> string \<Rightarrow> u64 \<Rightarrow> u64 \<Rightarrow> 'w \<Rightarrow> (int \<times> 'w) option" where
  "environ_fail pk pid msg envp_addr sz w = do { (u, w1) \<leftarrow> pt_munmap pk pid envp_addr sz (pk_perror pk msg w); Some (- 1, w1) }"

text \<open>The loop over the variables; \<open>i\<close> is the index of the next one. \<open>None\<close> inside: all were copied.\<close>

fun environ_loop ::
    "'w pk \<Rightarrow> int \<Rightarrow> u64 \<Rightarrow> u64 \<Rightarrow> nat \<Rightarrow> u64 \<Rightarrow> string list \<Rightarrow> 'w \<Rightarrow> (int option \<times> 'w) option" where
  "environ_loop pk pid envp_addr sz i pos [] w = Some (None, w)"
| "environ_loop pk pid envp_addr sz i pos (e # es) w =
     (case pt_copyin pk pid (cstr_bytes e) pos w of
        (None, w1) \<Rightarrow> map_option (apfst Some) (environ_fail pk pid ''pt_copyin'' envp_addr sz w1)
      | (Some u, w1) \<Rightarrow>
          (case pt_setlong pk pid (envp_addr + of_nat (i * 8)) pos w1 of
             (None, w2) \<Rightarrow> map_option (apfst Some) (environ_fail pk pid ''pt_setlong'' envp_addr sz w2)
           | (Some u, w2) \<Rightarrow> environ_loop pk pid envp_addr sz (Suc i) (pos + of_nat (length e + 1)) es w2))"

definition elfldr_set_environ :: "'w pk \<Rightarrow> 'w lk \<Rightarrow> int \<Rightarrow> string list \<Rightarrow> 'w \<Rightarrow> (int \<times> 'w) option" where
  "elfldr_set_environ pk lk pid envp w =
     (if envp = [] then Some (0, w)
      else do {
        let n = length envp;
        let sz = environ_size (lk_page lk) envp;
        (envp_addr, w1) \<leftarrow> pt_mmap pk pid 0 sz (PROT_WRITE OR PROT_READ) (MAP_ANONYMOUS OR MAP_PRIVATE) (- 1) 0 w;
        if envp_addr = - 1 then do { (u, w2) \<leftarrow> pt_perror pk pid ''pt_mmap'' w1; Some (- 1, w2) }
        else do {
          (r, w2) \<leftarrow> environ_loop pk pid envp_addr sz 0 (envp_addr + of_nat ((n + 1) * 8)) envp w1;
          (case r of
             Some rc \<Rightarrow> Some (rc, w2)
           | None \<Rightarrow>
               (case pt_setlong pk pid (envp_addr + of_nat (n * 8)) 0 w2 of
                  (None, w3) \<Rightarrow> environ_fail pk pid ''pt_setlong'' envp_addr sz w3
                | (Some u, w3) \<Rightarrow>
                    (case pt_resolve pk pid ''+2thxYZ4syk'' w3 of
                       (environ_addr, w4) \<Rightarrow>
                         if environ_addr = 0 then environ_fail pk pid ''pt_resolve'' envp_addr sz w4
                         else case pt_setlong pk pid environ_addr envp_addr w4 of
                                (None, w5) \<Rightarrow> environ_fail pk pid ''pt_setlong'' envp_addr sz w5
                              | (Some u, w5) \<Rightarrow> Some (0, w5)))) } })"

text \<open>Stores whose results are ignored.\<close>

definition set_ints :: "'w pk \<Rightarrow> int \<Rightarrow> (u64 \<times> int) list \<Rightarrow> 'w \<Rightarrow> 'w" where
  "set_ints pk pid xs w = fold (\<lambda>(a, v) w. snd (pt_setint pk pid a v w)) xs w"

definition set_longs :: "'w pk \<Rightarrow> int \<Rightarrow> (u64 \<times> u64) list \<Rightarrow> 'w \<Rightarrow> 'w" where
  "set_longs pk pid xs w = fold (\<lambda>(a, v) w. snd (pt_setlong pk pid a v w)) xs w"

text \<open>A failure with a message from the tracee's \<^verbatim>\<open>errno\<close>.\<close>

definition pt_fail :: "'w pk \<Rightarrow> int \<Rightarrow> string \<Rightarrow> 'r \<Rightarrow> 'w \<Rightarrow> ('r \<times> 'w) option" where
  "pt_fail pk pid msg r w = do { (u, w1) \<leftarrow> pt_perror pk pid msg w; Some (r, w1) }"

text \<open>From the pipe on: the argument block of the payload.\<close>

definition payload_block :: "'w pk \<Rightarrow> 'w lk \<Rightarrow> int \<Rightarrow> u64 \<Rightarrow> int \<Rightarrow> int \<Rightarrow> 'w \<Rightarrow> (u64 \<times> 'w) option" where
  "payload_block pk lk pid buf master_sock victim_sock w = do {
     (r, w1) \<leftarrow> pt_pipe pk pid buf w;
     if r \<noteq> 0 then pt_fail pk pid ''pt_pipe'' 0 w1
     else do {
       let (pipe0, w2) = pt_getint pk pid buf w1;
       let (pipe1, w3) = pt_getint pk pid (buf + 4) w2;
       let rwpipe = buf + 0x100;
       let rwpair = buf + 0x200;
       let (kpipe_addr, w4) = lk_proc_file lk pid pipe0 w3;
       let payloadout = buf + 0x300;
       let (getpid, w5) = pt_resolve pk pid ''HoLVWNanBBc'' w4;
       let w6 = set_longs pk pid [(buf, getpid), (buf + 0x08, rwpipe), (buf + 0x10, rwpair), (buf + 0x18, kpipe_addr),
                                  (buf + 0x20, lk_data_base lk), (buf + 0x28, payloadout)] w5;
       let w7 = set_ints pk pid [(rwpipe, pipe0), (rwpipe + 4, pipe1), (rwpair, master_sock), (rwpair + 4, victim_sock),
                                 (payloadout, 0)] w6;
       Some (buf, w7) } }"

definition elfldr_payload_args :: "'w pk \<Rightarrow> 'w lk \<Rightarrow> int \<Rightarrow> 'w \<Rightarrow> (u64 \<times> 'w) option" where
  "elfldr_payload_args pk lk pid w = do {
     (buf, w1) \<leftarrow> pt_mmap pk pid 0 (lk_page lk) (PROT_READ OR PROT_WRITE) (MAP_ANONYMOUS OR MAP_PRIVATE) (- 1) 0 w;
     if buf = - 1 then pt_fail pk pid ''pt_mmap'' 0 w1
     else do {
       (master_sock, w2) \<leftarrow> pt_socket pk pid AF_INET6 SOCK_DGRAM IPPROTO_UDP w1;
       if master_sock < 0 then pt_fail pk pid ''pt_socket'' 0 w2
       else do {
         let w3 = set_ints pk pid [(buf, 20), (buf + 0x04, IPPROTO_IPV6), (buf + 0x08, IPV6_TCLASS), (buf + 0x0c, 0),
                                   (buf + 0x10, 0), (buf + 0x14, 0)] w2;
         (r, w4) \<leftarrow> pt_setsockopt pk pid master_sock IPPROTO_IPV6 IPV6_2292PKTOPTIONS buf 24 w3;
         if r \<noteq> 0 then pt_fail pk pid ''pt_setsockopt'' 0 w4
         else do {
           (victim_sock, w5) \<leftarrow> pt_socket pk pid AF_INET6 SOCK_DGRAM IPPROTO_UDP w4;
           if victim_sock < 0 then pt_fail pk pid ''pt_socket'' 0 w5
           else do {
             let w6 = set_ints pk pid [(buf, 0), (buf + 0x04, 0), (buf + 0x08, 0), (buf + 0x0c, 0), (buf + 0x10, 0)] w5;
             (r, w7) \<leftarrow> pt_setsockopt pk pid victim_sock IPPROTO_IPV6 IPV6_PKTINFO buf 20 w6;
             if r \<noteq> 0 then pt_fail pk pid ''pt_setsockopt'' 0 w7
             else case lk_overlap_sockets lk pid master_sock victim_sock w7 of
                    (ok, w8) \<Rightarrow>
                      if \<not> ok then Some (0, pk_puts pk ''kernel_overlap_sockets failed'' w8)
                      else payload_block pk lk pid buf master_sock victim_sock w8 } } } } }"

text \<open>The registers at the entry of the ELF: an aligned stack with a return address on it.\<close>

definition entry_regs :: "u64 \<Rightarrow> u64 \<Rightarrow> reg \<Rightarrow> reg" where
  "entry_regs entry args r = r\<lparr>r_rsp := (r_rsp r AND NOT 0xf) - 8, r_rip := entry, r_rdi := args\<rparr>"

definition elfldr_prepare_exec ::
    "'w pk \<Rightarrow> 'w lk \<Rightarrow> int \<Rightarrow> byte list \<Rightarrow> 'w \<Rightarrow> ((int \<times> u64 option) outcome \<times> 'w) option" where
  "elfldr_prepare_exec pk lk pid elf w =
     (case pt_getregs pk pid w of
        (None, w1) \<Rightarrow> Some (Ret (- 1, None), pk_perror pk ''pt_getregs'' w1)
      | (Some r, w1) \<Rightarrow> do {
          (l, w2) \<leftarrow> elfldr_load pk lk pid elf w1;
          (case l of
             Ret (entry, baseaddr) \<Rightarrow>
               if entry = 0 then Some (Ret (- 1, baseaddr), pk_puts pk ''elfldr_load failed'' w2)
               else do {
                 (args, w3) \<leftarrow> elfldr_payload_args pk lk pid w2;
                 if args = 0 then Some (Ret (- 1, baseaddr), pk_puts pk ''elfldr_payload_args failed'' w3)
                 else do {
                   let (s, w4) = pt_setlong pk pid ((r_rsp r AND NOT 0xf) - 8) (r_rip r) w3;
                   (case pt_setregs pk pid (entry_regs entry args r) w4 of
                      (None, w5) \<Rightarrow> Some (Ret (- 1, baseaddr), pk_perror pk ''pt_setregs'' w5)
                    | (Some u, w5) \<Rightarrow> Some (Ret (0, baseaddr), w5)) } }
           | _ \<Rightarrow> Some (Crashed, w2)) })"

text \<open>A string in a page of its own in the tracee, for one system call.\<close>

definition with_string ::
    "'w pk \<Rightarrow> 'w lk \<Rightarrow> int \<Rightarrow> string \<Rightarrow> (u64 \<Rightarrow> 'w \<Rightarrow> (u64 \<times> 'w) option) \<Rightarrow> 'w \<Rightarrow> (int \<times> 'w) option" where
  "with_string pk lk pid s call w = do {
     (buf, w1) \<leftarrow> pt_mmap pk pid 0 (lk_page lk) (PROT_READ OR PROT_WRITE) (MAP_ANONYMOUS OR MAP_PRIVATE) (- 1) 0 w;
     if buf = - 1 then pt_fail pk pid ''pt_mmap'' (- 1) w1
     else do {
       let (c, w2) = pt_copyin pk pid (cstr_bytes s) buf w1;
       (r, w3) \<leftarrow> call buf w2;
       (r', w4) \<leftarrow> pt_msync pk pid buf (lk_page lk) MS_SYNC w3;
       (r'', w5) \<leftarrow> pt_munmap pk pid buf (lk_page lk) w4;
       Some (0, w5) } }"

definition elfldr_set_cwd :: "'w pk \<Rightarrow> 'w lk \<Rightarrow> int \<Rightarrow> string option \<Rightarrow> 'w \<Rightarrow> (int \<times> 'w) option" where
  "elfldr_set_cwd pk lk pid cwd w =
     with_string pk lk pid (case cwd of None \<Rightarrow> ''/'' | Some d \<Rightarrow> d) (\<lambda>buf. pt_syscall pk pid SYS_chdir [L64 buf]) w"

definition elfldr_set_procname :: "'w pk \<Rightarrow> 'w lk \<Rightarrow> int \<Rightarrow> string \<Rightarrow> 'w \<Rightarrow> (int \<times> 'w) option" where
  "elfldr_set_procname pk lk pid name w =
     with_string pk lk pid name (\<lambda>buf. pt_syscall pk pid SYS_thr_set_name [I32 (- 1), L64 buf]) w"

text \<open>One of the three standard descriptors of the tracee becomes a copy of a descriptor of this process.\<close>

definition give_fd :: "'w pk \<Rightarrow> int \<Rightarrow> int \<Rightarrow> int \<Rightarrow> 'w \<Rightarrow> (unit \<times> 'w) option" where
  "give_fd pk pid fd std w =
     (if fd < 0 then Some ((), w)
      else do {
        (fd', w1) \<leftarrow> pt_rdup pk pid (pk_getpid pk w) fd w;
        (r, w2) \<leftarrow> pt_close pk pid std w1;
        (r', w3) \<leftarrow> pt_dup2 pk pid fd' std w2;
        (r'', w4) \<leftarrow> pt_close pk pid fd' w3;
        Some ((), w4) })"

text \<open>The capabilities are given back, whatever the preparation returned.\<close>

definition restore_caps ::
    "'w pk \<Rightarrow> int \<Rightarrow> byte list \<Rightarrow> (int \<times> u64 option) outcome \<Rightarrow> 'w \<Rightarrow> (int \<times> u64 option) outcome \<times> 'w" where
  "restore_caps pk pid orgcaps p w =
     (case p of
        Ret (rc, baseaddr) \<Rightarrow>
          (case pk_set_caps pk pid orgcaps w of
             (ok, w1) \<Rightarrow>
               (Ret (if rc \<noteq> 0 \<or> \<not> ok then - 1 else 0, baseaddr),
                if ok then w1 else pk_puts pk ''kernel_set_ucred_caps failed'' w1))
      | _ \<Rightarrow> (Crashed, w))"

text \<open>The result is \<^verbatim>\<open>error\<close> and what was stored through \<^verbatim>\<open>baseaddr\<close>.\<close>

definition elfldr_debug ::
    "'w pk \<Rightarrow> 'w lk \<Rightarrow> int \<Rightarrow> int \<Rightarrow> int \<Rightarrow> int \<Rightarrow> byte list \<Rightarrow> 'w \<Rightarrow> ((int \<times> u64 option) outcome \<times> 'w) option" where
  "elfldr_debug pk lk stdin_fd stdout_fd stderr_fd pid elf w =
     (case pk_get_caps pk pid w of
        (None, w1) \<Rightarrow> Some (Ret (- 1, None), pk_puts pk ''kernel_get_ucred_caps failed'' w1)
      | (Some orgcaps, w1) \<Rightarrow>
          (case pk_set_caps pk pid privcaps w1 of
             (False, w2) \<Rightarrow> Some (Ret (- 1, None), pk_puts pk ''kernel_set_ucred_caps failed'' w2)
           | (True, w2) \<Rightarrow> do {
               (u, w3) \<leftarrow> give_fd pk pid stdin_fd 0 w2;
               (u, w4) \<leftarrow> give_fd pk pid stdout_fd 1 w3;
               (u, w5) \<leftarrow> give_fd pk pid stderr_fd 2 w4;
               (p, w6) \<leftarrow> elfldr_prepare_exec pk lk pid elf w5;
               Some (restore_caps pk pid orgcaps p w6) }))"

definition elfldr_exec ::
    "'w pk \<Rightarrow> 'w lk \<Rightarrow> int \<Rightarrow> int \<Rightarrow> int \<Rightarrow> int \<Rightarrow> byte list \<Rightarrow> 'w \<Rightarrow> (int outcome \<times> 'w) option" where
  "elfldr_exec pk lk stdin_fd stdout_fd stderr_fd pid elf w = do {
     (d, w1) \<leftarrow> elfldr_debug pk lk stdin_fd stdout_fd stderr_fd pid elf w;
     (case d of
        Ret (rc, b) \<Rightarrow>
          if rc \<noteq> 0 then Some (Ret (- 1), snd (pt_detach pk pid SIGKILL w1))
          else (case pt_detach pk pid 0 w1 of
                  (None, w2) \<Rightarrow> Some (Ret (- 1), lk_kill lk pid SIGKILL (pk_perror pk ''pt_detach'' w2))
                | (Some u, w2) \<Rightarrow> Some (Ret 0, w2))
      | _ \<Rightarrow> Some (Crashed, w1)) }"

section \<open>A new process\<close>

definition elfldr_set_heap_size :: "'w pk \<Rightarrow> int \<Rightarrow> u64 \<Rightarrow> 'w \<Rightarrow> (int \<times> 'w) option" where
  "elfldr_set_heap_size pk pid sz w = do {
     (sceProcParam, w1) \<leftarrow> pt_sceKernelGetProcParam pk pid w;
     if sceProcParam = 0 then pt_fail pk pid ''pt_sceKernelGetProcParam'' (- 1) w1
     else case pt_copyout pk pid (sceProcParam + 56) 8 w1 of
            (None, w2) \<Rightarrow> Some (- 1, pk_perror pk ''pt_copyout'' w2)
          | (Some b1, w2) \<Rightarrow>
              (let sceLibcParam = le_word b1 in
               case pt_copyout pk pid (sceLibcParam + 16) 8 w2 of
                 (None, w3) \<Rightarrow> Some (- 1, pk_perror pk ''pt_copyout'' w3)
               | (Some b2, w3) \<Rightarrow>
                   (case pt_setlong pk pid (le_word b2) sz w3 of
                      (None, w4) \<Rightarrow> Some (- 1, pk_perror pk ''pt_setlong'' w4)
                    | (Some u, w4) \<Rightarrow>
                        if sz \<noteq> - 1 then Some (0, w4)
                        else case pt_copyout pk pid (sceLibcParam + 72) 8 w4 of
                               (None, w5) \<Rightarrow> Some (- 1, pk_perror pk ''pt_copyout'' w5)
                             | (Some b3, w5) \<Rightarrow>
                                 (case pt_setlong pk pid (sceLibcParam + 32) (le_word b3) w5 of
                                    (r, w6) \<Rightarrow> Some (if r = None then - 1 else 0, w6)))) }"

definition SceSpZeroConf :: string where "SceSpZeroConf = ''/system/vsh/app/NPXS40112/eboot.bin''"

definition sys_budget_set :: "'w lk \<Rightarrow> int \<Rightarrow> 'w \<Rightarrow> bool \<times> 'w" where
  "sys_budget_set lk budget w = lk_budget_set lk budget w"

text \<open>A step of the child that has to succeed.\<close>

definition child_step :: "'w lk \<Rightarrow> string \<Rightarrow> bool \<times> 'w \<Rightarrow> ('w \<Rightarrow> int outcome \<times> 'w) \<Rightarrow> int outcome \<times> 'w" where
  "child_step lk msg x k = (case x of (ok, w) \<Rightarrow> if ok then k w else (Ret (- 1), lk_klog_perror lk msg w))"

definition elfldr_rfork_entry :: "'w lk \<Rightarrow> string list \<Rightarrow> 'w \<Rightarrow> int outcome \<times> 'w" where
  "elfldr_rfork_entry lk av w =
     child_step lk ''sys_budget_set'' (sys_budget_set lk 0 w) (\<lambda>w.
     child_step lk ''open'' (lk_open lk ''/dev/deci_stdin'' O_RDONLY w) (\<lambda>w.
     child_step lk ''open'' (lk_open lk ''/dev/deci_stdout'' O_WRONLY w) (\<lambda>w.
     child_step lk ''open'' (lk_open lk ''/dev/deci_stderr'' O_WRONLY w) (\<lambda>w.
     child_step lk ''ptrace'' (lk_ptrace_me lk w) (\<lambda>w.
     child_step lk ''execve'' (lk_execve lk SceSpZeroConf av w) (\<lambda>w. (Execed, w)))))))"

text \<open>A failure once the child is stopped: the message, and the child is killed.\<close>

definition spawn_fail :: "'w pk \<Rightarrow> int \<Rightarrow> 'w \<Rightarrow> (int outcome \<times> 'w) option" where
  "spawn_fail pk pid w = Some (Ret (- 1), snd (pt_detach pk pid SIGKILL w))"

text \<open>
  The breakpoint at the invocation of \<^verbatim>\<open>main\<close>: it is set, the child runs into it, and it is
  removed. The result is whether the child stands at it.
\<close>

definition run_to_main :: "'w pk \<Rightarrow> 'w lk \<Rightarrow> int \<Rightarrow> 'w \<Rightarrow> bool \<times> 'w" where
  "run_to_main pk lk pid w =
     (case lk_entry_addr lk pid 0 w of
        (entry, w1) \<Rightarrow>
          if entry = 0 then (False, pk_puts pk ''kernel_dynlib_entry_addr failed'' w1)
          else
            (let brkpoint = entry + 58 in
             case lk_kernel_mprotect lk pid brkpoint (lk_page lk) (PROT_READ OR PROT_WRITE OR PROT_EXEC) w1 of
               (False, w2) \<Rightarrow> (False, pk_puts pk ''kernel_mprotect failed'' w2)
             | (True, w2) \<Rightarrow>
                 (case pt_copyout pk pid brkpoint 1 w2 of
                    (None, w3) \<Rightarrow> (False, pk_perror pk ''pt_copyout'' w3)
                  | (Some orginstr, w3) \<Rightarrow>
                      (case pt_copyin pk pid [0xcc] brkpoint w3 of
                         (None, w4) \<Rightarrow> (False, pk_perror pk ''pt_copyin'' w4)
                       | (Some u, w4) \<Rightarrow>
                           (case pt_continue pk pid SIGCONT w4 of
                              (None, w5) \<Rightarrow> (False, pk_perror pk ''pt_continue'' w5)
                            | (Some u, w5) \<Rightarrow>
                                (case pk_waitpid pk pid w5 of
                                   (False, w6) \<Rightarrow> (False, pk_perror pk ''waitpid'' w6)
                                 | (True, w6) \<Rightarrow>
                                     (case pt_copyin pk pid orginstr brkpoint w6 of
                                        (None, w7) \<Rightarrow> (False, pk_perror pk ''pt_copyin'' w7)
                                      | (Some u, w7) \<Rightarrow> (True, w7))))))))"

text \<open>From the stop after \<^verbatim>\<open>execve\<close> on.\<close>

definition spawn_stopped ::
    "'w pk \<Rightarrow> 'w lk \<Rightarrow> int \<Rightarrow> int \<Rightarrow> int \<Rightarrow> byte list \<Rightarrow> string list \<Rightarrow> string option \<Rightarrow> int \<Rightarrow> 'w \<Rightarrow> (int outcome \<times> 'w) option" where
  "spawn_stopped pk lk stdin_fd stdout_fd stderr_fd elf av cwd pid w = do {
     (r, w1) \<leftarrow> pt_syscall pk pid 599 [] w;
     if r \<noteq> 0 then spawn_fail pk pid (pk_puts pk ''sys_dynlib_process_needed_and_relocate failed'' w1)
     else do {
       (h, w2) \<leftarrow> elfldr_set_heap_size pk pid (- 1) w1;
       case run_to_main pk lk pid w2 of
         (False, w3) \<Rightarrow> spawn_fail pk pid w3
       | (True, w3) \<Rightarrow> do {
           let (ok, w4) = lk_set_uid lk pid 0 w3;
           let w5 = (if ok then w4 else pk_perror pk ''kernel_set_ucred_uid failed()'' w4);
           (p, w6) \<leftarrow> elfldr_set_procname pk lk pid (hd av) w5;
           (e, w7) \<leftarrow> elfldr_set_environ pk lk pid (lk_environ lk w6) w6;
           (c, w8) \<leftarrow> elfldr_set_cwd pk lk pid cwd w7;
           (x, w9) \<leftarrow> elfldr_exec pk lk stdin_fd stdout_fd stderr_fd pid elf w8;
           Some (case x of Ret rc \<Rightarrow> Ret (if rc \<noteq> 0 then - 1 else pid) | _ \<Rightarrow> Crashed, w9) } } }"

text \<open>A failure before that: the message, and the stack and the queue are given back.\<close>

definition early_fail :: "'w pk \<Rightarrow> 'w lk \<Rightarrow> string \<Rightarrow> int \<Rightarrow> 'w \<Rightarrow> (int outcome \<times> 'w) option" where
  "early_fail pk lk msg kq w = Some (Ret (- 1), lk_close lk kq (lk_free lk (pk_perror pk msg w)))"

definition elfldr_spawn ::
    "'w pk \<Rightarrow> 'w lk \<Rightarrow> int \<Rightarrow> int \<Rightarrow> int \<Rightarrow> byte list \<Rightarrow> string list \<Rightarrow> 'w \<Rightarrow> (int outcome \<times> 'w) option" where
  "elfldr_spawn pk lk stdin_fd stdout_fd stderr_fd elf av w =
     (case (case lk_getenv lk ''PWD'' w of Some d \<Rightarrow> (Some d, w) | None \<Rightarrow> lk_getcwd lk w) of
        (cwd, w0) \<Rightarrow>
          (case lk_kqueue lk w0 of
             (None, w1) \<Rightarrow> Some (Ret (- 1), pk_perror pk ''kqueue'' w1)
           | (Some kq, w1) \<Rightarrow>
               (case lk_malloc lk (lk_page lk) w1 of
                  (False, w2) \<Rightarrow> Some (Ret (- 1), lk_close lk kq (pk_perror pk ''malloc'' w2))
                | (True, w2) \<Rightarrow>
                    (case lk_rfork lk (elfldr_rfork_entry lk av) w2 of
                       (None, w3) \<Rightarrow> early_fail pk lk ''rfork_thread'' kq w3
                     | (Some pid, w3) \<Rightarrow>
                         (case lk_kevent_exec lk kq pid w3 of
                            (False, w4) \<Rightarrow> early_fail pk lk ''kevent'' kq w4
                          | (True, w4) \<Rightarrow>
                              (case pk_waitpid pk pid w4 of
                                 (False, w5) \<Rightarrow> early_fail pk lk ''waitpid'' kq w5
                               | (True, w5) \<Rightarrow>
                                   spawn_stopped pk lk stdin_fd stdout_fd stderr_fd elf av cwd pid
                                     (lk_close lk kq (lk_free lk w5))))))))"

section \<open>Files with a header\<close>

lemma read_ehdr_ident: "read_ehdr elf = Some eh \<Longrightarrow> \<exists>h. elf_bytes elf 0 48 = Some h \<and> take 4 h = take 4 (e_ident eh)"
  by (auto simp: read_ehdr_def elf_word_def elf_bytes_def bind_eq_Some_conv split: if_splits)

lemma elfldr_load_header:
  assumes "read_ehdr elf = Some eh" "take 4 (e_ident eh) = elf_magic"
    "read_table (read_phdr elf) (e_phoff eh) 56 (unat (e_phnum eh)) = Some phs" "vaddr_range (lk_page lk) phs = (lo, hi)"
  shows "elfldr_load pk lk pid elf w =
    (if e_type eh = ET_DYN then map_image pk lk pid elf eh phs 0 (hi - lo) (MAP_PRIVATE OR MAP_ANONYMOUS) w
     else if e_type eh = ET_EXEC then map_image pk lk pid elf eh phs lo (hi - lo) (MAP_PRIVATE OR MAP_ANONYMOUS OR MAP_FIXED) w
     else Some (Ret (0, None), pk_puts pk ''elfldr_load: ELF type not supported'' w))"
  using read_ehdr_ident [OF assms(1)] assms by (auto simp: elfldr_load_def)

section \<open>A console with system calls\<close>

text \<open>
  A concrete traced process for the loader: the instruction at \<open>0x900a\<close> is a system call that returns; \<^verbatim>\<open>mmap\<close>
  maps zeroed memory at \<open>0x10000000\<close>, every other one returns 0. All symbols of its libraries are at two addresses.
\<close>

definition sys_cpu :: "machine \<Rightarrow> machine" where
  "sys_cpu m =
     (let r = m_regs m in
      if r_rip r = 0x900a \<and> r_rax r = 477
      then \<lparr>m_regs = r\<lparr>r_rax := 0x10000000, r_rsp := r_rsp r + 8\<rparr>,
            m_mem = (\<lambda>x. if x - 0x10000000 < r_rsi r then Some 0 else m_mem m x)\<rparr>
      else m\<lparr>m_regs := r\<lparr>r_rax := 0, r_rsp := r_rsp r + 8\<rparr>\<rparr>)"

definition sys_symb :: "u64 \<Rightarrow> string \<Rightarrow> u64" where
  "sys_symb h nid = (if h = 1 then if nid = ''+2thxYZ4syk'' then 0x8000 else 0x9000 else 0)"

abbreviation sys_pk :: "sim pk" where
  "sys_pk \<equiv> sim_pk sys_cpu sys_symb"

definition any_lk :: "'a sim_scheme lk" where
  "any_lk = \<lparr>
     lk_page = 0x4000,
     lk_mmap = \<lambda>len prot flags w. (True, w),
     lk_munmap = \<lambda>len w. w,
     lk_kernel_mprotect = \<lambda>p a len prot w. (True, w),
     lk_overlap_sockets = \<lambda>p a b w. (True, w),
     lk_proc_file = \<lambda>p fd w. (0x777, w),
     lk_data_base = 0x888,
     lk_kill = \<lambda>p sg w. w,
     lk_entry_addr = \<lambda>p h w. (0x400000, w),
     lk_set_uid = \<lambda>p u w. (True, w),
     lk_getenv = \<lambda>n w. Some ''/data'',
     lk_getcwd = \<lambda>w. (Some ''/'', w),
     lk_environ = \<lambda>w. [],
     lk_kqueue = \<lambda>w. (Some 9, w),
     lk_malloc = \<lambda>n w. (True, w),
     lk_free = \<lambda>w. w,
     lk_close = \<lambda>fd w. w,
     lk_rfork = \<lambda>child w. (Some 101, w),
     lk_kevent_exec = \<lambda>kq p w. (True, w),
     lk_budget_set = \<lambda>b w. (True, w),
     lk_open = \<lambda>path fl w. (True, w),
     lk_ptrace_me = \<lambda>w. (True, w),
     lk_execve = \<lambda>path av w. (True, w),
     lk_klog_perror = \<lambda>s w. w \<rparr>"

abbreviation sim_lk :: "sim lk" where
  "sim_lk \<equiv> any_lk"

lemmas sim_lk_def = any_lk_def

definition sys_sim :: sim where
  "sys_sim = sim0\<lparr>s_mach := \<lparr>m_regs = sim_regs, m_mem = (\<lambda>x. if x - 0x8000 < 0x1000 then Some 0 else None)\<rparr>\<rparr>"

lemma sys_call:
  assumes "r_rsp (m_regs m) = 0x7fff0008"
  shows "remote_call sys_cpu (Suc 0) (syscall_regs (m_regs m) 0x900a sysno a) m =
     Some (if word_of_int sysno = (477 :: u64) then (0x10000000, m\<lparr>m_mem := (\<lambda>x. if x - 0x10000000 < a 1 then Some 0 else m_mem m x)\<rparr>)
           else (0, m))"
  using assms by (cases m) (auto simp: remote_call_def machine_run.simps sys_cpu_def syscall_regs_def word_sle_eq)

lemma sys_syscall:
  assumes "s_auth w \<noteq> 0" "r_rsp (m_regs (s_mach w)) = 0x7fff0008" "1 < length args"
  shows "\<exists>w'. pt_syscall sys_pk pid sysno args w =
       Some (if word_of_int sysno = (477 :: u64) then 0x10000000 else 0, w')
     \<and> s_auth w' = s_auth w \<and> s_caps w' = s_caps w
     \<and> s_mach w' = (if word_of_int sysno = (477 :: u64)
          then (s_mach w)\<lparr>m_mem := (\<lambda>x. if x - 0x10000000 < arg_word sys_pk (args ! 1) then Some 0 else m_mem (s_mach w) x)\<rparr>
          else s_mach w)"
proof -
  let ?m = "if word_of_int sysno = (477 :: u64)
          then (s_mach w)\<lparr>m_mem := (\<lambda>x. if x - 0x10000000 < arg_word sys_pk (args ! 1) then Some 0 else m_mem (s_mach w) x)\<rparr>
          else s_mach w"
  have "\<exists>w'. pt_syscall sys_pk pid sysno args w = Some (if word_of_int sysno = (477 :: u64) then 0x10000000 else 0, w')
     \<and> leaves sys_pk s_auth s_caps s_mach ?m w w'"
    by (rule pt_syscall_view [OF sim_laws assms(1), where addr = "0x9000"])
       (use assms in \<open>auto simp: sys_symb_def sys_call given_args_def intro!: exI [of _ "Suc 0"]\<close>)
  then show ?thesis by (auto simp: leaves_def keeps_creds_def)
qed

end
