(* ===== verification/Elf_Frame.thy ===== *)
theory Elf_Frame
  imports Elfldr
begin

text \<open>
  What the loader does to the process it runs in. The locale \<open>tracer_frame\<close> says of a view \<open>v\<close> of that process (the
  descriptor table, for one) that the requests on the traced process and the SDK calls leave it alone, and that an
  event queue is a new descriptor which \<^verbatim>\<open>close\<close> removes. The rules of the collection \<open>frames\<close> carry this along the
  code, one function after the other, up to \<^verbatim>\<open>elfldr_spawn\<close>.
\<close>

named_theorems frames \<open>operations of the tracer and the loader that leave the view alone\<close>

locale tracer_frame =
  fixes pk :: "'w pk" and lk :: "'w lk" and v :: "'w \<Rightarrow> int \<Rightarrow> 'o option"
  assumes tracer_calls [simp]: "v (snd (pk_get_authid pk p w)) = v w" "v (snd (pk_get_caps pk p w)) = v w"
      "v (snd (pk_set_authid pk p a w)) = v w" "v (snd (pk_set_caps pk p bs w)) = v w"
      "v (snd (pk_detach pk p i w)) = v w" "v (snd (pk_step pk p w)) = v w" "v (snd (pk_continue pk p i w)) = v w"
      "v (snd (pk_read_d pk p a w)) = v w" "v (snd (pk_write_d pk p a i w)) = v w" "v (snd (pk_getregs pk p w)) = v w"
      "v (snd (pk_setregs pk p r w)) = v w" "v (snd (pk_io_write pk p a bs w)) = v w" "v (snd (pk_io_read pk p a n w)) = v w"
      "v (snd (pk_waitpid pk p w)) = v w" "v (snd (pk_resolve pk p a nid w)) = v w" "v (pk_puts pk nid w) = v w"
      "v (pk_perror pk nid w) = v w"
    and loader_calls [simp]: "v (snd (lk_mmap lk a i j w)) = v w" "v (lk_munmap lk a w) = v w"
      "v (snd (lk_kernel_mprotect lk p a b i w)) = v w" "v (snd (lk_overlap_sockets lk p i j w)) = v w"
      "v (snd (lk_proc_file lk p i w)) = v w" "v (lk_kill lk p i w) = v w" "v (snd (lk_entry_addr lk p a w)) = v w"
      "v (snd (lk_set_uid lk p i w)) = v w" "v (snd (lk_getcwd lk w)) = v w" "v (snd (lk_malloc lk a w)) = v w"
      "v (lk_free lk w) = v w" "v (snd (lk_rfork lk c w)) = v w" "v (snd (lk_kevent_exec lk i p w)) = v w"
    and queue: "lk_kqueue lk w = (Some kq, w1) \<Longrightarrow> (v w1)(kq := None) = v w" "lk_kqueue lk w = (None, w1) \<Longrightarrow> v w1 = v w"
    and close [simp]: "v (lk_close lk fd w) = (v w)(fd := None)"
begin

lemma calls_pair [frames]:
  "pk_get_authid pk p w = (r1, w1) \<Longrightarrow> v w1 = v w" "pk_get_caps pk p w = (r2, w1) \<Longrightarrow> v w1 = v w"
  "pk_set_authid pk p a w = (r3, w1) \<Longrightarrow> v w1 = v w" "pk_set_caps pk p bs w = (r3, w1) \<Longrightarrow> v w1 = v w"
  "pk_waitpid pk p w = (r3, w1) \<Longrightarrow> v w1 = v w" "pk_resolve pk p a nid w = (r1, w1) \<Longrightarrow> v w1 = v w"
  "lk_mmap lk a i j w = (r3, w1) \<Longrightarrow> v w1 = v w" "lk_kernel_mprotect lk p a b i w = (r3, w1) \<Longrightarrow> v w1 = v w"
  "lk_overlap_sockets lk p i j w = (r3, w1) \<Longrightarrow> v w1 = v w" "lk_proc_file lk p i w = (r1, w1) \<Longrightarrow> v w1 = v w"
  "lk_entry_addr lk p a w = (r1, w1) \<Longrightarrow> v w1 = v w" "lk_set_uid lk p i w = (r3, w1) \<Longrightarrow> v w1 = v w"
  "lk_getcwd lk w = (r4, w1) \<Longrightarrow> v w1 = v w" "lk_malloc lk a w = (r3, w1) \<Longrightarrow> v w1 = v w"
  "lk_rfork lk c w = (r5, w1) \<Longrightarrow> v w1 = v w" "lk_kevent_exec lk i p w = (r3, w1) \<Longrightarrow> v w1 = v w"
  by (metis tracer_calls loader_calls snd_conv)+

text \<open>The tracer.\<close>

lemma sys_ptrace_frame: "(\<And>u. v (snd (call u)) = v u) \<Longrightarrow> v (snd (sys_ptrace pk call w)) = v w"
  by (auto simp: sys_ptrace_def Let_def split: prod.split option.split bool.split dest!: frames) (metis snd_conv)+

lemma sys_ptrace_pair: "sys_ptrace pk call w = (r, w1) \<Longrightarrow> (\<And>u. v (snd (call u)) = v u) \<Longrightarrow> v w1 = v w"
  using sys_ptrace_frame [of call w] by simp

lemma pt_simps [simp]:
  "v (snd (pt_getint pk p a w)) = v w" "v (snd (pt_setint pk p a i w)) = v w" "v (snd (pt_getregs pk p w)) = v w"
  "v (snd (pt_setregs pk p r w)) = v w" "v (snd (pt_copyin pk p bs a w)) = v w" "v (snd (pt_copyout pk p a n w)) = v w"
  "v (snd (pt_setlong pk p a b w)) = v w" "v (snd (pt_detach pk p i w)) = v w" "v (snd (pt_continue pk p i w)) = v w"
  using sys_ptrace_pair [of "pk_read_d pk p a" w]
  by (auto simp: pt_getint_def pt_setint_def pt_getregs_def pt_setregs_def pt_copyin_def pt_copyout_def pt_setlong_def
      pt_detach_def pt_continue_def sys_ptrace_frame split: prod.split option.split)

lemma pt_step_frame [simp]: "v (snd (pt_step pk p w)) = v w"
  using sys_ptrace_pair [of "pk_step pk p" w] by (auto simp: pt_step_def then_wait_def split: prod.split option.split dest!: frames)

lemma pt_resolve_frame [simp]: "v (snd (pt_resolve pk p nid w)) = v w"
  by (auto simp: pt_resolve_def split: prod.split dest!: frames)

lemma pt_pair [frames]:
  "pt_getint pk p a w = (r1, w1) \<Longrightarrow> v w1 = v w" "pt_getregs pk p w = (r2, w1) \<Longrightarrow> v w1 = v w"
  "pt_setregs pk p r w = (r3, w1) \<Longrightarrow> v w1 = v w" "pt_copyin pk p bs a w = (r3, w1) \<Longrightarrow> v w1 = v w"
  "pt_copyout pk p a n w = (r4, w1) \<Longrightarrow> v w1 = v w" "pt_setlong pk p a b w = (r3, w1) \<Longrightarrow> v w1 = v w"
  "pt_detach pk p i w = (r3, w1) \<Longrightarrow> v w1 = v w" "pt_continue pk p i w = (r3, w1) \<Longrightarrow> v w1 = v w"
  "pt_step pk p w = (r3, w1) \<Longrightarrow> v w1 = v w" "pt_resolve pk p nid w = (r5, w1) \<Longrightarrow> v w1 = v w"
  by (metis pt_simps pt_step_frame pt_resolve_frame snd_conv)+

lemma step_until_frame_of: "step_until pk' p sp r w = Some y \<Longrightarrow> pk' = pk \<Longrightarrow> v (snd y) = v w"
proof (induction pk' p sp r w y rule: step_until.raw_induct [rotated 1, consumes 1, case_names step])
  case (step f pk' p sp r w y)
  show ?case using step(2) step(1) [OF _ step(3)] unfolding step(3)
    by (auto split: prod.splits option.splits if_splits dest!: frames)
qed

lemma run_remote_frame [frames]: "run_remote pk p bak r w = Some (x, w1) \<Longrightarrow> v w1 = v w"
  by (auto simp: run_remote_def split: prod.splits option.splits elim!: bind_SomeE dest!: frames step_until_frame_of [OF _ refl])

lemma pt_call_frame [frames]: "pt_call pk p a args w = Some (x, w1) \<Longrightarrow> v w1 = v w"
  by (auto simp: pt_call_def split: prod.splits option.splits dest!: frames)

lemma pt_syscall_frame [frames]: "pt_syscall pk p n args w = Some (x, w1) \<Longrightarrow> v w1 = v w"
  by (auto simp: pt_syscall_def split: prod.splits option.splits if_splits dest!: frames)

lemma pt_call_nid_frame [frames]: "pt_call_nid pk p nid args w = Some (x, w1) \<Longrightarrow> v w1 = v w"
  by (auto simp: pt_call_nid_def split: prod.splits dest!: frames)

lemma as_int_Some: "as_int x = Some (i, w1) \<Longrightarrow> \<exists>a. x = Some (a, w1)"
  by (auto simp: as_int_def)

lemma pt_calls_frame [frames]:
  "pt_mmap pk p a b i j k c w = Some (x, w1) \<Longrightarrow> v w1 = v w" "pt_msync pk p a b i w = Some (y, w1) \<Longrightarrow> v w1 = v w"
  "pt_munmap pk p a b w = Some (y, w1) \<Longrightarrow> v w1 = v w" "pt_mprotect pk p a b i w = Some (y, w1) \<Longrightarrow> v w1 = v w"
  "pt_socket pk p i j k w = Some (y, w1) \<Longrightarrow> v w1 = v w" "pt_setsockopt pk p i j k a l w = Some (y, w1) \<Longrightarrow> v w1 = v w"
  "pt_close pk p i w = Some (y, w1) \<Longrightarrow> v w1 = v w" "pt_dup2 pk p i j w = Some (y, w1) \<Longrightarrow> v w1 = v w"
  "pt_rdup pk p i j w = Some (y, w1) \<Longrightarrow> v w1 = v w" "pt_pipe pk p a w = Some (y, w1) \<Longrightarrow> v w1 = v w"
  "pt_sceKernelGetProcParam pk p w = Some (x, w1) \<Longrightarrow> v w1 = v w"
  by (auto simp: pt_mmap_def pt_msync_def pt_munmap_def pt_mprotect_def pt_socket_def pt_setsockopt_def pt_close_def pt_dup2_def
      pt_rdup_def pt_pipe_def pt_sceKernelGetProcParam_def dest!: as_int_Some frames)

lemma pt_perror_frame [frames]: "pt_perror pk p s w = Some (u, w1) \<Longrightarrow> v w1 = v w"
  by (auto simp: pt_perror_def split: prod.splits elim!: bind_SomeE dest!: frames)

lemma pt_fail_frame [frames]: "pt_fail pk p s r w = Some (u, w1) \<Longrightarrow> v w1 = v w"
  by (auto simp: pt_fail_def elim!: bind_SomeE dest!: frames)

text \<open>The loader.\<close>

lemma set_ints_frame [simp]: "v (set_ints pk p xs w) = v w"
  unfolding set_ints_def by (induction xs arbitrary: w) (auto simp: split_def)

lemma set_longs_frame [simp]: "v (set_longs pk p xs w) = v w"
  unfolding set_longs_def by (induction xs arbitrary: w) (auto simp: split_def)

lemma protect_segments_frame [frames]: "protect_segments pk lk p base phs e w = Some (x, w1) \<Longrightarrow> v w1 = v w"
proof (induction phs arbitrary: e w)
  case (Cons ph phs)
  then show ?case by (auto split: prod.splits if_splits elim!: bind_SomeE dest!: frames)
qed simp

lemma install_image_frame [frames]: "install_image pk lk p eh phs b sz m w = Some (x, w1) \<Longrightarrow> v w1 = v w"
  by (auto simp: install_image_def Let_def split: prod.splits if_splits elim!: bind_SomeE dest!: frames)

lemma map_image_frame [frames]: "map_image pk lk p elf eh phs b sz fl w = Some (x, w1) \<Longrightarrow> v w1 = v w"
  by (auto simp: map_image_def split: prod.splits option.splits if_splits elim!: bind_SomeE dest!: frames)

lemma elfldr_load_frame [frames]: "elfldr_load pk lk p elf w = Some (x, w1) \<Longrightarrow> v w1 = v w"
  by (auto simp: elfldr_load_def split: prod.splits option.splits if_splits dest!: frames)

lemma environ_fail_frame [frames]: "environ_fail pk p s a b w = Some (x, w1) \<Longrightarrow> v w1 = v w"
  by (auto simp: environ_fail_def elim!: bind_SomeE dest!: frames)

lemma environ_loop_frame [frames]: "environ_loop pk p a sz i pos es w = Some (x, w1) \<Longrightarrow> v w1 = v w"
proof (induction es arbitrary: i pos w)
  case (Cons e es)
  then show ?case by (auto split: prod.splits option.splits dest!: frames)
qed simp

lemma elfldr_set_environ_frame [frames]: "elfldr_set_environ pk lk p envp w = Some (x, w1) \<Longrightarrow> v w1 = v w"
  by (auto simp: elfldr_set_environ_def Let_def split: prod.splits option.splits if_splits elim!: bind_SomeE dest!: frames)

lemma payload_block_frame [frames]: "payload_block pk lk p b m k w = Some (x, w1) \<Longrightarrow> v w1 = v w"
  by (auto simp: payload_block_def Let_def split: prod.splits if_splits elim!: bind_SomeE dest!: frames)

lemma elfldr_payload_args_frame [frames]: "elfldr_payload_args pk lk p w = Some (x, w1) \<Longrightarrow> v w1 = v w"
  by (auto simp: elfldr_payload_args_def Let_def split: prod.splits if_splits elim!: bind_SomeE dest!: frames)

lemma elfldr_prepare_exec_frame [frames]: "elfldr_prepare_exec pk lk p elf w = Some (x, w1) \<Longrightarrow> v w1 = v w"
  by (auto simp: elfldr_prepare_exec_def Let_def split: prod.splits option.splits outcome.splits if_splits elim!: bind_SomeE dest!: frames)

lemma with_string_frame:
  "with_string pk lk p s call w = Some (x, w1) \<Longrightarrow> (\<And>b u y u1. call b u = Some (y, u1) \<Longrightarrow> v u1 = v u) \<Longrightarrow> v w1 = v w"
  by (auto simp: with_string_def Let_def split: prod.splits if_splits elim!: bind_SomeE dest!: frames)

lemma elfldr_set_cwd_frame [frames]: "elfldr_set_cwd pk lk p cwd w = Some (x, w1) \<Longrightarrow> v w1 = v w"
  unfolding elfldr_set_cwd_def by (erule with_string_frame) (rule pt_syscall_frame)

lemma elfldr_set_procname_frame [frames]: "elfldr_set_procname pk lk p name w = Some (x, w1) \<Longrightarrow> v w1 = v w"
  unfolding elfldr_set_procname_def by (erule with_string_frame) (rule pt_syscall_frame)

lemma give_fd_frame [frames]: "give_fd pk p fd std w = Some (u, w1) \<Longrightarrow> v w1 = v w"
  by (auto simp: give_fd_def split: if_splits elim!: bind_SomeE dest!: frames)

lemma restore_caps_frame [frames]: "restore_caps pk p c x w = (r, w1) \<Longrightarrow> v w1 = v w"
  by (auto simp: restore_caps_def split: outcome.splits prod.splits if_splits dest!: frames)

lemma elfldr_debug_frame [frames]: "elfldr_debug pk lk i j k p elf w = Some (x, w1) \<Longrightarrow> v w1 = v w"
  by (auto simp: elfldr_debug_def split: prod.splits option.splits bool.splits elim!: bind_SomeE dest!: frames)

lemma elfldr_exec_frame [frames]: "elfldr_exec pk lk i j k p elf w = Some (x, w1) \<Longrightarrow> v w1 = v w"
  by (auto simp: elfldr_exec_def split: outcome.splits prod.splits option.splits if_splits elim!: bind_SomeE dest!: frames)

lemma elfldr_set_heap_size_frame [frames]: "elfldr_set_heap_size pk p sz w = Some (x, w1) \<Longrightarrow> v w1 = v w"
  by (auto simp: elfldr_set_heap_size_def Let_def split: prod.splits option.splits if_splits elim!: bind_SomeE dest!: frames)

lemma run_to_main_frame [frames]: "run_to_main pk lk p w = (b, w1) \<Longrightarrow> v w1 = v w"
  by (auto simp: run_to_main_def Let_def split: prod.splits option.splits bool.splits if_splits dest!: frames)

lemma spawn_fail_frame [frames]: "spawn_fail pk p w = Some (x, w1) \<Longrightarrow> v w1 = v w"
  by (auto simp: spawn_fail_def)

lemma spawn_stopped_frame [frames]: "spawn_stopped pk lk i j k elf av cwd p w = Some (x, w1) \<Longrightarrow> v w1 = v w"
  by (auto simp: spawn_stopped_def Let_def split: prod.splits bool.splits if_splits elim!: bind_SomeE dest!: frames)

lemma early_fail_frame [frames]: "early_fail pk lk s kq w = Some (x, w1) \<Longrightarrow> v w1 = (v w)(kq := None)"
  by (auto simp: early_fail_def)

lemma elfldr_spawn_frame: "elfldr_spawn pk lk i j k elf av w = Some (x, w1) \<Longrightarrow> v w1 = v w"
  by (auto simp: elfldr_spawn_def split: prod.splits option.splits bool.splits dest!: frames queue)

end

end
