(* ===== verification/Elf_Image.thy ===== *)
theory Elf_Image
  imports Elfldr
begin

unbundle bit_operations_syntax

text \<open>
  The image the ELF loader builds in its mirror of the mapping, against a byte-wise reference
  definition; the page arithmetic; which images stay within the mirror and which do not.
\<close>

section \<open>Pages\<close>

lemma u64_less: "unat x < 2 ^ 64" for x :: u64
  using unsigned_less [of x] by simp

lemma unat_page: "k < 64 \<Longrightarrow> unat (2 ^ k :: u64) = 2 ^ k"
  using unat_of_nat [of "2 ^ k", where ?'a = 64] power_strict_increasing [of k 64 "2 :: nat"] by simp

lemma unat_trunc_page: "k < 64 \<Longrightarrow> unat (x AND NOT (2 ^ k - 1)) = unat x div 2 ^ k * 2 ^ k" for x :: u64
proof -
  assume k: "k < 64"
  have "x AND NOT (2 ^ k - 1) = push_bit k (drop_bit k x)"
    by (rule bit_word_eqI) (auto simp: bit_simps mask_eq_exp_minus_1 [symmetric])
  moreover have "unat (push_bit k (drop_bit k x)) = unat x div 2 ^ k * 2 ^ k"
  proof -
    have "unat x div 2 ^ k * 2 ^ k < 2 ^ 64" using le_less_trans [OF div_times_less_eq_dividend u64_less [of x]] .
    moreover have "unat x div 2 ^ k < 2 ^ 64" using le_less_trans [OF div_le_dividend u64_less [of x]] .
    ultimately show ?thesis
      using k by (simp add: unat_page push_bit_eq_mult unat_word_ariths unat_drop_bit_eq drop_bit_eq_div mult.commute)
  qed
  ultimately show ?thesis by simp
qed

lemma unat_page_pred: "k < 64 \<Longrightarrow> unat (2 ^ k - 1 :: u64) = 2 ^ k - 1"
proof -
  assume k: "k < 64"
  have p: "unat (2 ^ k :: u64) = 2 ^ k" by (rule unat_page [OF k])
  then have "(1 :: u64) \<le> 2 ^ k" by (simp add: word_le_nat_alt)
  with p show ?thesis by (simp add: unat_sub)
qed

lemma le_ROUND_PG:
  assumes k: "k < 64" and x: "unat x + 2 ^ k \<le> 2 ^ 64"
  shows "unat x \<le> unat (ROUND_PG (2 ^ k) x)"
proof -
  have r: "unat (x + (2 ^ k - 1)) = unat x + 2 ^ k - 1"
    using x unat_page_pred [OF k] by (simp add: unat_word_ariths)
  have "unat x + 2 ^ k - 1 < (unat x + 2 ^ k - 1) div 2 ^ k * 2 ^ k + 2 ^ k"
    using dividend_less_div_times [of "2 ^ k" "unat x + 2 ^ k - 1"] by simp
  then show ?thesis by (simp add: ROUND_PG_def unat_trunc_page k r)
qed

text \<open>For a page size that is a power of two, \<^verbatim>\<open>TRUNC_PG\<close> is the greatest multiple of the page size below
  its argument, and \<^verbatim>\<open>ROUND_PG\<close> the least one above it, as long as that is below \<open>2 ^ 64\<close>; an
  address in the last page rounds up to 0.\<close>

theorem page_rounding:
  assumes "k < 64"
  shows "unat (TRUNC_PG (2 ^ k) x) = unat x div 2 ^ k * 2 ^ k
    \<and> (unat x + 2 ^ k \<le> 2 ^ 64 \<longrightarrow> unat (ROUND_PG (2 ^ k) x) = (unat x + 2 ^ k - 1) div 2 ^ k * 2 ^ k
        \<and> unat x \<le> unat (ROUND_PG (2 ^ k) x) \<and> unat (ROUND_PG (2 ^ k) x) < unat x + 2 ^ k)
    \<and> (2 ^ 64 < unat x + 2 ^ k \<longrightarrow> ROUND_PG (2 ^ k) x = 0)"
proof (intro conjI impI)
  show "unat (TRUNC_PG (2 ^ k) x) = unat x div 2 ^ k * 2 ^ k" by (simp add: TRUNC_PG_def unat_trunc_page assms)
next
  assume le: "unat x + 2 ^ k \<le> 2 ^ 64"
  have "unat (x + (2 ^ k - 1)) = unat x + 2 ^ k - 1"
    using le unat_page_pred [OF assms] by (simp add: unat_word_ariths)
  then show r: "unat (ROUND_PG (2 ^ k) x) = (unat x + 2 ^ k - 1) div 2 ^ k * 2 ^ k"
    by (simp add: ROUND_PG_def unat_trunc_page assms)
  define p where "p = (2 :: nat) ^ k"
  then have p: "0 < p" by simp
  have hi: "(unat x + p - 1) div p * p \<le> unat x + p - 1" by simp
  have lo: "unat x + p - 1 < (unat x + p - 1) div p * p + p" using p dividend_less_div_times [of p "unat x + p - 1"] by simp
  show "unat x \<le> unat (ROUND_PG (2 ^ k) x)" using p lo unfolding r p_def [symmetric] by linarith
  show "unat (ROUND_PG (2 ^ k) x) < unat x + 2 ^ k" using p hi unfolding r p_def [symmetric] by linarith
next
  assume gt: "2 ^ 64 < unat x + 2 ^ k"
  have "unat (x + (2 ^ k - 1)) = unat x + (2 ^ k - 1) - 2 ^ 64"
    using gt unat_page_pred [OF assms] u64_less [of x] u64_less [of "2 ^ k - 1 :: u64"]
    by (simp add: unat_word_ariths mod_nat_eqI le_mod_geq)
  moreover have "\<dots> < 2 ^ k" using u64_less [of x] gt by linarith
  ultimately have "unat (ROUND_PG (2 ^ k) x) = 0" by (simp add: ROUND_PG_def unat_trunc_page assms)
  then show "ROUND_PG (2 ^ k) x = 0" by (simp add: unat_eq_zero)
qed

theorem page_rounding_witness:
  "unat (TRUNC_PG 0x4000 0x12345) = 0x10000 \<and> unat (ROUND_PG 0x4000 0x12345) = 0x14000 \<and> ROUND_PG 0x4000 (- 5) = 0"
  using page_rounding [of 14 "0x12345"] page_rounding [of 14 "- 5"] by simp

section \<open>Writes to the mirror\<close>

text \<open>A sequence of writes (offset, bytes), and the byte that the last write covering a place leaves there.\<close>

fun pokes :: "(u64 \<times> byte list) list \<Rightarrow> byte list \<Rightarrow> byte list option" where
  "pokes [] m = Some m"
| "pokes (p # ps) m = Option.bind (poke m (fst p) (snd p)) (pokes ps)"

fun last_write :: "(u64 \<times> byte list) list \<Rightarrow> nat \<Rightarrow> byte \<Rightarrow> byte" where
  "last_write [] x b = b"
| "last_write (p # ps) x b =
     last_write ps x (if unat (fst p) \<le> x \<and> x < unat (fst p) + length (snd p) then snd p ! (x - unat (fst p)) else b)"

definition write_fits :: "nat \<Rightarrow> u64 \<times> byte list \<Rightarrow> bool" where
  "write_fits n p \<longleftrightarrow> unat (fst p) + length (snd p) \<le> n"

lemma poke_length: "poke m off bs = Some m' \<Longrightarrow> length m' = length m"
  by (auto simp: poke_def split: if_splits)

lemma poke_nth:
  "poke m off bs = Some m' \<Longrightarrow> x < length m \<Longrightarrow>
     m' ! x = (if unat off \<le> x \<and> x < unat off + length bs then bs ! (x - unat off) else m ! x)"
  by (auto simp: poke_def nth_append min_def split: if_splits)

lemma pokes_eq:
  "pokes ps m = (if list_all (write_fits (length m)) ps then Some (map (\<lambda>x. last_write ps x (m ! x)) [0..<length m]) else None)"
proof (induction ps arbitrary: m)
  case Nil
  then show ?case by (simp add: map_nth)
next
  case (Cons p ps)
  show ?case
  proof (cases "poke m (fst p) (snd p)")
    case None
    then show ?thesis by (auto simp: poke_def write_fits_def split: if_splits)
  next
    case (Some m')
    then have "write_fits (length m) p" by (auto simp: poke_def write_fits_def split: if_splits)
    then show ?thesis using Cons.IH [of m'] poke_length [OF Some] poke_nth [OF Some] Some by simp
  qed
qed

section \<open>Segments and relocations\<close>

text \<open>The writes that loading a segment and applying a relocation amount to.\<close>

definition loadable :: "elf64_phdr \<Rightarrow> bool" where
  "loadable ph \<longleftrightarrow> p_type ph = PT_LOAD \<and> p_memsz ph \<noteq> 0 \<and> p_filesz ph \<noteq> 0"

definition in_file :: "byte list \<Rightarrow> elf64_phdr \<Rightarrow> bool" where
  "in_file elf ph \<longleftrightarrow> unat (p_offset ph) + unat (p_filesz ph) \<le> length elf"

definition seg_write :: "byte list \<Rightarrow> elf64_phdr \<Rightarrow> u64 \<times> byte list" where
  "seg_write elf ph = (p_vaddr ph, take (unat (p_filesz ph)) (drop (unat (p_offset ph)) elf))"

definition relative :: "elf64_rela \<Rightarrow> bool" where
  "relative r \<longleftrightarrow> r_info r AND 0xffffffff = R_X86_64_RELATIVE"

definition rela_write :: "u64 \<Rightarrow> elf64_rela \<Rightarrow> u64 \<times> byte list" where
  "rela_write base r = (r_offset r, le_bytes 8 (base + r_addend r))"

lemma pt_load_eq:
  "p_type ph = PT_LOAD \<Longrightarrow> pt_load elf ph m =
     (if loadable ph then if in_file elf ph then poke m (fst (seg_write elf ph)) (snd (seg_write elf ph)) else None else Some m)"
  by (auto simp: pt_load_def loadable_def in_file_def seg_write_def elf_bytes_def)

lemma not_loadable: "p_type ph \<noteq> PT_LOAD \<Longrightarrow> \<not> loadable ph"
  by (simp add: loadable_def)

lemma load_segments_pokes:
  "load_segments elf phs m =
     (if list_all (in_file elf) (filter loadable phs) then pokes (map (seg_write elf) (filter loadable phs)) m else None)"
proof (induction phs arbitrary: m)
  case (Cons ph phs)
  then show ?case
    by (cases "p_type ph = PT_LOAD") (auto simp: pt_load_eq not_loadable split: bind_splits)
qed simp

lemma relocate_pokes: "relocate base rs m = pokes (map (rela_write base) (filter relative rs)) m"
  by (induction rs arbitrary: m) (auto simp: relative_def r_relative_def rela_write_def split: bind_splits)

text \<open>Property C15.
  Loading the segments into the zeroed mirror gives exactly the reference image: every byte is the one of the file
  that the last loadable segment covering its place has there, and zero where no segment has file contents (the
  \<^verbatim>\<open>.bss\<close>). It fails exactly when a loadable segment reaches past the end of the file or of the mirror.\<close>

theorem load_segments_image:
  "load_segments elf phs (replicate n 0) =
     (if list_all (\<lambda>ph. in_file elf ph \<and> write_fits n (seg_write elf ph)) (filter loadable phs)
      then Some (map (\<lambda>x. last_write (map (seg_write elf) (filter loadable phs)) x 0) [0..<n]) else None)"
proof -
  have "list_all (write_fits n) (map (seg_write elf) xs) \<longleftrightarrow> list_all (\<lambda>ph. write_fits n (seg_write elf ph)) xs" for xs
    by (simp add: list_all_iff)
  then show ?thesis
    by (auto simp: load_segments_pokes pokes_eq list_all_iff)
qed

text \<open>The last write with disjoint writes: each keeps its bytes.\<close>

definition disjoint_writes :: "(u64 \<times> byte list) list \<Rightarrow> bool" where
  "disjoint_writes ps \<longleftrightarrow>
     sorted_wrt (\<lambda>p q. unat (fst p) + length (snd p) \<le> unat (fst q) \<or> unat (fst q) + length (snd q) \<le> unat (fst p)) ps"

lemma last_write_outside:
  "\<forall>p \<in> set ps. x < unat (fst p) \<or> unat (fst p) + length (snd p) \<le> x \<Longrightarrow> last_write ps x b = b"
  by (induction ps arbitrary: b) auto

lemma last_write_disjoint:
  "disjoint_writes ps \<Longrightarrow> p \<in> set ps \<Longrightarrow> i < length (snd p) \<Longrightarrow> last_write ps (unat (fst p) + i) b = snd p ! i"
proof (induction ps arbitrary: b)
  case (Cons q ps)
  show ?case
  proof (cases "p \<in> set ps")
    case True
    with Cons show ?thesis by (simp add: disjoint_writes_def)
  next
    case False
    with Cons.prems have "p = q" by simp
    with Cons.prems have "\<forall>r \<in> set ps. unat (fst p) + i < unat (fst r) \<or> unat (fst r) + length (snd r) \<le> unat (fst p) + i"
      by (fastforce simp: disjoint_writes_def)
    with \<open>p = q\<close> Cons.prems show ?thesis by (simp add: last_write_outside)
  qed
qed simp

text \<open>Property C16.
  Relocating with disjoint slots inside the mirror succeeds; every relative relocation's slot then holds its addend plus
  the base address of the mapping, and every byte outside the slots is as it was.\<close>

theorem relocate_slots:
  assumes dis: "disjoint_writes (map (rela_write base) (filter relative rs))"
    and fits: "\<forall>r \<in> set rs. relative r \<longrightarrow> unat (r_offset r) + 8 \<le> length m"
  shows "\<exists>m'. relocate base rs m = Some m' \<and> length m' = length m
    \<and> (\<forall>r \<in> set rs. relative r \<longrightarrow> le_word (take 8 (drop (unat (r_offset r)) m')) = base + r_addend r)
    \<and> (\<forall>x < length m. (\<forall>r \<in> set rs. relative r \<longrightarrow> x < unat (r_offset r) \<or> unat (r_offset r) + 8 \<le> x) \<longrightarrow> m' ! x = m ! x)"
proof -
  let ?ps = "map (rela_write base) (filter relative rs)"
  let ?m = "map (\<lambda>x. last_write ?ps x (m ! x)) [0..<length m]"
  have ok: "list_all (write_fits (length m)) ?ps" using fits by (auto simp: list_all_iff write_fits_def rela_write_def)
  have slot: "take 8 (drop (unat (r_offset r)) ?m) = le_bytes 8 (base + r_addend r)" if "r \<in> set rs" "relative r" for r
  proof (rule nth_equalityI)
    show "length (take 8 (drop (unat (r_offset r)) ?m)) = length (le_bytes 8 (base + r_addend r))" using that fits by auto
    fix i assume "i < length (take 8 (drop (unat (r_offset r)) ?m))"
    then have "i < 8" "unat (r_offset r) + i < length m" by auto
    then show "take 8 (drop (unat (r_offset r)) ?m) ! i = le_bytes 8 (base + r_addend r) ! i"
      using that last_write_disjoint [OF dis, of "rela_write base r" i] by (simp add: rela_write_def)
  qed
  show ?thesis
  proof (intro exI [of _ ?m] conjI ballI allI impI)
    show "relocate base rs m = Some ?m" using ok by (simp add: relocate_pokes pokes_eq)
    show "le_word (take 8 (drop (unat (r_offset r)) ?m)) = base + r_addend r" if "r \<in> set rs" "relative r" for r
      using slot [OF that] by (simp add: le_word_bytes take_bit_word_eq_self)
    show "?m ! x = m ! x"
      if "x < length m" "\<forall>r \<in> set rs. relative r \<longrightarrow> x < unat (r_offset r) \<or> unat (r_offset r) + 8 \<le> x" for x
      using that last_write_outside [of ?ps x "m ! x"] by (auto simp: rela_write_def)
  qed simp
qed

theorem relocate_slots_witness:
  "\<exists>m'. relocate 0x5000 [\<lparr>r_offset = 8, r_info = 8, r_addend = 0x123\<rparr>, \<lparr>r_offset = 16, r_info = 1, r_addend = 0\<rparr>] (replicate 32 0xaa)
       = Some m' \<and> length m' = 32 \<and> le_word (take 8 (drop 8 m')) = (0x5123 :: u64) \<and> m' ! 16 = 0xaa"
proof -
  let ?rs = "[\<lparr>r_offset = 8, r_info = 8, r_addend = 0x123\<rparr>, \<lparr>r_offset = 16, r_info = 1, r_addend = 0\<rparr>]"
  have "relative \<lparr>r_offset = 8, r_info = 8, r_addend = 0x123\<rparr>" "\<not> relative \<lparr>r_offset = 16, r_info = 1, r_addend = 0\<rparr>"
    by (simp_all add: relative_def R_X86_64_RELATIVE_def)
  then show ?thesis
    using relocate_slots [of "0x5000" ?rs "replicate 32 0xaa"] by (auto simp: disjoint_writes_def)
qed

section \<open>Inside the mirror\<close>

lemma vaddr_fold:
  "fst (fold vaddr_step phs b) \<le> fst b \<and> snd b \<le> snd (fold vaddr_step phs b)
   \<and> (\<forall>ph \<in> set phs. fst (fold vaddr_step phs b) \<le> p_vaddr ph \<and> p_vaddr ph + p_memsz ph \<le> snd (fold vaddr_step phs b))"
proof (induction phs arbitrary: b)
  case (Cons ph phs)
  have "fst (vaddr_step ph b) \<le> fst b" "fst (vaddr_step ph b) \<le> p_vaddr ph" "snd b \<le> snd (vaddr_step ph b)"
    "p_vaddr ph + p_memsz ph \<le> snd (vaddr_step ph b)" by (auto simp: vaddr_step_def)
  then show ?case using Cons.IH [of "vaddr_step ph b"] by (auto intro: order_trans)
qed simp

lemma vaddr_fold_attained:
  "snd (fold vaddr_step phs b) = snd b \<or> (\<exists>ph \<in> set phs. snd (fold vaddr_step phs b) = p_vaddr ph + p_memsz ph)"
proof (induction phs arbitrary: b)
  case (Cons ph phs)
  have "snd (vaddr_step ph b) = snd b \<or> snd (vaddr_step ph b) = p_vaddr ph + p_memsz ph" by (simp add: vaddr_step_def)
  then show ?case using Cons.IH [of "vaddr_step ph b"] by auto
qed simp

definition no_wrap :: "u64 \<Rightarrow> elf64_phdr \<Rightarrow> bool" where
  "no_wrap page ph \<longleftrightarrow> unat (p_vaddr ph) + unat (p_memsz ph) + unat page \<le> 2 ^ 64"

lemma segment_end:
  assumes k: "k < 64" and wrap: "list_all (no_wrap (2 ^ k)) phs" and range: "vaddr_range (2 ^ k) phs = (lo, hi)"
    and ph: "ph \<in> set phs"
  shows "unat (p_vaddr ph) + unat (p_memsz ph) \<le> unat hi"
proof -
  let ?hi = "snd (fold vaddr_step phs (- 1, 0))"
  have nw: "unat (p_vaddr q + p_memsz q) = unat (p_vaddr q) + unat (p_memsz q)"
    "unat (p_vaddr q) + unat (p_memsz q) + 2 ^ k \<le> 2 ^ 64" if "q \<in> set phs" for q
  proof -
    show le: "unat (p_vaddr q) + unat (p_memsz q) + 2 ^ k \<le> 2 ^ 64"
      using wrap that k by (simp add: list_all_iff no_wrap_def unat_page)
    moreover have "(0 :: nat) < 2 ^ k" by simp
    ultimately have "unat (p_vaddr q) + unat (p_memsz q) < 2 ^ 64" by linarith
    then show "unat (p_vaddr q + p_memsz q) = unat (p_vaddr q) + unat (p_memsz q)" by (simp add: unat_word_ariths)
  qed
  have "?hi = 0 \<or> (\<exists>q \<in> set phs. ?hi = p_vaddr q + p_memsz q)" using vaddr_fold_attained [of phs "(- 1, 0)"] by simp
  moreover have "(2 :: nat) ^ k \<le> 2 ^ 64" using k power_increasing [of k 64 "2 :: nat"] by simp
  ultimately have hi_ok: "unat ?hi + 2 ^ k \<le> 2 ^ 64" using nw by auto
  have "unat (p_vaddr ph) + unat (p_memsz ph) \<le> unat ?hi"
    using vaddr_fold [of phs "(- 1, 0)"] ph nw(1) [OF ph] by (metis word_le_nat_alt)
  also have "\<dots> \<le> unat (ROUND_PG (2 ^ k) ?hi)" by (rule le_ROUND_PG [OF k hi_ok])
  finally show ?thesis using range by (auto simp: vaddr_range_def Let_def)
qed

text \<open>All relocations of a file, in the order in which they are applied.\<close>

fun relas :: "byte list \<Rightarrow> elf64_shdr list \<Rightarrow> elf64_rela list option" where
  "relas elf [] = Some []"
| "relas elf (sh # shs) =
     (if sh_type sh \<noteq> SHT_RELA then relas elf shs
      else do { rs \<leftarrow> read_table (read_rela elf) (sh_offset sh) 24 (unat (sh_size sh) div 24);
                rest \<leftarrow> relas elf shs;
                Some (rs @ rest) })"

lemma pokes_append: "pokes (ps @ qs) m = Option.bind (pokes ps m) (pokes qs)"
  by (induction ps arbitrary: m) (auto split: bind_splits)

lemma apply_relocations_pokes:
  "relas elf shs = Some rs \<Longrightarrow> apply_relocations elf base shs m = pokes (map (rela_write base) (filter relative rs)) m"
proof (induction shs arbitrary: rs m)
  case (Cons sh shs)
  show ?case
  proof (cases "sh_type sh = SHT_RELA")
    case True
    with Cons.prems obtain as bs where "read_table (read_rela elf) (sh_offset sh) 24 (unat (sh_size sh) div 24) = Some as"
      "relas elf shs = Some bs" "rs = as @ bs" by (auto simp: bind_eq_Some_conv)
    with True Cons.IH [of bs] show ?thesis by (cases "relocate base as m") (simp_all add: relocate_pokes pokes_append)
  qed (use Cons in simp)
qed simp

text \<open>A relocation whose eight bytes lie in the memory of a segment.\<close>

definition slot_in :: "elf64_phdr \<Rightarrow> elf64_rela \<Rightarrow> bool" where
  "slot_in ph r \<longleftrightarrow> p_vaddr ph \<le> r_offset r \<and> unat (r_offset r) + 8 \<le> unat (p_vaddr ph) + unat (p_memsz ph)"

text \<open>The image, byte by byte: what the last segment or relocation that covers a place has there, else zero.\<close>

definition image_bytes :: "byte list \<Rightarrow> elf64_phdr list \<Rightarrow> u64 \<Rightarrow> elf64_rela list \<Rightarrow> nat \<Rightarrow> byte list" where
  "image_bytes elf phs base rs n =
     map (\<lambda>x. last_write (map (seg_write elf) (filter loadable phs) @ map (rela_write base) (filter relative rs)) x 0) [0..<n]"

text \<open>The loader only leaves its buffers while it builds the image.\<close>

lemma install_image_returns: "install_image pk lk pid eh phs base sz mirror w \<noteq> Some (Crashed, w1)"
  by (auto simp: install_image_def bind_eq_Some_conv Let_def split: prod.splits if_splits)

lemma map_image_returns:
  assumes "\<And>base. build_image elf eh phs base sz = Some (img base)"
  shows "map_image pk lk pid elf eh phs base0 sz flags w \<noteq> Some (Crashed, w1)"
  using assms
  by (auto simp: map_image_def bind_eq_Some_conv install_image_returns split: prod.splits if_splits option.splits)

text \<open>Property C22.
  For a file whose program headers start in page 0 (a position-independent executable), whose segments do not wrap
  around the address space, have no more contents than memory and lie in the file, whose tables lie in the file and whose
  relative relocations lie in the memory of a segment, the loader never leaves its mirror, neither when it loads
  the segments nor when it relocates them: at every base address the image exists, has the size of the mapping and is, byte
  by byte, what the last segment or relocation left there; and \<^verbatim>\<open>elfldr_load\<close> does not crash, whatever the tracee and the
  kernel do.\<close>

theorem load_in_bounds:
  assumes eh: "read_ehdr elf = Some eh" "take 4 (e_ident eh) = elf_magic"
    and phs: "read_table (read_phdr elf) (e_phoff eh) 56 (unat (e_phnum eh)) = Some phs"
    and shs: "read_table (read_shdr elf) (e_shoff eh) 64 (unat (e_shnum eh)) = Some shs" "relas elf shs = Some rs"
    and k: "k < 64" "lk_page lk = 2 ^ k" and range: "vaddr_range (2 ^ k) phs = (0, hi)" and wrap: "list_all (no_wrap (2 ^ k)) phs"
    and segs: "list_all (\<lambda>ph. in_file elf ph \<and> p_filesz ph \<le> p_memsz ph) (filter loadable phs)"
    and slots: "list_all (\<lambda>r. list_ex (\<lambda>ph. slot_in ph r) phs) (filter relative rs)"
  shows "build_image elf eh phs base hi = Some (image_bytes elf phs base rs (unat hi))
    \<and> elfldr_load pk lk pid elf w \<noteq> Some (Crashed, w1)"
proof -
  have seg: "write_fits (unat hi) (seg_write elf ph)" if "ph \<in> set phs" "loadable ph" for ph
  proof -
    have "unat (p_filesz ph) \<le> unat (p_memsz ph)" using segs that by (auto simp: list_all_iff word_le_nat_alt)
    then show ?thesis using segment_end [OF k(1) wrap range that(1)] by (simp add: write_fits_def seg_write_def)
  qed
  have slot: "write_fits (unat hi) (rela_write b r)" if "r \<in> set rs" "relative r" for r b
    using slots that segment_end [OF k(1) wrap range]
    by (fastforce simp: list_all_iff list_ex_iff slot_in_def write_fits_def rela_write_def)
  have image: "build_image elf eh phs b hi = Some (image_bytes elf phs b rs (unat hi))" for b
  proof -
    let ?ss = "map (seg_write elf) (filter loadable phs)" and ?rs = "map (rela_write b) (filter relative rs)"
    have "build_image elf eh phs b hi = Option.bind (pokes ?ss (replicate (unat hi) 0)) (pokes ?rs)"
      using segs shs by (simp add: build_image_def load_segments_pokes apply_relocations_pokes list_all_iff)
    also have "\<dots> = pokes (?ss @ ?rs) (replicate (unat hi) 0)" by (simp only: pokes_append)
    also have "\<dots> = Some (image_bytes elf phs b rs (unat hi))"
      using seg slot by (auto simp: pokes_eq list_all_iff image_bytes_def)
    finally show ?thesis .
  qed
  have "map_image pk lk pid elf eh phs b hi fl w \<noteq> Some (Crashed, w1)" for b fl by (rule map_image_returns [OF image])
  then have "elfldr_load pk lk pid elf w \<noteq> Some (Crashed, w1)"
    using k(2) elfldr_load_header [OF eh phs, of lk 0 hi] range by simp
  with image show ?thesis by blast
qed

text \<open>A file of one segment with eight bytes of contents, all of its fields zero that the loader does not read.\<close>

definition tiny_elf :: "16 word \<Rightarrow> u64 \<Rightarrow> byte list" where
  "tiny_elf ty va =
     elf_magic @ replicate 12 0 @ le_bytes 2 ty @ replicate 6 0 @ le_bytes 8 (va + 4) @ le_bytes 8 (64 :: u64) @ replicate 16 0
     @ le_bytes 2 (1 :: 16 word) @ replicate 6 0
     @ le_bytes 4 PT_LOAD @ le_bytes 4 (5 :: u32) @ le_bytes 8 (120 :: u64) @ le_bytes 8 va @ replicate 8 0 @ le_bytes 8 (8 :: u64)
     @ le_bytes 8 (0x20 :: u64) @ replicate 8 0
     @ [1, 2, 3, 4, 5, 6, 7, 8]"

definition tiny_ehdr :: "16 word \<Rightarrow> u64 \<Rightarrow> elf64_ehdr" where
  "tiny_ehdr ty va = \<lparr>e_ident = elf_magic @ replicate 12 0, e_type = ty, e_entry = va + 4, e_phoff = 64, e_shoff = 0,
     e_phnum = 1, e_shnum = 0\<rparr>"

definition tiny_phdr :: "u64 \<Rightarrow> elf64_phdr" where
  "tiny_phdr va = \<lparr>p_type = PT_LOAD, p_flags = 5, p_offset = 120, p_vaddr = va, p_filesz = 8, p_memsz = 0x20\<rparr>"

lemma le_word_le_bytes: "LENGTH('a) \<le> 8 * n \<Longrightarrow> le_word (le_bytes n v) = v" for v :: "'a::len word"
  by (simp add: le_word_bytes take_bit_word_eq_self)

lemma le_word_zeros: "le_word (replicate n 0) = 0"
  by (induction n) simp_all

lemma tiny_elf_ehdr: "read_ehdr (tiny_elf ty va) = Some (tiny_ehdr ty va)"
  by (simp add: read_ehdr_def elf_word_def elf_bytes_def tiny_elf_def tiny_ehdr_def elf_magic_def le_word_le_bytes le_word_zeros)

lemma tiny_elf_phdrs: "read_table (read_phdr (tiny_elf ty va)) 64 56 (Suc 0) = Some [tiny_phdr va]"
  by (simp add: read_phdr_def elf_word_def elf_bytes_def tiny_elf_def tiny_phdr_def elf_magic_def le_word_le_bytes)

lemma tiny_range: "vaddr_range 0x4000 [tiny_phdr va] = (TRUNC_PG 0x4000 va, ROUND_PG 0x4000 (va + 0x20))"
  if "va + 0x20 \<noteq> 0" "va \<noteq> - 1" for va
  using that by (auto simp: vaddr_range_def vaddr_step_def tiny_phdr_def word_neq_0_conv max_word_max order.not_eq_order_implies_strict)

text \<open>A file with a segment of eight bytes and a relocation of the eight bytes at 16, in the zeros that follow.\<close>

definition rela_ehdr :: elf64_ehdr where
  "rela_ehdr = \<lparr>e_ident = elf_magic @ replicate 12 0, e_type = ET_DYN, e_entry = 4, e_phoff = 64, e_shoff = 128,
     e_phnum = 1, e_shnum = 1\<rparr>"

definition rela_elf :: "byte list" where
  "rela_elf =
     elf_magic @ replicate 12 0 @ le_bytes 2 ET_DYN @ replicate 6 0 @ le_bytes 8 (4 :: u64) @ le_bytes 8 (64 :: u64)
     @ le_bytes 8 (128 :: u64) @ replicate 8 0 @ le_bytes 2 (1 :: 16 word) @ replicate 2 0 @ le_bytes 2 (1 :: 16 word) @ replicate 2 0
     @ le_bytes 4 PT_LOAD @ le_bytes 4 (5 :: u32) @ le_bytes 8 (120 :: u64) @ replicate 16 0 @ le_bytes 8 (8 :: u64)
     @ le_bytes 8 (0x20 :: u64) @ replicate 8 0
     @ [1, 2, 3, 4, 5, 6, 7, 8]
     @ replicate 4 0 @ le_bytes 4 SHT_RELA @ replicate 16 0 @ le_bytes 8 (192 :: u64) @ le_bytes 8 (24 :: u64) @ replicate 24 0
     @ le_bytes 8 (16 :: u64) @ le_bytes 8 (8 :: u64) @ le_bytes 8 (0x18 :: u64)"

definition rela_reloc :: elf64_rela where
  "rela_reloc = \<lparr>r_offset = 16, r_info = 8, r_addend = 0x18\<rparr>"

lemma rela_elf_reads:
  "read_ehdr rela_elf = Some rela_ehdr"
  "read_table (read_phdr rela_elf) 64 56 (Suc 0) = Some [tiny_phdr 0]"
  "read_table (read_shdr rela_elf) 128 64 (Suc 0) = Some [\<lparr>sh_type = SHT_RELA, sh_offset = 192, sh_size = 24\<rparr>]"
  "read_table (read_rela rela_elf) 192 24 (Suc 0) = Some [rela_reloc]"
  by (simp_all add: read_ehdr_def read_phdr_def read_shdr_def read_rela_def elf_word_def elf_bytes_def rela_elf_def rela_ehdr_def
      tiny_phdr_def rela_reloc_def elf_magic_def le_word_le_bytes le_word_zeros)

theorem load_in_bounds_witness:
  "\<exists>img. build_image rela_elf rela_ehdr [tiny_phdr 0] 0x5000 0x4000 = Some img \<and> length img = 0x4000
      \<and> img ! 7 = 8 \<and> img ! 8 = 0 \<and> img ! 16 = 0x18 \<and> img ! 17 = 0x50 \<and> img ! 24 = 0
    \<and> (\<forall>w. elfldr_load sys_pk sim_lk 101 rela_elf sys_sim \<noteq> Some (Crashed, w))"
proof -
  have rel: "relative rela_reloc" by (simp add: relative_def rela_reloc_def R_X86_64_RELATIVE_def)
  have ld: "loadable (tiny_phdr 0)" by (simp add: loadable_def tiny_phdr_def)
  have "build_image rela_elf rela_ehdr [tiny_phdr 0] 0x5000 0x4000 = Some (image_bytes rela_elf [tiny_phdr 0] 0x5000 [rela_reloc] (unat (0x4000 :: u64)))
    \<and> elfldr_load sys_pk sim_lk 101 rela_elf sys_sim \<noteq> Some (Crashed, w)" for w
  proof (rule load_in_bounds [where k = 14])
    show "read_ehdr rela_elf = Some rela_ehdr" by (rule rela_elf_reads)
    show "read_table (read_phdr rela_elf) (e_phoff rela_ehdr) 56 (unat (e_phnum rela_ehdr)) = Some [tiny_phdr 0]"
      using rela_elf_reads by (simp add: rela_ehdr_def)
    show "read_table (read_shdr rela_elf) (e_shoff rela_ehdr) 64 (unat (e_shnum rela_ehdr)) = Some [\<lparr>sh_type = SHT_RELA, sh_offset = 192, sh_size = 24\<rparr>]"
      using rela_elf_reads by (simp add: rela_ehdr_def)
    show "relas rela_elf [\<lparr>sh_type = SHT_RELA, sh_offset = 192, sh_size = 24\<rparr>] = Some [rela_reloc]"
      using rela_elf_reads(4) by simp
    show "vaddr_range (2 ^ 14) [tiny_phdr 0] = (0, 0x4000)"
      using tiny_range [of 0] by (simp add: TRUNC_PG_def ROUND_PG_def)
    show "list_all (no_wrap (2 ^ 14)) [tiny_phdr 0]" by (simp add: no_wrap_def tiny_phdr_def)
    show "list_all (\<lambda>ph. in_file rela_elf ph \<and> p_filesz ph \<le> p_memsz ph) (filter loadable [tiny_phdr 0])"
      by (simp add: in_file_def tiny_phdr_def rela_elf_def elf_magic_def)
    show "list_all (\<lambda>r. list_ex (\<lambda>ph. slot_in ph r) [tiny_phdr 0]) (filter relative [rela_reloc])"
      by (simp add: slot_in_def tiny_phdr_def rela_reloc_def)
  qed (simp_all add: rela_ehdr_def elf_magic_def sim_lk_def)
  moreover have "le_bytes 8 (0x5018 :: u64) = [0x18, 0x50, 0, 0, 0, 0, 0, 0]" by code_simp
  then have "seg_write rela_elf (tiny_phdr 0) = (0, [1, 2, 3, 4, 5, 6, 7, 8])" "rela_write 0x5000 rela_reloc = (16, [0x18, 0x50, 0, 0, 0, 0, 0, 0])"
    by (simp_all add: seg_write_def tiny_phdr_def rela_elf_def elf_magic_def rela_write_def rela_reloc_def)
  ultimately show ?thesis by (simp add: image_bytes_def rel ld)
qed

text \<open>Property C36.
  The mirror is indexed by the segments' own addresses, although it starts at the first page of the file's address
  range: for a file of type \<^verbatim>\<open>ET_EXEC\<close> with a segment whose contents end past the size of the mapping (as they do
  whenever the file is linked to an address above its own size), the loader writes outside the mirror as soon as both
  mappings were made.\<close>

theorem fixed_address_crashes:
  assumes eh: "read_ehdr elf = Some eh" "take 4 (e_ident eh) = elf_magic" "e_type eh = ET_EXEC"
    and phs: "read_table (read_phdr elf) (e_phoff eh) 56 (unat (e_phnum eh)) = Some phs" "vaddr_range (lk_page lk) phs = (lo, hi)"
    and ph: "list_ex (\<lambda>ph. loadable ph \<and> in_file elf ph \<and> unat (hi - lo) < unat (p_vaddr ph) + unat (p_filesz ph)) phs"
    and map: "pt_mmap pk pid lo (hi - lo) 3 0x1012 (- 1) 0 w = Some (base, w1)" "base \<noteq> - 1"
      "lk_mmap lk (hi - lo) 3 0x1012 w1 = (True, w2)"
  shows "elfldr_load pk lk pid elf w = Some (Crashed, w2)"
proof -
  have "load_segments elf phs (replicate (unat (hi - lo)) 0) = None"
    using ph by (fastforce simp: load_segments_pokes pokes_eq list_all_iff list_ex_iff write_fits_def seg_write_def in_file_def)
  then have "build_image elf eh phs base (hi - lo) = None" by (simp add: build_image_def)
  then show ?thesis
    using map eh(3) elfldr_load_header [OF eh(1,2) phs]
    by (simp add: map_image_def ET_EXEC_def ET_DYN_def PROT_READ_def PROT_WRITE_def MAP_PRIVATE_def
                  MAP_ANONYMOUS_def MAP_FIXED_def)
qed

lemma sys_mmap:
  assumes "s_auth w \<noteq> 0" "r_rsp (m_regs (s_mach w)) = 0x7fff0008"
  shows "\<exists>w'. pt_mmap sys_pk pid addr len prot flags fd off w = Some (0x10000000, w')
     \<and> s_auth w' = s_auth w \<and> s_caps w' = s_caps w
     \<and> s_mach w' = (s_mach w)\<lparr>m_mem := (\<lambda>x. if x - 0x10000000 < len then Some 0 else m_mem (s_mach w) x)\<rparr>"
  using sys_syscall [OF assms, of "[L64 addr, L64 len, I32 prot, I32 flags, I32 fd, L64 off]" pid 477]
  by (simp add: pt_mmap_def SYS_mmap_def)

theorem fixed_address_crashes_witness:
  "\<exists>w2. elfldr_load sys_pk sim_lk 101 (tiny_elf ET_EXEC 0x400000) sys_sim = Some (Crashed, w2)"
proof -
  obtain w1 where w1: "pt_mmap sys_pk 101 0x400000 0x4000 3 0x1012 (- 1) 0 sys_sim = Some (0x10000000, w1)"
    using sys_mmap [of sys_sim] by (fastforce simp: sys_sim_def sim0_def sim_regs_def)
  have "elfldr_load sys_pk sim_lk 101 (tiny_elf ET_EXEC 0x400000) sys_sim = Some (Crashed, w1)"
  proof (rule fixed_address_crashes [where lo = "0x400000" and hi = "0x404000" and phs = "[tiny_phdr 0x400000]" and base = "0x10000000"])
    show "read_ehdr (tiny_elf ET_EXEC 0x400000) = Some (tiny_ehdr ET_EXEC 0x400000)" by (rule tiny_elf_ehdr)
    show "vaddr_range (lk_page sim_lk) [tiny_phdr 0x400000] = (0x400000, 0x404000)"
      using tiny_range [of "0x400000"] by (simp add: sim_lk_def TRUNC_PG_def ROUND_PG_def)
    show "list_ex (\<lambda>ph. loadable ph \<and> in_file (tiny_elf ET_EXEC 0x400000) ph
        \<and> unat (0x404000 - 0x400000 :: u64) < unat (p_vaddr ph) + unat (p_filesz ph)) [tiny_phdr 0x400000]"
      by (simp add: loadable_def in_file_def tiny_phdr_def tiny_elf_def elf_magic_def)
    show "read_table (read_phdr (tiny_elf ET_EXEC 0x400000)) (e_phoff (tiny_ehdr ET_EXEC 0x400000)) 56
        (unat (e_phnum (tiny_ehdr ET_EXEC 0x400000))) = Some [tiny_phdr 0x400000]"
      using tiny_elf_phdrs by (simp add: tiny_ehdr_def)
  qed (use w1 in \<open>simp_all add: tiny_ehdr_def elf_magic_def sim_lk_def\<close>)
  then show ?thesis by blast
qed

end
