(* ===== verification/Elf_Exec.thy ===== *)
theory Elf_Exec
  imports Elf_Image
begin

unbundle bit_operations_syntax

text \<open>
  What the ELF loader does to the traced process: the image, the environment and the registers it
  leaves there.
\<close>

section \<open>System calls that only return\<close>

definition gadget :: "(u64 \<Rightarrow> string \<Rightarrow> u64) \<Rightarrow> u64" where
  "gadget symb = (if symb 0x1 ''HoLVWNanBBc'' \<noteq> 0 then symb 0x1 ''HoLVWNanBBc'' else symb 0x2001 ''HoLVWNanBBc'')"

text \<open>
  A system call of the tracee that returns 0 and changes nothing that is modelled, when made from
  the registers \<open>r0\<close> (\<^verbatim>\<open>msync\<close>, \<^verbatim>\<open>mprotect\<close>).
\<close>

definition returns_zero :: "'w pk \<Rightarrow> (machine \<Rightarrow> machine) \<Rightarrow> (u64 \<Rightarrow> string \<Rightarrow> u64) \<Rightarrow> reg \<Rightarrow> int \<Rightarrow> bool" where
  "returns_zero pk cpu symb r0 sysno \<longleftrightarrow>
     (\<forall>m args g. m_regs m = r0 \<and> 2 \<le> length args \<longrightarrow>
        (\<exists>k. remote_call cpu k (syscall_regs r0 (gadget symb + 0xa) sysno (given_args pk args g)) m = Some (0, m)))"

lemma pt_syscall_zero:
  assumes laws: "tracee_laws pk pid auth caps view cpu symb" and a: "auth w \<noteq> 0" and g: "gadget symb \<noteq> 0"
    and z: "returns_zero pk cpu symb (m_regs (view w)) sysno" and len: "2 \<le> length args"
  shows "\<exists>w'. pt_syscall pk pid sysno args w = Some (0, w') \<and> leaves pk auth caps view (view w) w w'"
  by (rule pt_syscall_view [OF laws a gadget_def g]) (use z len in \<open>auto simp: returns_zero_def\<close>)

lemma pt_mprotect_zero:
  assumes "tracee_laws pk pid auth caps view cpu symb" "auth w \<noteq> 0" "gadget symb \<noteq> 0"
    "returns_zero pk cpu symb (m_regs (view w)) SYS_mprotect"
  shows "\<exists>w'. pt_mprotect pk pid addr len prot w = Some (0, w') \<and> leaves pk auth caps view (view w) w w'"
  using pt_syscall_zero [OF assms, of "[L64 addr, L64 len, I32 prot]"] by (auto simp: pt_mprotect_def as_int_def to_int32_def)

lemma pt_msync_zero:
  assumes "tracee_laws pk pid auth caps view cpu symb" "auth w \<noteq> 0" "gadget symb \<noteq> 0"
    "returns_zero pk cpu symb (m_regs (view w)) SYS_msync"
  shows "\<exists>w'. pt_msync pk pid addr len flags w = Some (0, w') \<and> leaves pk auth caps view (view w) w w'"
  using pt_syscall_zero [OF assms, of "[L64 addr, L64 len, I32 flags]"] by (auto simp: pt_msync_def as_int_def to_int32_def)

text \<open>The loader's own mappings and \<^verbatim>\<open>kernel_mprotect\<close> succeed and do not concern the tracee's registers and bytes.\<close>

definition lk_laws :: "'w pk \<Rightarrow> 'w lk \<Rightarrow> int \<Rightarrow> ('w \<Rightarrow> u64) \<Rightarrow> ('w \<Rightarrow> byte list) \<Rightarrow> ('w \<Rightarrow> machine) \<Rightarrow> bool" where
  "lk_laws pk lk pid auth caps view \<longleftrightarrow>
     (\<forall>w len prot flags. fst (lk_mmap lk len prot flags w) \<and> leaves pk auth caps view (view w) w (snd (lk_mmap lk len prot flags w)))
   \<and> (\<forall>w len. leaves pk auth caps view (view w) w (lk_munmap lk len w))
   \<and> (\<forall>w a len prot. fst (lk_kernel_mprotect lk pid a len prot w)
        \<and> leaves pk auth caps view (view w) w (snd (lk_kernel_mprotect lk pid a len prot w)))"

section \<open>The image in the tracee\<close>

lemma leaves_refl: "leaves pk auth caps view (view w) w w"
  by (simp add: leaves_def keeps_creds_def)

lemma leaves_same: "leaves pk auth caps view (view w) w w1 \<Longrightarrow> leaves pk auth caps view (view w1) w1 w2 \<Longrightarrow> leaves pk auth caps view (view w) w w2"
  by (simp add: leaves_def keeps_creds_def)

lemma protect_segments_ok:
  assumes laws: "tracee_laws pk pid auth caps view cpu symb" and lk: "lk_laws pk lk pid auth caps view"
    and g: "gadget symb \<noteq> 0" and z: "returns_zero pk cpu symb r0 SYS_mprotect"
  shows "auth w \<noteq> 0 \<Longrightarrow> m_regs (view w) = r0 \<Longrightarrow>
    \<exists>w'. protect_segments pk lk pid base phs False w = Some (False, w') \<and> leaves pk auth caps view (view w) w w'"
proof (induction phs arbitrary: w)
  case Nil
  then show ?case by (simp add: leaves_refl)
next
  case (Cons ph phs)
  have step: ?case
    if "protect_segments pk lk pid base (ph # phs) False w = protect_segments pk lk pid base phs False w1"
      "leaves pk auth caps view (view w) w w1" for w1
    using that Cons.IH [of w1] Cons.prems leaves_auth [OF that(2)] leaves_view [OF that(2)] leaves_same [OF that(2)] by metis
  consider (skip) "p_type ph \<noteq> PT_LOAD \<or> p_memsz ph = 0" | (code) "p_type ph = PT_LOAD" "p_memsz ph \<noteq> 0" "p_flags ph AND PF_X \<noteq> 0"
    | (data) "p_type ph = PT_LOAD" "p_memsz ph \<noteq> 0" "p_flags ph AND PF_X = 0" by blast
  then show ?case
  proof cases
    case skip
    then show ?thesis using step [of w] by (simp add: leaves_refl)
  next
    case code
    let ?c = "lk_kernel_mprotect lk pid (base + p_vaddr ph) (ROUND_PG (lk_page lk) (p_memsz ph)) (PFLAGS (p_flags ph)) w"
    have "fst ?c" "leaves pk auth caps view (view w) w (snd ?c)" using lk unfolding lk_laws_def by blast+
    then show ?thesis using step [of "snd ?c"] code by (simp add: split_def)
  next
    case data
    obtain w1 where w1: "pt_mprotect pk pid (base + p_vaddr ph) (ROUND_PG (lk_page lk) (p_memsz ph)) (PFLAGS (p_flags ph)) w = Some (0, w1)"
      "leaves pk auth caps view (view w) w w1"
      using pt_mprotect_zero [OF laws Cons.prems(1) g] z Cons.prems(2) by blast
    then show ?thesis using step [of w1] data by simp
  qed
qed

lemma install_image_ok:
  assumes laws: "tracee_laws pk pid auth caps view cpu symb" and lk: "lk_laws pk lk pid auth caps view"
    and g: "gadget symb \<noteq> 0" and z: "returns_zero pk cpu symb (m_regs (view w)) SYS_mprotect" "returns_zero pk cpu symb (m_regs (view w)) SYS_msync"
    and a: "auth w \<noteq> 0" and m: "mapped (m_mem (view w)) base (length mirror)"
  shows "\<exists>w'. install_image pk lk pid eh phs base base_size mirror w = Some (Ret (base + e_entry eh, Some base), w')
    \<and> leaves pk auth caps view ((view w)\<lparr>m_mem := mem_write (m_mem (view w)) base mirror\<rparr>) w w'"
proof -
  obtain w1 where w1: "pt_copyin pk pid mirror base w = (Some (), w1)"
    "leaves pk auth caps view ((view w)\<lparr>m_mem := mem_write (m_mem (view w)) base mirror\<rparr>) w w1"
    using pt_copyin_view [OF laws a m] by blast
  have a1: "auth w1 \<noteq> 0" and v1: "view w1 = (view w)\<lparr>m_mem := mem_write (m_mem (view w)) base mirror\<rparr>"
    using a leaves_auth [OF w1(2)] leaves_view [OF w1(2)] by simp_all
  obtain w2 where w2: "protect_segments pk lk pid base phs False w1 = Some (False, w2)" "leaves pk auth caps view (view w1) w1 w2"
    using protect_segments_ok [OF laws lk g z(1) a1] v1 by fastforce
  have a2: "auth w2 \<noteq> 0" and v2: "view w2 = view w1" using a1 leaves_auth [OF w2(2)] leaves_view [OF w2(2)] by simp_all
  have z2: "returns_zero pk cpu symb (m_regs (view w2)) SYS_msync" using z(2) v1 v2 by simp
  obtain w3 where w3: "pt_msync pk pid base base_size MS_SYNC w2 = Some (0, w3)" "leaves pk auth caps view (view w2) w2 w3"
    using pt_msync_zero [OF laws a2 g z2] by blast
  have u: "leaves pk auth caps view (view w3) w3 (lk_munmap lk base_size w3)" using lk unfolding lk_laws_def by blast
  have "install_image pk lk pid eh phs base base_size mirror w = Some (Ret (base + e_entry eh, Some base), lk_munmap lk base_size w3)"
    using w1(1) w2(1) w3(1) by (simp add: install_image_def)
  moreover have "leaves pk auth caps view ((view w)\<lparr>m_mem := mem_write (m_mem (view w)) base mirror\<rparr>) w (lk_munmap lk base_size w3)"
    using leaves_trans [OF w1(2) leaves_same [OF w2(2) leaves_same [OF w3(2) u]]] v1 by simp
  ultimately show ?thesis by blast
qed

lemma last_write_length: "pokes ps m = Some m' \<Longrightarrow> length m' = length m"
  by (auto simp: pokes_eq split: if_splits)

lemma load_segments_length: "load_segments elf phs m = Some m' \<Longrightarrow> length m' = length m"
  by (auto simp: load_segments_pokes dest: last_write_length split: if_splits)

lemma apply_relocations_length: "apply_relocations elf base shs m = Some m' \<Longrightarrow> length m' = length m"
  by (induction shs arbitrary: m)
     (auto simp: relocate_pokes bind_eq_Some_conv dest: last_write_length split: if_splits)

lemma build_image_length: "build_image elf eh phs base base_size = Some img \<Longrightarrow> length img = unat base_size"
  by (auto simp: build_image_def bind_eq_Some_conv dest!: load_segments_length apply_relocations_length)

text \<open>Loading a position-independent ELF: when the tracee's \<^verbatim>\<open>mmap\<close> gave a mapping of the size of the image at
  \<open>base\<close>, \<^verbatim>\<open>elfldr_load\<close> returns the entry address relative to \<open>base\<close> and reports \<open>base\<close>; the bytes of the
  mapping are then exactly the image (segments and relocations) built for that base, the rest of the memory and
  the registers of the tracee are what they were, and so are the loader's credentials.\<close>

theorem elfldr_load_installs:
  assumes laws: "tracee_laws pk pid auth caps view cpu symb" "lk_laws pk lk pid auth caps view" "gadget symb \<noteq> 0"
    and zero: "returns_zero pk cpu symb (m_regs (view w1)) SYS_mprotect" "returns_zero pk cpu symb (m_regs (view w1)) SYS_msync"
    and eh: "read_ehdr elf = Some eh" "take 4 (e_ident eh) = elf_magic" "e_type eh = ET_DYN"
    and phs: "read_table (read_phdr elf) (e_phoff eh) 56 (unat (e_phnum eh)) = Some phs" "vaddr_range (lk_page lk) phs = (lo, hi)"
    and img: "build_image elf eh phs base (hi - lo) = Some img"
    and map: "pt_mmap pk pid 0 (hi - lo) 3 0x1002 (- 1) 0 w = Some (base, w1)" "base \<noteq> - 1" "auth w1 \<noteq> 0"
      "mapped (m_mem (view w1)) base (unat (hi - lo))"
  shows "\<exists>w'. elfldr_load pk lk pid elf w = Some (Ret (base + e_entry eh, Some base), w')
    \<and> mem_read (m_mem (view w')) base (unat (hi - lo)) = img
    \<and> (\<forall>x. unat (x - base) \<ge> unat (hi - lo) \<longrightarrow> m_mem (view w') x = m_mem (view w1) x)
    \<and> m_regs (view w') = m_regs (view w1) \<and> auth w' = auth w1 \<and> caps w' = caps w1"
proof -
  let ?c = "lk_mmap lk (hi - lo) 3 0x1002 w1"
  have len: "length img = unat (hi - lo)" using build_image_length [OF img] .
  have c: "fst ?c" "leaves pk auth caps view (view w1) w1 (snd ?c)" using laws(2) unfolding lk_laws_def by blast+
  have v: "view (snd ?c) = view w1" "auth (snd ?c) \<noteq> 0" using leaves_view [OF c(2)] leaves_auth [OF c(2)] map(3) by simp_all
  have "\<exists>w'. install_image pk lk pid eh phs base (hi - lo) img (snd ?c) = Some (Ret (base + e_entry eh, Some base), w')
    \<and> leaves pk auth caps view ((view w1)\<lparr>m_mem := mem_write (m_mem (view w1)) base img\<rparr>) (snd ?c) w'"
    using install_image_ok [OF laws, of "snd ?c" base img] zero v map(4) len by auto
  then obtain w' where w': "install_image pk lk pid eh phs base (hi - lo) img (snd ?c) = Some (Ret (base + e_entry eh, Some base), w')"
    "leaves pk auth caps view ((view w1)\<lparr>m_mem := mem_write (m_mem (view w1)) base img\<rparr>) (snd ?c) w'" by blast
  have "elfldr_load pk lk pid elf w = Some (Ret (base + e_entry eh, Some base), w')"
    using eh(3) elfldr_load_header [OF eh(1,2) phs] map(1,2) img c(1) w'(1)
    by (simp add: map_image_def PROT_READ_def PROT_WRITE_def MAP_PRIVATE_def MAP_ANONYMOUS_def split_def)
  moreover have "mem_read (mem_write (m_mem (view w1)) base img) base (unat (hi - lo)) = img"
    using mem_read_write [of img] u64_less [of "hi - lo"] len by (metis less_imp_le_nat)
  ultimately show ?thesis
    using leaves_trans [OF c(2) w'(2)] len
    by (intro exI [of _ w']) (auto simp: leaves_def keeps_creds_def mem_write_def)
qed

lemma sys_returns_zero:
  "sysno \<in> {65, 74} \<Longrightarrow> r_rsp r0 = 0x7fff0008 \<Longrightarrow> returns_zero sys_pk sys_cpu sys_symb r0 sysno"
  by (auto simp: returns_zero_def gadget_def sys_symb_def sys_call intro!: exI [of _ "Suc 0"])

lemma sim_lk_laws: "lk_laws sys_pk sim_lk pid s_auth s_caps s_mach"
  by (simp add: lk_laws_def sim_lk_def leaves_refl)

text \<open>The image of the small file: its eight bytes, then zeros up to the end of the page.\<close>

lemma tiny_image:
  "build_image (tiny_elf ty 0) (tiny_ehdr ty 0) [tiny_phdr 0] base 0x4000 = Some ([1, 2, 3, 4, 5, 6, 7, 8] @ replicate 0x3ff8 0)"
proof -
  have "loadable (tiny_phdr 0)" by (simp add: loadable_def tiny_phdr_def)
  moreover have "in_file (tiny_elf ty 0) (tiny_phdr 0)" by (simp add: in_file_def tiny_phdr_def tiny_elf_def elf_magic_def)
  moreover have "seg_write (tiny_elf ty 0) (tiny_phdr 0) = (0, [1, 2, 3, 4, 5, 6, 7, 8])"
    by (simp add: seg_write_def tiny_phdr_def tiny_elf_def elf_magic_def)
  ultimately show ?thesis by (simp add: build_image_def load_segments_pokes poke_def tiny_ehdr_def)
qed

theorem elfldr_load_installs_witness:
  "\<exists>w'. elfldr_load sys_pk sim_lk 101 (tiny_elf ET_DYN 0) sys_sim = Some (Ret (0x10000004, Some 0x10000000), w')
    \<and> mem_read (m_mem (s_mach w')) 0x10000000 0x4000 = [1, 2, 3, 4, 5, 6, 7, 8] @ replicate 0x3ff8 0
    \<and> m_regs (s_mach w') = sim_regs"
proof -
  obtain w1 where w1: "pt_mmap sys_pk 101 0 0x4000 3 0x1002 (- 1) 0 sys_sim = Some (0x10000000, w1)" "s_auth w1 = 0x123"
    "s_mach w1 = (s_mach sys_sim)\<lparr>m_mem := (\<lambda>x. if x - 0x10000000 < 0x4000 then Some 0 else m_mem (s_mach sys_sim) x)\<rparr>"
    using sys_mmap [of sys_sim 101 0 "0x4000" 3 "0x1002" "- 1" 0] by (auto simp: sys_sim_def sim0_def sim_regs_def)
  have m: "m_regs (s_mach w1) = sim_regs" "mapped (m_mem (s_mach w1)) 0x10000000 0x4000"
    using w1(3) by (auto simp: sys_sim_def mapped_def word_less_nat_alt unat_of_nat)
  have "\<exists>w'. elfldr_load sys_pk sim_lk 101 (tiny_elf ET_DYN 0) sys_sim
        = Some (Ret (0x10000000 + e_entry (tiny_ehdr ET_DYN 0), Some 0x10000000), w')
    \<and> mem_read (m_mem (s_mach w')) 0x10000000 (unat (0x4000 - 0 :: u64)) = [1, 2, 3, 4, 5, 6, 7, 8] @ replicate 0x3ff8 0
    \<and> (\<forall>x. unat (x - 0x10000000) \<ge> unat (0x4000 - 0 :: u64) \<longrightarrow> m_mem (s_mach w') x = m_mem (s_mach w1) x)
    \<and> m_regs (s_mach w') = m_regs (s_mach w1) \<and> s_auth w' = s_auth w1 \<and> s_caps w' = s_caps w1"
  proof (rule elfldr_load_installs [OF sim_laws sim_lk_laws])
    show "read_ehdr (tiny_elf ET_DYN 0) = Some (tiny_ehdr ET_DYN 0)" by (rule tiny_elf_ehdr)
    show "read_table (read_phdr (tiny_elf ET_DYN 0)) (e_phoff (tiny_ehdr ET_DYN 0)) 56 (unat (e_phnum (tiny_ehdr ET_DYN 0)))
        = Some [tiny_phdr 0]" using tiny_elf_phdrs by (simp add: tiny_ehdr_def)
    show "vaddr_range (lk_page sim_lk) [tiny_phdr 0] = (0, 0x4000)"
      using tiny_range [of 0] by (simp add: sim_lk_def TRUNC_PG_def ROUND_PG_def)
    show "build_image (tiny_elf ET_DYN 0) (tiny_ehdr ET_DYN 0) [tiny_phdr 0] 0x10000000 (0x4000 - 0)
        = Some ([1, 2, 3, 4, 5, 6, 7, 8] @ replicate 0x3ff8 0)" using tiny_image by simp
    show "mapped (m_mem (s_mach w1)) 0x10000000 (unat (0x4000 - 0 :: u64))" using m by simp
  qed (use w1 m in \<open>simp_all add: tiny_ehdr_def elf_magic_def gadget_def sys_symb_def sys_returns_zero SYS_mprotect_def SYS_msync_def
          sim_regs_def\<close>)
  then show ?thesis using m(1) by (auto simp: tiny_ehdr_def)
qed

section \<open>The environment in the tracee\<close>

lemma unat_offset: "off + n \<le> 2 ^ 64 \<Longrightarrow> unat (y - (a + of_nat off)) < n \<longleftrightarrow> off \<le> unat (y - a) \<and> unat (y - a) < off + n" for a y :: u64
proof -
  assume le: "off + n \<le> 2 ^ 64"
  define x where "x = unat (y - a)"
  have x: "x < 2 ^ 64" "y - (a + of_nat off) = of_nat x - of_nat off" using u64_less [of "y - a"] unfolding x_def by simp_all
  show "unat (y - (a + of_nat off)) < n \<longleftrightarrow> off \<le> unat (y - a) \<and> unat (y - a) < off + n"
  proof (cases "off \<le> x")
    case True
    have "unat (of_nat x - of_nat off :: u64) = x - off"
      unfolding of_nat_diff [OF True, symmetric] using x(1) by (simp add: unat_of_nat)
    then show ?thesis using True x(2) unfolding x_def by (auto simp: diff_diff_eq [symmetric])
  next
    case False
    then have "(of_nat x - of_nat off :: u64) = of_nat (2 ^ 64 + x - off)" using le by (simp add: of_nat_diff)
    moreover have "2 ^ 64 + x - off < 2 ^ 64" using False le by linarith
    ultimately have "unat (of_nat x - of_nat off :: u64) = 2 ^ 64 + x - off" by (simp add: unat_of_nat)
    then show ?thesis using False le x(2) unfolding x_def by (auto simp: diff_diff_eq [symmetric])
  qed
qed

lemma unat_offset_diff: "off \<le> unat (y - a) \<Longrightarrow> unat (y - (a + of_nat off)) = unat (y - a) - off" for a y :: u64
proof -
  assume le: "off \<le> unat (y - a)"
  have "y - (a + of_nat off) = of_nat (unat (y - a)) - of_nat off" by simp
  also have "\<dots> = of_nat (unat (y - a) - off)" by (rule of_nat_diff [OF le, symmetric])
  finally show ?thesis using u64_less [of "y - a"] by (simp add: unat_of_nat)
qed

lemma mem_write_at:
  assumes "off + length bs \<le> 2 ^ 64"
  shows "mem_write m (a + of_nat off) bs y =
     (if off \<le> unat (y - a) \<and> unat (y - a) < off + length bs then Some (bs ! (unat (y - a) - off)) else m y)"
  using unat_offset [OF assms] by (auto simp: mem_write_def unat_offset_diff)

lemma mem_read_cong: "(\<And>i. i < n \<Longrightarrow> m (a + of_nat i) = m' (a + of_nat i)) \<Longrightarrow> mem_read m a n = mem_read m' a n"
  by (simp add: mem_read_def)

lemma mem_read_frame:
  assumes "\<And>y. off \<le> unat (y - a) \<Longrightarrow> unat (y - a) < off + n \<Longrightarrow> m' y = m y" "off + n \<le> 2 ^ 64"
  shows "mem_read m' (a + of_nat off) n = mem_read m (a + of_nat off) n"
proof (rule mem_read_cong, rule assms(1))
  fix i assume "i < n"
  then have "unat (a + of_nat off + of_nat i - a) = off + i"
    using assms(2) by (simp add: of_nat_add [symmetric] unat_of_nat del: of_nat_add)
  then show "off \<le> unat (a + of_nat off + of_nat i - a)" "unat (a + of_nat off + of_nat i - a) < off + n" using \<open>i < n\<close> by simp_all
qed

lemma mapped_sub: "mapped m a n \<Longrightarrow> off + k \<le> n \<Longrightarrow> mapped m (a + of_nat off) k"
  unfolding mapped_def by (metis (no_types, lifting) add.assoc add_less_cancel_left less_le_trans of_nat_add)

text \<open>The strings of a vector at \<open>a\<close> from its entry \<open>i\<close> on, stored one after the other from offset \<open>p\<close> on.\<close>

fun env_at :: "(u64 \<rightharpoonup> byte) \<Rightarrow> u64 \<Rightarrow> nat \<Rightarrow> nat \<Rightarrow> string list \<Rightarrow> bool" where
  "env_at m a i p [] = True"
| "env_at m a i p (e # es) =
     (le_word (mem_read m (a + of_nat (i * 8)) 8) = a + of_nat p
      \<and> mem_read m (a + of_nat p) (length e + 1) = cstr_bytes e \<and> env_at m a (Suc i) (p + length e + 1) es)"

definition strings_len :: "string list \<Rightarrow> nat" where
  "strings_len es = sum_list (map (\<lambda>e. length e + 1) es)"

text \<open>Memory outside the entries \<open>i\<close> to \<open>n\<close> of the vector at \<open>a\<close> and outside the offsets \<open>p\<close> to \<open>s\<close> is the same.\<close>

definition env_frame :: "u64 \<Rightarrow> nat \<Rightarrow> nat \<Rightarrow> nat \<Rightarrow> nat \<Rightarrow> (u64 \<rightharpoonup> byte) \<Rightarrow> (u64 \<rightharpoonup> byte) \<Rightarrow> bool" where
  "env_frame a i n p s m m' \<longleftrightarrow>
     (\<forall>y. (unat (y - a) < i * 8 \<or> n * 8 \<le> unat (y - a)) \<and> (unat (y - a) < p \<or> s \<le> unat (y - a)) \<longrightarrow> m' y = m y)"

lemma pt_setlong_view:
  assumes "tracee_laws pk pid auth caps view cpu symb" "auth w \<noteq> 0" "mapped (m_mem (view w)) addr 8"
  shows "\<exists>w'. pt_setlong pk pid addr v w = (Some (), w')
      \<and> leaves pk auth caps view ((view w)\<lparr>m_mem := mem_write (m_mem (view w)) addr (le_bytes 8 v)\<rparr>) w w'"
  unfolding pt_setlong_def by (rule pt_copyin_view [OF assms(1,2)]) (simp add: assms(3))

lemma length_cstr_bytes [simp]: "length (cstr_bytes s) = length s + 1"
  by (simp add: cstr_bytes_def)

text \<open>One round of the loop: the string at offset \<open>p\<close>, then its address in entry \<open>i\<close>.\<close>

definition env_store :: "(u64 \<rightharpoonup> byte) \<Rightarrow> u64 \<Rightarrow> nat \<Rightarrow> nat \<Rightarrow> string \<Rightarrow> (u64 \<rightharpoonup> byte)" where
  "env_store m a i p e =
     mem_write (mem_write m (a + of_nat p) (cstr_bytes e)) (a + of_nat (i * 8)) (le_bytes 8 (a + of_nat p))"

lemma env_store_at:
  assumes "i * 8 + 8 \<le> p" "p + length e + 1 \<le> 2 ^ 64"
  shows "env_store m a i p e y =
    (if i * 8 \<le> unat (y - a) \<and> unat (y - a) < i * 8 + 8 then Some (le_bytes 8 (a + of_nat p) ! (unat (y - a) - i * 8))
     else if p \<le> unat (y - a) \<and> unat (y - a) < p + length e + 1 then Some (cstr_bytes e ! (unat (y - a) - p)) else m y)"
  using assms mem_write_at [of "i * 8" "le_bytes 8 (a + of_nat p)" "mem_write m (a + of_nat p) (cstr_bytes e)" a y]
    mem_write_at [of p "cstr_bytes e" m a y]
  by (simp add: env_store_def)

lemma env_round:
  assumes laws: "tracee_laws pk pid auth caps view cpu symb" and a: "auth w \<noteq> 0" and m: "mapped (m_mem (view w)) a s"
    and le: "i * 8 + 8 \<le> p" "p + length e + 1 \<le> s"
  shows "\<exists>w1 w2. pt_copyin pk pid (cstr_bytes e) (a + of_nat p) w = (Some (), w1)
    \<and> pt_setlong pk pid (a + of_nat (i * 8)) (a + of_nat p) w1 = (Some (), w2)
    \<and> leaves pk auth caps view ((view w)\<lparr>m_mem := env_store (m_mem (view w)) a i p e\<rparr>) w w2"
proof -
  let ?m1 = "mem_write (m_mem (view w)) (a + of_nat p) (cstr_bytes e)"
  obtain w1 where w1: "pt_copyin pk pid (cstr_bytes e) (a + of_nat p) w = (Some (), w1)"
    "leaves pk auth caps view ((view w)\<lparr>m_mem := ?m1\<rparr>) w w1"
    using pt_copyin_view [OF laws a, of "a + of_nat p" "cstr_bytes e"] mapped_sub [OF m, of p "length e + 1"] le by auto
  have v1: "auth w1 \<noteq> 0" "view w1 = (view w)\<lparr>m_mem := ?m1\<rparr>" using leaves_auth [OF w1(2)] leaves_view [OF w1(2)] a by simp_all
  have "mapped (m_mem (view w1)) (a + of_nat (i * 8)) 8"
    using mapped_sub [OF mapped_write [OF m], of "i * 8" 8] le v1(2) by simp
  from pt_setlong_view [OF laws v1(1) this, of "a + of_nat p"] show ?thesis
    using w1 v1(2) leaves_trans [OF w1(2)] by (auto simp: env_store_def)
qed

text \<open>What a round stored survives every later change that only concerns later entries and offsets.\<close>

lemma env_store_kept:
  assumes le: "i * 8 + 8 \<le> n * 8" "n * 8 + 8 \<le> p" "p + length e + 1 \<le> s" "s \<le> 2 ^ 64"
    and fr: "env_frame a (Suc i) n (p + length e + 1) s (env_store m a i p e) m'"
  shows "le_word (mem_read m' (a + of_nat (i * 8)) 8) = a + of_nat p" "mem_read m' (a + of_nat p) (length e + 1) = cstr_bytes e"
    "env_frame a i n p s m m'"
proof -
  have fr': "m' y = env_store m a i p e y"
    if "unat (y - a) < i * 8 + 8 \<or> n * 8 \<le> unat (y - a)" "unat (y - a) < p + length e + 1 \<or> s \<le> unat (y - a)" for y
    using fr that unfolding env_frame_def by (simp add: algebra_simps)
  note at = env_store_at [of i p e m a]
  have "mem_read m' (a + of_nat (i * 8)) 8 = mem_read (env_store m a i p e) (a + of_nat (i * 8)) 8"
    by (rule mem_read_frame) (use fr' le in auto)
  then show "le_word (mem_read m' (a + of_nat (i * 8)) 8) = a + of_nat p"
    using mem_read_write [of "le_bytes 8 (a + of_nat p)" "mem_write m (a + of_nat p) (cstr_bytes e)" "a + of_nat (i * 8)"]
    by (simp add: env_store_def le_word_le_bytes)
  have "mem_read m' (a + of_nat p) (length e + 1) = mem_read (mem_write m (a + of_nat p) (cstr_bytes e)) (a + of_nat p) (length e + 1)"
    by (rule mem_read_frame) (use fr' at le mem_write_at [of p "cstr_bytes e" m a] in auto)
  then show "mem_read m' (a + of_nat p) (length e + 1) = cstr_bytes e"
    using mem_read_write [of "cstr_bytes e" m "a + of_nat p"] le by simp
  show "env_frame a i n p s m m'" unfolding env_frame_def using fr' at le by auto
qed

lemma environ_loop_ok:
  assumes laws: "tracee_laws pk pid auth caps view cpu symb" and s: "s \<le> 2 ^ 64"
  shows "auth w \<noteq> 0 \<Longrightarrow> mapped (m_mem (view w)) a s \<Longrightarrow> (i + length es + 1) * 8 \<le> p \<Longrightarrow> p + strings_len es \<le> s \<Longrightarrow>
    \<exists>w'. environ_loop pk pid a sz i (a + of_nat p) es w = Some (None, w') \<and> leaves pk auth caps view (view w') w w'
      \<and> env_at (m_mem (view w')) a i p es \<and> env_frame a i (i + length es) p s (m_mem (view w)) (m_mem (view w'))
      \<and> mapped (m_mem (view w')) a s \<and> m_regs (view w') = m_regs (view w)"
proof (induction es arbitrary: w i p)
  case Nil
  then show ?case by (auto simp: leaves_def keeps_creds_def env_frame_def)
next
  case (Cons e es)
  let ?p = "p + length e + 1" and ?n = "i + length (e # es)"
  let ?m2 = "env_store (m_mem (view w)) a i p e"
  have len: "?p + strings_len es \<le> s" using Cons.prems(4) by (simp add: strings_len_def)
  have i8: "i * 8 + 8 \<le> ?n * 8" "?n * 8 + 8 \<le> p" "(Suc i + length es + 1) * 8 \<le> ?p" using Cons.prems(3) by simp_all
  obtain w1 w2 where w2: "pt_copyin pk pid (cstr_bytes e) (a + of_nat p) w = (Some (), w1)"
    "pt_setlong pk pid (a + of_nat (i * 8)) (a + of_nat p) w1 = (Some (), w2)"
    "leaves pk auth caps view ((view w)\<lparr>m_mem := ?m2\<rparr>) w w2"
    using env_round [OF laws Cons.prems(1,2), of i p e] i8 len by auto
  have v2: "auth w2 \<noteq> 0" "view w2 = (view w)\<lparr>m_mem := ?m2\<rparr>"
    using leaves_auth [OF w2(3)] leaves_view [OF w2(3)] Cons.prems(1) by simp_all
  have mp2: "mapped (m_mem (view w2)) a s" using Cons.prems(2) v2(2) by (simp add: env_store_def mapped_write)
  from Cons.IH [OF v2(1) mp2 i8(3) len] obtain w' where w':
    "environ_loop pk pid a sz (Suc i) (a + of_nat ?p) es w2 = Some (None, w')" "leaves pk auth caps view (view w') w2 w'"
    "env_at (m_mem (view w')) a (Suc i) ?p es" "env_frame a (Suc i) ?n ?p s ?m2 (m_mem (view w'))"
    "mapped (m_mem (view w')) a s" "m_regs (view w') = m_regs (view w)"
    using v2(2) by auto
  have "environ_loop pk pid a sz i (a + of_nat p) (e # es) w = Some (None, w')"
    using w2(1,2) w'(1) by (simp add: ac_simps)
  moreover have "leaves pk auth caps view (view w') w w'" using leaves_trans [OF w2(3) w'(2)] .
  moreover have "env_at (m_mem (view w')) a i p (e # es)" "env_frame a i ?n p s (m_mem (view w)) (m_mem (view w'))"
    using env_store_kept [OF i8(1,2) _ s w'(4)] w'(3) len by auto
  ultimately show ?case using w'(5,6) by auto
qed

text \<open>The block that \<^verbatim>\<open>elfldr_set_environ\<close> allocates has room for the vector and the strings.\<close>

lemma environ_fold:
  "unat (z :: u64) + length es * 8 + strings_len es < 2 ^ 64 \<Longrightarrow>
     unat (fold (\<lambda>e sz. sz + (8 + of_nat (length e) + 1)) es z) = unat z + length es * 8 + strings_len es"
proof (induction es arbitrary: z)
  case (Cons e es)
  have "z + (8 + of_nat (length e) + 1) = z + of_nat (9 + length e)" by simp
  moreover have "unat (z + of_nat (9 + length e)) = unat z + (9 + length e)"
    using Cons.prems by (simp add: unat_word_ariths unat_of_nat strings_len_def)
  ultimately show ?case using Cons.IH [of "z + of_nat (9 + length e)"] Cons.prems by (simp add: strings_len_def)
qed (simp add: strings_len_def)

lemma environ_fits:
  assumes k: "k < 64" and le: "(length es + 1) * 8 + strings_len es + 2 ^ k \<le> 2 ^ 64"
  shows "(length es + 1) * 8 + strings_len es \<le> unat (environ_size (2 ^ k) es)"
proof -
  let ?z = "fold (\<lambda>e sz. sz + (8 + of_nat (length e) + 1)) es (8 :: u64)"
  have "(0 :: nat) < 2 ^ k" by simp
  then have "(length es + 1) * 8 + strings_len es < 2 ^ 64" using le by linarith
  then have z: "unat ?z = (length es + 1) * 8 + strings_len es" using environ_fold [of 8 es] by simp
  then show ?thesis using le_ROUND_PG [OF k, of ?z] le by (simp add: environ_size_def)
qed

text \<open>A C string in memory, and a vector of pointers to C strings with its terminator.\<close>

definition string_at :: "(u64 \<rightharpoonup> byte) \<Rightarrow> u64 \<Rightarrow> string \<Rightarrow> bool" where
  "string_at m q s \<longleftrightarrow> mem_read m q (length s + 1) = cstr_bytes s"

definition pointer_at :: "(u64 \<rightharpoonup> byte) \<Rightarrow> u64 \<Rightarrow> u64" where
  "pointer_at m q = le_word (mem_read m q 8)"

definition vector_at :: "(u64 \<rightharpoonup> byte) \<Rightarrow> u64 \<Rightarrow> string list \<Rightarrow> bool" where
  "vector_at m a es \<longleftrightarrow>
     (\<forall>i < length es. string_at m (pointer_at m (a + of_nat (i * 8))) (es ! i)) \<and> pointer_at m (a + of_nat (length es * 8)) = 0"

lemma env_at_strings: "env_at m a i p es \<Longrightarrow> j < length es \<Longrightarrow> string_at m (pointer_at m (a + of_nat ((i + j) * 8))) (es ! j)"
proof (induction es arbitrary: i p j)
  case (Cons e es)
  then show ?case
  proof (cases j)
    case (Suc j')
    with Cons show ?thesis using Cons.IH [of "Suc i" "p + length e + 1" j'] by simp
  qed (simp add: string_at_def pointer_at_def)
qed simp

lemma env_at_cong:
  assumes "env_at m a i p es" "(i + length es) * 8 \<le> p" "p + strings_len es \<le> s" "s \<le> 2 ^ 64"
    and eq: "\<And>y. unat (y - a) < (i + length es) * 8 \<or> p \<le> unat (y - a) \<and> unat (y - a) < s \<Longrightarrow> m' y = m y"
  shows "env_at m' a i p es"
  using assms
proof (induction es arbitrary: i p)
  case (Cons e es)
  have sl: "strings_len (e # es) = length e + 1 + strings_len es" by (simp add: strings_len_def)
  have "mem_read m' (a + of_nat (i * 8)) 8 = mem_read m (a + of_nat (i * 8)) 8"
    by (rule mem_read_frame) (use Cons.prems sl in auto)
  moreover have "mem_read m' (a + of_nat p) (length e + 1) = mem_read m (a + of_nat p) (length e + 1)"
    by (rule mem_read_frame) (use Cons.prems sl in auto)
  moreover have "env_at m' a (Suc i) (p + length e + 1) es"
    by (rule Cons.IH) (use Cons.prems sl in auto)
  ultimately show ?case using Cons.prems(1) by simp
qed simp

text \<open>An environment block at \<open>a\<close>: its vector, the terminator and the strings behind it.\<close>

definition env_block :: "(u64 \<rightharpoonup> byte) \<Rightarrow> u64 \<Rightarrow> string list \<Rightarrow> bool" where
  "env_block m a es \<longleftrightarrow> env_at m a 0 ((length es + 1) * 8) es \<and> pointer_at m (a + of_nat (length es * 8)) = 0"

lemma env_block_vector: "env_block m a es \<Longrightarrow> vector_at m a es"
  using env_at_strings [of m a 0 "(length es + 1) * 8" es] by (auto simp: env_block_def vector_at_def)

lemma env_block_cong:
  assumes "env_block m a es" "(length es + 1) * 8 + strings_len es \<le> s" "s \<le> 2 ^ 64" and eq: "\<And>y. unat (y - a) < s \<Longrightarrow> m' y = m y"
  shows "env_block m' a es"
proof -
  have "env_at m' a 0 ((length es + 1) * 8) es"
    by (rule env_at_cong [where m = m and s = s]) (use assms in \<open>auto simp: env_block_def\<close>)
  moreover have "mem_read m' (a + of_nat (length es * 8)) 8 = mem_read m (a + of_nat (length es * 8)) 8"
    by (rule mem_read_frame) (use assms in auto)
  ultimately show ?thesis using assms(1) by (simp add: env_block_def pointer_at_def)
qed

lemma vector_complete:
  assumes at: "env_at m a 0 p es" and p: "p = (length es + 1) * 8" and s: "p + strings_len es \<le> s" "s \<le> 2 ^ 64"
    and ea: "\<And>i. i < 8 \<Longrightarrow> s \<le> unat (ea + of_nat i - a)"
    and m1: "m1 = mem_write m (a + of_nat (length es * 8)) (le_bytes 8 (0 :: u64))"
    and m2: "m2 = mem_write m1 ea (le_bytes 8 a)"
  shows "env_block m2 a es \<and> pointer_at m2 ea = a"
proof -
  have n8: "length es * 8 + 8 \<le> 2 ^ 64" using p s by simp
  have y1: "m1 y = m y" if "unat (y - a) < length es * 8 \<or> p \<le> unat (y - a)" for y
    using mem_write_at [of "length es * 8" "le_bytes 8 (0 :: u64)" m a y] that n8 p unfolding m1 by auto
  have y2: "m2 y = m1 y" if "unat (y - a) < s" for y
  proof -
    have "\<not> unat (y - ea) < 8"
    proof
      assume "unat (y - ea) < 8"
      with ea [of "unat (y - ea)"] that show False by simp
    qed
    then show ?thesis by (simp add: m2 mem_write_def)
  qed
  have "env_at m2 a 0 p es" by (rule env_at_cong [OF at _ s]) (use y1 y2 p s in auto)
  moreover have "mem_read m2 (a + of_nat (length es * 8)) 8 = mem_read m1 (a + of_nat (length es * 8)) 8"
    by (rule mem_read_frame) (use y2 p s in auto)
  moreover have "mem_read m1 (a + of_nat (length es * 8)) 8 = le_bytes 8 (0 :: u64)"
    using mem_read_write [of "le_bytes 8 (0 :: u64)" m "a + of_nat (length es * 8)"] by (simp add: m1)
  moreover have "mem_read m2 ea 8 = le_bytes 8 a" using mem_read_write [of "le_bytes 8 a" m1 ea] by (simp add: m2)
  ultimately show ?thesis using p by (simp add: env_block_def pointer_at_def le_word_le_bytes)
qed

lemma set_environ_ok:
  assumes laws: "tracee_laws pk pid auth caps view cpu symb" and page: "lk_page lk = 2 ^ k" "k < 64"
    and sz: "(length envp + 1) * 8 + strings_len envp + 2 ^ k \<le> 2 ^ 64" and ne: "envp \<noteq> []"
    and map: "pt_mmap pk pid 0 (environ_size (2 ^ k) envp) 3 0x1002 (- 1) 0 w = Some (a, w1)" "a \<noteq> - 1" "auth w1 \<noteq> 0"
      "mapped (m_mem (view w1)) a (unat (environ_size (2 ^ k) envp))"
    and ea: "ea = (if symb 0x1 ''+2thxYZ4syk'' \<noteq> 0 then symb 0x1 ''+2thxYZ4syk'' else symb 0x2001 ''+2thxYZ4syk'')" "ea \<noteq> 0"
      "mapped (m_mem (view w1)) ea 8" "\<forall>i < 8. unat (environ_size (2 ^ k) envp) \<le> unat (ea + of_nat i - a)"
  shows "\<exists>w'. elfldr_set_environ pk lk pid envp w = Some (0, w') \<and> leaves pk auth caps view (view w') w1 w'
    \<and> pointer_at (m_mem (view w')) ea = a \<and> env_block (m_mem (view w')) a envp \<and> m_regs (view w') = m_regs (view w1)
    \<and> (\<forall>y. unat (environ_size (2 ^ k) envp) \<le> unat (y - a) \<longrightarrow> 8 \<le> unat (y - ea) \<longrightarrow> m_mem (view w') y = m_mem (view w1) y)
    \<and> mapped (m_mem (view w')) a (unat (environ_size (2 ^ k) envp)) \<and> mapped (m_mem (view w')) ea 8"
proof -
  let ?s = "unat (environ_size (2 ^ k) envp)" and ?p = "(length envp + 1) * 8"
  have s: "?p + strings_len envp \<le> ?s" "?s \<le> 2 ^ 64" using environ_fits [OF page(2) sz] u64_less [of "environ_size (2 ^ k) envp"] by simp_all
  obtain w2 where w2: "environ_loop pk pid a (environ_size (2 ^ k) envp) 0 (a + of_nat ?p) envp w1 = Some (None, w2)"
    "leaves pk auth caps view (view w2) w1 w2" "env_at (m_mem (view w2)) a 0 ?p envp"
    "env_frame a 0 (length envp) ?p ?s (m_mem (view w1)) (m_mem (view w2))" "mapped (m_mem (view w2)) a ?s" "m_regs (view w2) = m_regs (view w1)"
    using environ_loop_ok [OF laws s(2) map(3,4), of 0 envp ?p] s(1) by fastforce
  have a2: "auth w2 \<noteq> 0" using leaves_auth [OF w2(2)] map(3) by simp
  have ea2: "mapped (m_mem (view w2)) ea 8"
  proof -
    have "m_mem (view w2) (ea + of_nat i) = m_mem (view w1) (ea + of_nat i)" if "i < 8" for i
      using w2(4) ea(4) s(1) that unfolding env_frame_def by (smt (verit) add_leE le_trans mult_le_mono1 le_add1)
    then show ?thesis using ea(3) by (simp add: mapped_def)
  qed
  let ?m1 = "mem_write (m_mem (view w2)) (a + of_nat (length envp * 8)) (le_bytes 8 (0 :: u64))"
  obtain w3 where w3: "pt_setlong pk pid (a + of_nat (length envp * 8)) 0 w2 = (Some (), w3)"
    "leaves pk auth caps view ((view w2)\<lparr>m_mem := ?m1\<rparr>) w2 w3"
    using pt_setlong_view [OF laws a2 mapped_sub [OF w2(5), of "length envp * 8" 8]] s(1) by auto
  obtain w4 where w4: "pt_resolve pk pid ''+2thxYZ4syk'' w3 = (ea, w4)" "leaves pk auth caps view (view w3) w3 w4"
    using pt_resolve_view [OF laws] unfolding ea(1) by blast
  have v4: "auth w4 \<noteq> 0" "view w4 = (view w2)\<lparr>m_mem := ?m1\<rparr>"
    using leaves_auth [OF w4(2)] leaves_auth [OF w3(2)] leaves_view [OF w4(2)] leaves_view [OF w3(2)] a2 by simp_all
  obtain w5 where w5: "pt_setlong pk pid ea a w4 = (Some (), w5)"
    "leaves pk auth caps view ((view w2)\<lparr>m_mem := mem_write ?m1 ea (le_bytes 8 a)\<rparr>) w4 w5"
    using pt_setlong_view [OF laws v4(1), of ea a] mapped_write [OF ea2] v4(2) by auto
  have "elfldr_set_environ pk lk pid envp w = Some (0, w5)"
    using ne page(1) map(1,2) w2(1) w3(1) w4(1) w5(1) ea(2)
    by (simp add: elfldr_set_environ_def PROT_READ_def PROT_WRITE_def MAP_PRIVATE_def MAP_ANONYMOUS_def Let_def)
  moreover have blk: "env_block (mem_write ?m1 ea (le_bytes 8 a)) a envp \<and> pointer_at (mem_write ?m1 ea (le_bytes 8 a)) ea = a"
    by (rule vector_complete [OF w2(3) refl s]) (use ea(4) in auto)
  moreover have "mem_write ?m1 ea (le_bytes 8 a) y = m_mem (view w1) y" if "?s \<le> unat (y - a)" "8 \<le> unat (y - ea)" for y
  proof -
    have "mem_write ?m1 ea (le_bytes 8 a) y = ?m1 y" using that(2) by (simp add: mem_write_def)
    also have "\<dots> = m_mem (view w2) y" using mem_write_at [of "length envp * 8" "le_bytes 8 (0 :: u64)" "m_mem (view w2)" a y] that(1) s by auto
    also have "\<dots> = m_mem (view w1) y" using w2(4) that(1) s unfolding env_frame_def by auto
    finally show ?thesis .
  qed
  moreover have "mapped (mem_write ?m1 ea (le_bytes 8 a)) a ?s" "mapped (mem_write ?m1 ea (le_bytes 8 a)) ea 8"
    using w2(5) ea2 by (simp_all add: mapped_write)
  ultimately show ?thesis
    using leaves_trans [OF w2(2) leaves_trans [OF w3(2) leaves_trans [OF w4(2) w5(2)]]] w2(6) leaves_view [OF w5(2)]
    by (intro exI [of _ w5]) simp
qed

text \<open>Property C10.
  \<^verbatim>\<open>elfldr_set_environ\<close> returns 0 and gives the tracee exactly the environment \<open>envp\<close>: its \<^verbatim>\<open>environ\<close> then points to a
  null-terminated vector of pointers to the strings of \<open>envp\<close>, in order, all within the block whose size the function
  computed. The tracee's \<^verbatim>\<open>mmap\<close> gives a block of that size apart from the variable \<^verbatim>\<open>environ\<close> itself.\<close>

theorem set_environ_roundtrip:
  assumes laws: "tracee_laws pk pid auth caps view cpu symb" and page: "lk_page lk = 2 ^ k" "k < 64"
    and sz: "(length envp + 1) * 8 + strings_len envp + 2 ^ k \<le> 2 ^ 64" and ne: "envp \<noteq> []"
    and map: "pt_mmap pk pid 0 (environ_size (2 ^ k) envp) 3 0x1002 (- 1) 0 w = Some (a, w1)" "a \<noteq> - 1" "auth w1 \<noteq> 0"
      "mapped (m_mem (view w1)) a (unat (environ_size (2 ^ k) envp))"
    and ea: "ea = (if symb 0x1 ''+2thxYZ4syk'' \<noteq> 0 then symb 0x1 ''+2thxYZ4syk'' else symb 0x2001 ''+2thxYZ4syk'')" "ea \<noteq> 0"
      "mapped (m_mem (view w1)) ea 8" "\<forall>i < 8. unat (environ_size (2 ^ k) envp) \<le> unat (ea + of_nat i - a)"
  shows "\<exists>w'. elfldr_set_environ pk lk pid envp w = Some (0, w')
    \<and> pointer_at (m_mem (view w')) ea = a \<and> vector_at (m_mem (view w')) a envp
    \<and> m_regs (view w') = m_regs (view w1) \<and> auth w' = auth w1 \<and> caps w' = caps w1"
proof -
  from set_environ_ok [OF assms] obtain w' where w': "elfldr_set_environ pk lk pid envp w = Some (0, w')" "leaves pk auth caps view (view w') w1 w'"
    "pointer_at (m_mem (view w')) ea = a" "env_block (m_mem (view w')) a envp" "m_regs (view w') = m_regs (view w1)" by blast
  then show ?thesis using env_block_vector [OF w'(4)] by (auto simp: leaves_def keeps_creds_def)
qed

theorem set_environ_roundtrip_witness:
  "\<exists>w'. elfldr_set_environ sys_pk sim_lk 101 [''A=1'', ''TERM=dumb''] sys_sim = Some (0, w')
    \<and> pointer_at (m_mem (s_mach w')) 0x8000 = 0x10000000 \<and> vector_at (m_mem (s_mach w')) 0x10000000 [''A=1'', ''TERM=dumb'']
    \<and> m_regs (s_mach w') = sim_regs"
proof -
  let ?e = "[''A=1'', ''TERM=dumb'']"
  have sz: "environ_size 0x4000 ?e = 0x4000" by (simp add: environ_size_def ROUND_PG_def)
  obtain w1 where w1: "pt_mmap sys_pk 101 0 0x4000 3 0x1002 (- 1) 0 sys_sim = Some (0x10000000, w1)" "s_auth w1 = 0x123"
    "s_mach w1 = (s_mach sys_sim)\<lparr>m_mem := (\<lambda>x. if x - 0x10000000 < 0x4000 then Some 0 else m_mem (s_mach sys_sim) x)\<rparr>"
    using sys_mmap [of sys_sim 101 0 "0x4000" 3 "0x1002" "- 1" 0] by (auto simp: sys_sim_def sim0_def sim_regs_def)
  have m: "m_regs (s_mach w1) = sim_regs" "mapped (m_mem (s_mach w1)) 0x10000000 0x4000" "mapped (m_mem (s_mach w1)) 0x8000 8"
    using w1(3) by (auto simp: sys_sim_def mapped_def word_less_nat_alt unat_of_nat)
  have far: "0x4000 \<le> unat (0x8000 + of_nat i - 0x10000000 :: u64)" if "i < 8" for i
  proof -
    have "(0x8000 + of_nat i - 0x10000000 :: u64) = of_nat (18446744073441148928 + i)" by simp
    then show ?thesis using that by (simp only: unat_of_nat) simp
  qed
  have "\<exists>w'. elfldr_set_environ sys_pk sim_lk 101 ?e sys_sim = Some (0, w')
    \<and> pointer_at (m_mem (s_mach w')) 0x8000 = 0x10000000 \<and> vector_at (m_mem (s_mach w')) 0x10000000 ?e
    \<and> m_regs (s_mach w') = m_regs (s_mach w1) \<and> s_auth w' = s_auth w1 \<and> s_caps w' = s_caps w1"
    by (rule set_environ_roundtrip [OF sim_laws, where k = 14])
       (use w1 m far in \<open>simp_all add: sz sim_lk_def sys_symb_def strings_len_def\<close>)
  then show ?thesis using m(1) by auto
qed

section \<open>The registers at the entry\<close>

lemma sys_ptrace_Some_auth:
  assumes "cred_laws pk auth caps view" "sys_ptrace pk call w = (Some x, w')"
  shows "auth w \<noteq> 0"
  using assms by (auto simp: sys_ptrace_def cred_laws_def Let_def split: if_splits)

lemma pt_getregs_Some:
  assumes laws: "tracee_laws pk pid auth caps view cpu symb" and "pt_getregs pk pid w = (Some r, w')"
  shows "r = m_regs (view w)"
proof -
  have "cred_laws pk auth caps view" using laws by (simp add: tracee_laws_def)
  then have "auth w \<noteq> 0" by (rule sys_ptrace_Some_auth) (use assms(2) in \<open>simp add: pt_getregs_def\<close>)
  then show ?thesis using pt_getregs_view [OF laws] assms(2) by fastforce
qed

lemma pt_setregs_Some:
  assumes laws: "tracee_laws pk pid auth caps view cpu symb" and "pt_setregs pk pid r w = (Some u, w')"
  shows "m_regs (view w') = r"
proof -
  have "cred_laws pk auth caps view" using laws by (simp add: tracee_laws_def)
  then have "auth w \<noteq> 0" by (rule sys_ptrace_Some_auth) (use assms(2) in \<open>simp add: pt_setregs_def\<close>)
  then show ?thesis using pt_setregs_view [OF laws, of w r] assms(2) by (auto dest: leaves_view)
qed

lemma aligned_minus_8: "unat ((x AND NOT 0xf) - 8 :: u64) mod 16 = 8"
proof -
  have q: "unat (x AND NOT 0xf) = unat x div 16 * 16" using unat_trunc_page [of 4 x] by simp
  have "(x AND NOT 0xf) - 8 = (x AND NOT 0xf) + 0xfffffffffffffff8" by simp
  then have "unat ((x AND NOT 0xf) - 8) = (unat x div 16 * 16 + 18446744073709551608) mod 2 ^ 64"
    by (simp only: unat_word_ariths q) simp
  moreover have "(unat x div 16 * 16 + 18446744073709551608) mod 2 ^ 64 mod 16 = (unat x div 16 * 16 + 18446744073709551608) mod 16"
    by (rule mod_mod_cancel) simp
  moreover have "(unat x div 16 * 16 + 18446744073709551608) mod 16 = 8" by presburger
  ultimately show ?thesis by simp
qed

text \<open>When \<^verbatim>\<open>elfldr_prepare_exec\<close> returns 0, the tracee stands at the entry of the ELF with the payload arguments in
  \<^verbatim>\<open>rdi\<close>, and with the stack pointer that the calling convention asks for at the first instruction of a function:
  just below a 16-byte boundary, one return address deep. Every other register is as it was.\<close>

theorem prepare_exec_registers:
  assumes laws: "tracee_laws pk pid auth caps view cpu symb"
    and ret: "elfldr_prepare_exec pk lk pid elf w = Some (Ret (0, b), w')"
  shows "\<exists>entry args. entry \<noteq> 0 \<and> args \<noteq> 0
    \<and> m_regs (view w') = (m_regs (view w))\<lparr>r_rsp := (r_rsp (m_regs (view w)) AND NOT 0xf) - 8, r_rip := entry, r_rdi := args\<rparr>
    \<and> unat (r_rsp (m_regs (view w'))) mod 16 = 8"
proof -
  obtain r w1 where w1: "pt_getregs pk pid w = (Some r, w1)" using ret by (auto simp: elfldr_prepare_exec_def split: prod.splits option.splits)
  obtain l w2 where l: "elfldr_load pk lk pid elf w1 = Some (l, w2)"
    using ret w1 by (cases "elfldr_load pk lk pid elf w1") (auto simp: elfldr_prepare_exec_def)
  obtain entry base where w2: "l = Ret (entry, base)" "entry \<noteq> 0"
    using ret w1 l by (cases l) (auto simp: elfldr_prepare_exec_def split: if_splits)
  note w2 = l [unfolded w2(1)] w2(2)
  obtain args w3 where w3: "elfldr_payload_args pk lk pid w2 = Some (args, w3)" "args \<noteq> 0"
    using ret w1 w2 by (cases "elfldr_payload_args pk lk pid w2") (auto simp: elfldr_prepare_exec_def split: if_splits)
  obtain s w4 where w4: "pt_setlong pk pid ((r_rsp r AND NOT 0xf) - 8) (r_rip r) w3 = (s, w4)" by fastforce
  obtain u w5 where w5: "pt_setregs pk pid (entry_regs entry args r) w4 = (Some u, w5)" "w' = w5"
    using ret w1 w2 w3 w4 by (auto simp: elfldr_prepare_exec_def split: prod.splits option.splits)
  have "m_regs (view w') = entry_regs entry args r" using pt_setregs_Some [OF laws w5(1)] w5(2) by simp
  moreover have "r = m_regs (view w)" by (rule pt_getregs_Some [OF laws w1])
  ultimately show ?thesis using w2(2) w3(2) aligned_minus_8 by (auto simp: entry_regs_def)
qed


text \<open>On the concrete console, system calls keep the credentials and the registers.\<close>

definition sim_same :: "sim \<Rightarrow> sim \<Rightarrow> bool" where
  "sim_same w w' \<longleftrightarrow> s_auth w' = s_auth w \<and> m_regs (s_mach w') = m_regs (s_mach w)"

definition sim_ready :: "sim \<Rightarrow> bool" where
  "sim_ready w \<longleftrightarrow> s_auth w = 0x123 \<and> m_regs (s_mach w) = sim_regs"

lemma ready_same: "sim_ready w \<Longrightarrow> sim_same w w' \<Longrightarrow> sim_ready w'"
  by (simp add: sim_ready_def sim_same_def)

lemma ready_syscall:
  assumes "sim_ready w" "1 < length args"
  shows "\<exists>w'. pt_syscall sys_pk pid sysno args w = Some (if word_of_int sysno = (477 :: u64) then 0x10000000 else 0, w') \<and> sim_ready w'"
  using sys_syscall [of w args pid sysno] assms by (fastforce simp: sim_ready_def sim_regs_def)

lemma ready_call:
  assumes "sim_ready w"
  shows "\<exists>w'. pt_call_nid sys_pk pid nid args w = Some (0, w') \<and> sim_ready w'"
proof -
  obtain w1 where w1: "pt_resolve sys_pk pid nid w = (sys_symb 1 nid, w1)" "sim_same w w1"
    using pt_resolve_view [OF sim_laws, of sys_cpu sys_symb pid nid w]
    by (auto simp: leaves_def keeps_creds_def sim_same_def sys_symb_def split: if_splits)
  have r1: "s_auth w1 \<noteq> 0" "m_regs (s_mach w1) = sim_regs" "sim_ready w1" using ready_same [OF assms w1(2)] by (simp_all add: sim_ready_def)
  obtain w2 where w2: "pt_getregs sys_pk pid w1 = (Some sim_regs, w2)" "leaves sys_pk s_auth s_caps s_mach (s_mach w1) w1 w2"
    using pt_getregs_view [OF sim_laws r1(1)] r1(2) by fastforce
  have r2: "s_auth w2 \<noteq> 0" "s_mach w2 = s_mach w1" using leaves_auth [OF w2(2)] leaves_view [OF w2(2)] r1 by simp_all
  let ?j = "call_regs sim_regs (sys_symb 1 nid) (va_arg sys_pk args w2)"
  have "remote_call sys_cpu (Suc 0) ?j (s_mach w2) = Some (0, s_mach w2)"
    using r1(2) r2(2)
    by (auto simp: remote_call_def machine_run.simps sys_cpu_def call_regs_def sim_regs_def sys_symb_def word_sle_eq)
  from run_remote_view [OF sim_laws r2(1) this] obtain w3 where w3: "run_remote sys_pk pid sim_regs ?j w2 = Some (0, w3)"
    "leaves sys_pk s_auth s_caps s_mach (s_mach w2) w2 w3" using r1(2) r2(2) by auto
  have "pt_call_nid sys_pk pid nid args w = Some (0, w3)"
    using w1(1) w2(1) w3(1) by (simp add: pt_call_nid_def pt_call_def)
  moreover have "sim_ready w3"
    using r1(3) leaves_auth [OF w2(2)] leaves_auth [OF w3(2)] leaves_view [OF w3(2)] r2(2) by (simp add: sim_ready_def)
  ultimately show ?thesis by blast
qed

lemma ready_setint: "sim_ready w \<Longrightarrow> sim_ready (snd (pt_setint sys_pk pid a v w))"
  by (simp add: pt_setint_def sys_ptrace_def Let_def sim_ready_def) (simp add: sim_pk_def)

lemma ready_getint: "sim_ready w \<Longrightarrow> sim_ready (snd (pt_getint sys_pk pid a w))"
  by (simp add: pt_getint_def sys_ptrace_def Let_def sim_ready_def split_def split: option.splits) (simp add: sim_pk_def)

lemma ready_setlong: "sim_ready w \<Longrightarrow> sim_ready (snd (pt_setlong sys_pk pid a v w))"
  by (simp add: pt_setlong_def pt_copyin_def sys_ptrace_def Let_def sim_ready_def)

lemma ready_set_ints: "sim_ready w \<Longrightarrow> sim_ready (set_ints sys_pk pid xs w)"
  unfolding set_ints_def by (induction xs arbitrary: w) (auto intro: ready_setint)

lemma ready_set_longs: "sim_ready w \<Longrightarrow> sim_ready (set_longs sys_pk pid xs w)"
  unfolding set_longs_def by (induction xs arbitrary: w) (auto intro: ready_setlong)

lemma ready_resolve: "sim_ready w \<Longrightarrow> sim_ready (snd (pt_resolve sys_pk pid nid w))"
  by (simp add: pt_resolve_def)

lemma ready_int_syscall:
  assumes "sim_ready w" "1 < length args" "word_of_int sysno \<noteq> (477 :: u64)"
  shows "\<exists>w'. as_int (pt_syscall sys_pk pid sysno args w) = Some (0, w') \<and> sim_ready w'"
  using ready_syscall [OF assms(1,2), of pid sysno] assms(3) by (auto simp: as_int_def to_int32_def)

lemma ready_socket: "sim_ready w \<Longrightarrow> \<exists>w'. pt_socket sys_pk pid d t p w = Some (0, w') \<and> sim_ready w'"
  unfolding pt_socket_def by (rule ready_int_syscall) (simp_all add: SYS_socket_def)

lemma ready_setsockopt: "sim_ready w \<Longrightarrow> \<exists>w'. pt_setsockopt sys_pk pid fd l n v len w = Some (0, w') \<and> sim_ready w'"
  unfolding pt_setsockopt_def by (rule ready_int_syscall) (simp_all add: SYS_setsockopt_def)

lemma ready_mmap: "sim_ready w \<Longrightarrow> \<exists>w'. pt_mmap sys_pk pid a len pr fl fd off w = Some (0x10000000, w') \<and> sim_ready w'"
  using ready_syscall [of w "[L64 a, L64 len, I32 pr, I32 fl, I32 fd, L64 off]" pid SYS_mmap]
  by (simp add: pt_mmap_def SYS_mmap_def)

lemma ready_pipe: "sim_ready w \<Longrightarrow> \<exists>w'. pt_pipe sys_pk pid a w = Some (0, w') \<and> sim_ready w'"
  using ready_call [of w pid "''-Jp7F+pXxNg''" "[L64 a]"] by (auto simp: pt_pipe_def as_int_def to_int32_def)

lemma ready_payload_args:
  assumes "sim_ready w"
  shows "\<exists>w'. elfldr_payload_args sys_pk sim_lk pid w = Some (0x10000000, w') \<and> sim_ready w'"
proof -
  let ?b = "0x10000000 :: u64"
  let ?i1 = "[(?b, 20), (?b + 0x04, IPPROTO_IPV6), (?b + 0x08, IPV6_TCLASS), (?b + 0x0c, 0), (?b + 0x10, 0), (?b + 0x14, 0)]"
  let ?i2 = "[(?b, 0), (?b + 0x04, 0), (?b + 0x08, 0), (?b + 0x0c, 0), (?b + 0x10, 0)]"
  obtain w1 where w1: "pt_mmap sys_pk pid 0 (lk_page sim_lk) (PROT_READ OR PROT_WRITE) (MAP_ANONYMOUS OR MAP_PRIVATE) (- 1) 0 w = Some (?b, w1)"
    "sim_ready w1" using ready_mmap [OF assms] by blast
  obtain w2 where w2: "pt_socket sys_pk pid AF_INET6 SOCK_DGRAM IPPROTO_UDP w1 = Some (0, w2)" "sim_ready w2"
    using ready_socket [OF w1(2)] by blast
  obtain w3 where w3: "pt_setsockopt sys_pk pid 0 IPPROTO_IPV6 IPV6_2292PKTOPTIONS ?b 24 (set_ints sys_pk pid ?i1 w2) = Some (0, w3)" "sim_ready w3"
    using ready_setsockopt [OF ready_set_ints [OF w2(2)]] by blast
  obtain w4 where w4: "pt_socket sys_pk pid AF_INET6 SOCK_DGRAM IPPROTO_UDP w3 = Some (0, w4)" "sim_ready w4"
    using ready_socket [OF w3(2)] by blast
  obtain w5 where w5: "pt_setsockopt sys_pk pid 0 IPPROTO_IPV6 IPV6_PKTINFO ?b 20 (set_ints sys_pk pid ?i2 w4) = Some (0, w5)" "sim_ready w5"
    using ready_setsockopt [OF ready_set_ints [OF w4(2)]] by blast
  have "lk_overlap_sockets sim_lk pid 0 0 w5 = (True, w5)" by (simp add: sim_lk_def)
  then have all: "elfldr_payload_args sys_pk sim_lk pid w = payload_block sys_pk sim_lk pid ?b 0 0 w5"
    using w1(1) w2(1) w3(1) w4(1) w5(1) by (simp add: elfldr_payload_args_def)
  obtain w6 where w6: "pt_pipe sys_pk pid ?b w5 = Some (0, w6)" "sim_ready w6" using ready_pipe [OF w5(2)] by blast
  have "\<exists>w'. payload_block sys_pk sim_lk pid ?b 0 0 w5 = Some (?b, w') \<and> sim_ready w'"
    using w6 by (simp add: payload_block_def split_def Let_def ready_set_ints ready_set_longs ready_resolve ready_getint)
       (simp add: sim_lk_def ready_set_ints ready_set_longs ready_resolve ready_getint)
  then show ?thesis using all by simp
qed

lemma sys_load_tiny:
  "\<exists>w'. elfldr_load sys_pk sim_lk 101 (tiny_elf ET_DYN 0) sys_sim = Some (Ret (0x10000004, Some 0x10000000), w') \<and> sim_ready w'"
proof -
  obtain w1 where w1: "pt_mmap sys_pk 101 0 0x4000 3 0x1002 (- 1) 0 sys_sim = Some (0x10000000, w1)" "s_auth w1 = 0x123"
    "s_mach w1 = (s_mach sys_sim)\<lparr>m_mem := (\<lambda>x. if x - 0x10000000 < 0x4000 then Some 0 else m_mem (s_mach sys_sim) x)\<rparr>"
    using sys_mmap [of sys_sim 101 0 "0x4000" 3 "0x1002" "- 1" 0] by (auto simp: sys_sim_def sim0_def sim_regs_def)
  have m: "m_regs (s_mach w1) = sim_regs" "mapped (m_mem (s_mach w1)) 0x10000000 0x4000" "gadget sys_symb \<noteq> 0" "s_auth w1 \<noteq> 0"
    using w1 by (auto simp: sys_sim_def mapped_def word_less_nat_alt unat_of_nat gadget_def sys_symb_def)
  obtain w' where w': "install_image sys_pk sim_lk 101 (tiny_ehdr ET_DYN 0) [tiny_phdr 0] 0x10000000 0x4000
      ([1, 2, 3, 4, 5, 6, 7, 8] @ replicate 0x3ff8 0) w1 = Some (Ret (0x10000000 + e_entry (tiny_ehdr ET_DYN 0), Some 0x10000000), w')"
    "leaves sys_pk s_auth s_caps s_mach ((s_mach w1)\<lparr>m_mem := mem_write (m_mem (s_mach w1)) 0x10000000
      ([1, 2, 3, 4, 5, 6, 7, 8] @ replicate 0x3ff8 0)\<rparr>) w1 w'"
    using install_image_ok [OF sim_laws sim_lk_laws m(3) _ _ m(4), where mirror = "[1, 2, 3, 4, 5, 6, 7, 8] @ replicate 0x3ff8 0"
        and base = "0x10000000" and eh = "tiny_ehdr ET_DYN 0" and phs = "[tiny_phdr 0]" and base_size = "0x4000" and pid = 101] m(1,2)
    by (auto simp: sys_returns_zero SYS_mprotect_def SYS_msync_def sim_regs_def)
  have "vaddr_range (lk_page sim_lk) [tiny_phdr 0] = (0, 0x4000)"
    using tiny_range [of 0] by (simp add: sim_lk_def TRUNC_PG_def ROUND_PG_def)
  moreover have "lk_mmap sim_lk n p f v = (True, v)" for n p f v by (simp add: sim_lk_def)
  moreover have "read_table (read_phdr (tiny_elf ET_DYN 0)) (e_phoff (tiny_ehdr ET_DYN 0)) 56 (unat (e_phnum (tiny_ehdr ET_DYN 0)))
      = Some [tiny_phdr 0]" using tiny_elf_phdrs by (simp add: tiny_ehdr_def)
  moreover have "take 4 (e_ident (tiny_ehdr ET_DYN 0)) = elf_magic" "e_type (tiny_ehdr ET_DYN 0) = ET_DYN"
    by (simp_all add: tiny_ehdr_def elf_magic_def)
  ultimately have "elfldr_load sys_pk sim_lk 101 (tiny_elf ET_DYN 0) sys_sim
      = Some (Ret (0x10000000 + e_entry (tiny_ehdr ET_DYN 0), Some 0x10000000), w')"
    using w1(1) w'(1) tiny_image elfldr_load_header [OF tiny_elf_ehdr, where lk = sim_lk and pk = sys_pk]
    by (simp add: map_image_def PROT_READ_def PROT_WRITE_def MAP_PRIVATE_def MAP_ANONYMOUS_def)
  then show ?thesis
    using w'(2) w1(2) m(1) by (auto simp: tiny_ehdr_def sim_ready_def leaves_def keeps_creds_def)
qed

theorem prepare_exec_registers_witness:
  "\<exists>w' entry args. elfldr_prepare_exec sys_pk sim_lk 101 (tiny_elf ET_DYN 0) sys_sim = Some (Ret (0, Some 0x10000000), w')
    \<and> entry \<noteq> 0 \<and> args \<noteq> 0
    \<and> m_regs (s_mach w') = sim_regs\<lparr>r_rsp := 0x7ffefff8, r_rip := entry, r_rdi := args\<rparr>
    \<and> unat (r_rsp (m_regs (s_mach w'))) mod 16 = 8"
proof -
  have g: "pt_getregs sys_pk 101 sys_sim = (Some sim_regs, sys_sim)"
    by (simp add: pt_getregs_def sys_ptrace_def Let_def sys_sim_def sim0_def)
  obtain w2 where w2: "elfldr_load sys_pk sim_lk 101 (tiny_elf ET_DYN 0) sys_sim = Some (Ret (0x10000004, Some 0x10000000), w2)" "sim_ready w2"
    using sys_load_tiny by blast
  obtain w3 where w3: "elfldr_payload_args sys_pk sim_lk 101 w2 = Some (0x10000000, w3)" "sim_ready w3"
    using ready_payload_args [OF w2(2)] by blast
  have r4: "sim_ready (snd (pt_setlong sys_pk 101 ((r_rsp sim_regs AND NOT 0xf) - 8) (r_rip sim_regs) w3))" (is "sim_ready ?w4")
    by (rule ready_setlong [OF w3(2)])
  then have a4: "s_auth ?w4 \<noteq> 0" by (simp add: sim_ready_def)
  obtain w5 where w5: "pt_setregs sys_pk 101 (entry_regs 0x10000004 0x10000000 sim_regs) ?w4 = (Some (), w5)"
    using pt_setregs_view [OF sim_laws a4] by blast
  have "elfldr_prepare_exec sys_pk sim_lk 101 (tiny_elf ET_DYN 0) sys_sim = Some (Ret (0, Some 0x10000000), w5)"
    using g w2(1) w3(1) w5 by (simp add: elfldr_prepare_exec_def split_def)
  with prepare_exec_registers [OF sim_laws this] show ?thesis
    by (auto simp: sys_sim_def sim_regs_def)
qed

end
