(* ===== verification/Elf_Spawn.thy ===== *)
theory Elf_Spawn
  imports Elf_Exec Commands
begin

text \<open>
  Creating a process for an ELF: the capabilities of the traced process are given back, a failure
  kills it, the breakpoint at \<^verbatim>\<open>main\<close> is removed; and the loader as the argument of the builtins
  \<^verbatim>\<open>execelf\<close> and \<^verbatim>\<open>debugelf\<close>.
\<close>

section \<open>The loader in the server\<close>

definition elf_spawner :: "'w pk \<Rightarrow> 'w lk \<Rightarrow> 'w spawner" where
  "elf_spawner pk lk data av w = elfldr_spawn pk lk 0 1 2 data av w"

section \<open>Capabilities of the traced process\<close>

text \<open>The kernel's record of the capabilities of process \<open>pid\<close>, read by \<open>tc\<close>.\<close>

definition caps_cell :: "'w pk \<Rightarrow> int \<Rightarrow> ('w \<Rightarrow> byte list) \<Rightarrow> bool" where
  "caps_cell pk pid tc \<longleftrightarrow>
     (\<forall>w. pk_get_caps pk pid w = (Some (tc w), w))
   \<and> (\<forall>w c. \<exists>w'. pk_set_caps pk pid c w = (True, w') \<and> tc w' = c)"

text \<open>Property C24.
  However the preparation of the ELF ends, success or failure, \<^verbatim>\<open>elfldr_debug\<close> returns with the capabilities of the
  traced process set back to what they were when it was called.\<close>

theorem debug_restores_caps:
  assumes cell: "caps_cell pk pid tc"
    and ret: "elfldr_debug pk lk stdin_fd stdout_fd stderr_fd pid elf w = Some (Ret (rc, b), w')"
  shows "tc w' = tc w"
proof -
  obtain w2 where w2: "pk_get_caps pk pid w = (Some (tc w), w)" "pk_set_caps pk pid privcaps w = (True, w2)"
    using cell unfolding caps_cell_def by blast
  obtain p w6 where p: "restore_caps pk pid (tc w) p w6 = (Ret (rc, b), w')"
    using ret w2 by (fastforce simp: elfldr_debug_def bind_eq_Some_conv)
  obtain w7 where w7: "pk_set_caps pk pid (tc w) w6 = (True, w7)" "tc w7 = tc w" using cell unfolding caps_cell_def by blast
  show ?thesis using p w7 by (auto simp: restore_caps_def split: outcome.splits)
qed

text \<open>A file of a type that the loader does not support.\<close>

definition junk :: "byte list" where "junk = tiny_elf 0 0"

lemma junk_load: "elfldr_load sys_pk sim_lk pid junk w = Some (Ret (0, None), pk_puts sys_pk ''elfldr_load: ELF type not supported'' w)"
proof -
  have "read_table (read_phdr junk) (e_phoff (tiny_ehdr 0 0)) 56 (unat (e_phnum (tiny_ehdr 0 0))) = Some [tiny_phdr 0]"
    using tiny_elf_phdrs [of 0 0] by (simp add: junk_def tiny_ehdr_def)
  moreover have "take 4 (e_ident (tiny_ehdr 0 0)) = elf_magic" "e_type (tiny_ehdr 0 0) = 0" by (simp_all add: tiny_ehdr_def elf_magic_def)
  moreover have "read_ehdr junk = Some (tiny_ehdr 0 0)" unfolding junk_def by (rule tiny_elf_ehdr)
  ultimately show ?thesis
    using elfldr_load_header [of junk "tiny_ehdr 0 0" "[tiny_phdr 0]" sim_lk] by (cases "vaddr_range (lk_page sim_lk) [tiny_phdr 0]") (simp add: ET_DYN_def ET_EXEC_def)
qed

lemma junk_debug:
  "\<exists>w'. elfldr_debug sys_pk sim_lk (- 1) (- 1) (- 1) 101 junk sys_sim = Some (Ret (- 1, None), w')"
proof -
  have a: "s_auth (sys_sim\<lparr>s_caps := privcaps\<rparr>) \<noteq> 0" by (simp add: sys_sim_def sim0_def)
  obtain w1 where g: "pt_getregs sys_pk 101 (sys_sim\<lparr>s_caps := privcaps\<rparr>) = (Some (m_regs (s_mach (sys_sim\<lparr>s_caps := privcaps\<rparr>))), w1)"
    using pt_getregs_view [OF sim_laws a] by blast
  have p: "elfldr_prepare_exec sys_pk sim_lk 101 junk (sys_sim\<lparr>s_caps := privcaps\<rparr>)
      = Some (Ret (- 1, None), pk_puts sys_pk ''elfldr_load failed'' (pk_puts sys_pk ''elfldr_load: ELF type not supported'' w1))"
    by (simp add: elfldr_prepare_exec_def g junk_load)
  show ?thesis by (simp add: elfldr_debug_def give_fd_def p restore_caps_def)
qed

lemma sim_caps_cell: "caps_cell sys_pk pid s_caps"
  by (simp add: caps_cell_def)

theorem debug_restores_caps_witness:
  "\<exists>w'. elfldr_debug sys_pk sim_lk (- 1) (- 1) (- 1) 101 junk sys_sim = Some (Ret (- 1, None), w') \<and> s_caps w' = replicate 16 0"
proof -
  obtain w' where w': "elfldr_debug sys_pk sim_lk (- 1) (- 1) (- 1) 101 junk sys_sim = Some (Ret (- 1, None), w')"
    using junk_debug by blast
  with debug_restores_caps [OF sim_caps_cell w'] show ?thesis by (simp add: sys_sim_def sim0_def)
qed

section \<open>Failures kill the child\<close>

text \<open>
  The requests that end the child: \<^verbatim>\<open>ptrace(PT_DETACH)\<close> with the signal \<^verbatim>\<open>SIGKILL\<close>, and \<^verbatim>\<open>kill\<close>. \<open>killed\<close> reads off the
  state whether one was made.
\<close>

definition kill_laws :: "'w pk \<Rightarrow> 'w lk \<Rightarrow> int \<Rightarrow> ('w \<Rightarrow> u64) \<Rightarrow> ('w \<Rightarrow> byte list) \<Rightarrow> ('w \<Rightarrow> bool) \<Rightarrow> bool" where
  "kill_laws pk lk pid auth caps killed \<longleftrightarrow>
     cred_laws pk auth caps killed \<and> (\<forall>w. auth w \<noteq> 0)
   \<and> (\<forall>w sg. keeps_creds pk auth caps w (snd (pk_detach pk pid sg w)))
   \<and> (\<forall>w. killed (snd (pk_detach pk pid SIGKILL w))) \<and> (\<forall>w. killed (lk_kill lk pid SIGKILL w))"

lemma detach_kills: "kill_laws pk lk pid auth caps killed \<Longrightarrow> killed (snd (pt_detach pk pid SIGKILL w))"
proof -
  assume k: "kill_laws pk lk pid auth caps killed"
  obtain v w' where "sys_ptrace pk (pk_detach pk pid SIGKILL) w = (fst (pk_detach pk pid SIGKILL v), w')"
    "killed w' = killed (snd (pk_detach pk pid SIGKILL v))"
    using sys_ptrace_call [of pk auth caps killed w "pk_detach pk pid SIGKILL"] k unfolding kill_laws_def by metis
  then show ?thesis using k by (simp add: pt_detach_def kill_laws_def)
qed

lemma exec_failure_kills:
  assumes "kill_laws pk lk pid auth caps killed" "elfldr_exec pk lk i o' e pid elf w = Some (Ret rc, w')" "rc \<noteq> 0"
  shows "killed w'"
proof -
  obtain d w1 where d: "elfldr_debug pk lk i o' e pid elf w = Some (d, w1)"
    using assms(2) by (cases "elfldr_debug pk lk i o' e pid elf w") (auto simp: elfldr_exec_def)
  obtain c b where c: "d = Ret (c, b)" using assms(2) d by (cases d) (auto simp: elfldr_exec_def)
  show ?thesis
    using assms d c detach_kills [OF assms(1)]
    by (auto simp: elfldr_exec_def kill_laws_def split: if_splits prod.splits option.splits)
qed

text \<open>Property C23.
  Once the child of \<^verbatim>\<open>elfldr_spawn\<close> is stopped, no failure leaves it behind: whenever the rest of the function returns -1
  (the relocation of its libraries, the breakpoint, or the loading of the ELF failed), the child was killed.\<close>

theorem spawn_failure_kills:
  assumes laws: "kill_laws pk lk pid auth caps killed" and pid: "0 \<le> pid"
    and ret: "spawn_stopped pk lk stdin_fd stdout_fd stderr_fd elf av cwd pid w = Some (Ret (- 1), w')"
  shows "killed w'"
proof -
  note k = detach_kills [OF laws]
  obtain r w1 where r: "pt_syscall pk pid 599 [] w = Some (r, w1)"
    using ret by (cases "pt_syscall pk pid 599 [] w") (auto simp: spawn_stopped_def)
  show ?thesis
  proof (cases "r = 0")
    case False
    then show ?thesis using ret r k by (auto simp: spawn_stopped_def spawn_fail_def)
  next
    case True
    obtain h w2 where h: "elfldr_set_heap_size pk pid (- 1) w1 = Some (h, w2)"
      using ret r True by (cases "elfldr_set_heap_size pk pid (- 1) w1") (auto simp: spawn_stopped_def)
    obtain ok w3 where m: "run_to_main pk lk pid w2 = (ok, w3)" by fastforce
    show ?thesis
    proof (cases ok)
      case False
      then show ?thesis using ret r True h m k by (auto simp: spawn_stopped_def spawn_fail_def)
    next
      case ok: True
      have "\<exists>v x w9. elfldr_exec pk lk stdin_fd stdout_fd stderr_fd pid elf v = Some (x, w9)
          \<and> (case x of Ret rc \<Rightarrow> Ret (if rc \<noteq> 0 then - 1 else pid) | _ \<Rightarrow> Crashed, w9) = (Ret (- 1), w')"
        using ret r True h m ok by (auto simp: spawn_stopped_def bind_eq_Some_conv split_def Let_def)
      then obtain v x where x: "elfldr_exec pk lk stdin_fd stdout_fd stderr_fd pid elf v = Some (x, w')"
        "(case x of Ret rc \<Rightarrow> Ret (if rc \<noteq> 0 then - 1 else pid) | _ \<Rightarrow> Crashed) = Ret (- 1)" by auto
      obtain rc where rc: "x = Ret rc" "rc \<noteq> 0" using x(2) pid by (cases x) (auto split: if_splits)
      show ?thesis using exec_failure_kills [OF laws x(1) [unfolded rc(1)] rc(2)] .
    qed
  qed
qed


text \<open>A console that records the end of the child, and on which the libraries of the child have no symbols.\<close>

definition kill_auth :: "sim \<Rightarrow> u64" where
  "kill_auth w = (if s_auth w = 0 then 1 else s_auth w)"

definition kill_pk :: "sim pk" where
  "kill_pk = (sim_pk id (\<lambda>h n. 0))\<lparr>
     pk_get_authid := (\<lambda>p w. (kill_auth w, w)),
     pk_detach := (\<lambda>p sg w. (Some (), if sg = SIGKILL then w\<lparr>s_out := [''killed'']\<rparr> else w))\<rparr>"

definition kill_lk :: "sim lk" where
  "kill_lk = sim_lk\<lparr>lk_kill := (\<lambda>p sg w. w\<lparr>s_out := [''killed'']\<rparr>)\<rparr>"

lemma kill_laws_console: "kill_laws kill_pk kill_lk pid kill_auth s_caps (\<lambda>w. s_out w = [''killed''])"
  by (auto simp: kill_laws_def cred_laws_def kill_pk_def kill_lk_def kill_auth_def keeps_creds_def)

theorem spawn_failure_kills_witness:
  "\<exists>w'. spawn_stopped kill_pk kill_lk 0 1 2 junk [''a.elf''] None 101 sys_sim = Some (Ret (- 1), w') \<and> s_out w' = [''killed'']"
proof -
  have "\<exists>w1. pt_syscall kill_pk 101 599 [] sys_sim = Some (- 1, w1)"
    by (simp add: pt_syscall_def pt_resolve_def kill_pk_def)
  then obtain w' where w': "spawn_stopped kill_pk kill_lk 0 1 2 junk [''a.elf''] None 101 sys_sim = Some (Ret (- 1), w')"
    by (auto simp: spawn_stopped_def spawn_fail_def)
  with spawn_failure_kills [OF kill_laws_console _ w'] show ?thesis by simp
qed

section \<open>The breakpoint at main\<close>

text \<open>What continuing the child may do: anything but change the instruction at \<open>brk\<close>, where it stops.\<close>

definition runs_to :: "'w pk \<Rightarrow> int \<Rightarrow> ('w \<Rightarrow> u64) \<Rightarrow> ('w \<Rightarrow> byte list) \<Rightarrow> ('w \<Rightarrow> machine) \<Rightarrow> u64 \<Rightarrow> bool" where
  "runs_to pk pid auth caps view brk \<longleftrightarrow>
     (\<forall>w. keeps_creds pk auth caps w (snd (pk_continue pk pid SIGCONT w)) \<and> fst (pk_continue pk pid SIGCONT w) = Some ()
        \<and> m_mem (view (snd (pk_continue pk pid SIGCONT w))) brk = m_mem (view w) brk)"

lemma pt_continue_view:
  assumes laws: "tracee_laws pk pid auth caps view cpu symb" and run: "runs_to pk pid auth caps view brk" and a: "auth w \<noteq> 0"
  shows "\<exists>v w'. pt_continue pk pid SIGCONT w = (Some (), w') \<and> view v = view w
    \<and> leaves pk auth caps view (view (snd (pk_continue pk pid SIGCONT v))) w w'"
proof -
  have c: "cred_laws pk auth caps view" using laws by (simp add: tracee_laws_def)
  have k: "\<And>v. keeps_creds pk auth caps v (snd (pk_continue pk pid SIGCONT v))" "\<And>v. fst (pk_continue pk pid SIGCONT v) = Some ()"
    using run unfolding runs_to_def by blast+
  from sys_ptrace_call [of pk auth caps view w "pk_continue pk pid SIGCONT", OF c a k(1)] show ?thesis
    unfolding pt_continue_def leaves_def k(2) by metis
qed

lemma mem_write_1: "mem_write m a [b] = m(a \<mapsto> b)"
  by (auto simp: mem_write_def fun_eq_iff unat_eq_zero)

lemma mem_read_1: "m a = Some b \<Longrightarrow> mem_read m a 1 = [b]"
  by (simp add: mem_read_def)

lemma run_to_main_stops:
  assumes laws: "tracee_laws pk pid auth caps view cpu symb" "lk_laws pk lk pid auth caps view" and a: "auth w \<noteq> 0"
    and entry: "lk_entry_addr lk pid 0 w = (brk - 58, w1)" "brk \<noteq> 58" "leaves pk auth caps view (view w) w w1"
    and b: "m_mem (view w) brk = Some instr" and run: "runs_to pk pid auth caps view brk"
  shows "\<exists>v w'. run_to_main pk lk pid w = (True, w') \<and> auth w' = auth w
    \<and> m_mem (view v) = (m_mem (view w))(brk \<mapsto> 0xcc) \<and> m_regs (view v) = m_regs (view w)
    \<and> view w' = (view (snd (pk_continue pk pid SIGCONT v)))\<lparr>m_mem := (m_mem (view (snd (pk_continue pk pid SIGCONT v))))(brk \<mapsto> instr)\<rparr>"
proof -
  let ?p = "lk_kernel_mprotect lk pid brk (lk_page lk) (PROT_READ OR PROT_WRITE OR PROT_EXEC) w1"
  have p: "fst ?p" "leaves pk auth caps view (view w1) w1 (snd ?p)" using laws(2) unfolding lk_laws_def by blast+
  have v2: "auth (snd ?p) \<noteq> 0" "view (snd ?p) = view w"
    using a leaves_auth [OF entry(3)] leaves_auth [OF p(2)] leaves_view [OF entry(3)] leaves_view [OF p(2)] by simp_all
  have mp: "mapped (m_mem (view (snd ?p))) brk 1" using b v2(2) by (simp add: mapped_def)
  obtain w3 where w3: "pt_copyout pk pid brk 1 (snd ?p) = (Some [instr], w3)" "leaves pk auth caps view (view (snd ?p)) (snd ?p) w3"
    using pt_copyout_view [OF laws(1) v2(1) mp] mem_read_1 [of "m_mem (view w)" brk instr] b v2(2) by auto
  have v3: "auth w3 \<noteq> 0" "view w3 = view w" using v2 leaves_auth [OF w3(2)] leaves_view [OF w3(2)] by simp_all
  have mp3: "mapped (m_mem (view w3)) brk (length [0xcc :: byte])" using mp v2 v3 by simp
  obtain w4 where w4: "pt_copyin pk pid [0xcc] brk w3 = (Some (), w4)" "leaves pk auth caps view ((view w)\<lparr>m_mem := (m_mem (view w))(brk \<mapsto> 0xcc)\<rparr>) w3 w4"
    using pt_copyin_view [OF laws(1) v3(1) mp3] v3(2) by (auto simp: mem_write_1)
  have v4: "auth w4 \<noteq> 0" "view w4 = (view w)\<lparr>m_mem := (m_mem (view w))(brk \<mapsto> 0xcc)\<rparr>" using v3 leaves_auth [OF w4(2)] leaves_view [OF w4(2)] by simp_all
  obtain v w5 where w5: "pt_continue pk pid SIGCONT w4 = (Some (), w5)" "view v = view w4"
    "leaves pk auth caps view (view (snd (pk_continue pk pid SIGCONT v))) w4 w5"
    using pt_continue_view [OF laws(1) run v4(1)] by blast
  obtain w6 where w6: "pk_waitpid pk pid w5 = (True, w6)" "leaves pk auth caps view (view w5) w5 w6"
    using laws(1) unfolding tracee_laws_def leaves_def by (metis (full_types) prod.collapse)
  have v6: "auth w6 \<noteq> 0" "view w6 = view (snd (pk_continue pk pid SIGCONT v))"
    using v4 leaves_auth [OF w5(3)] leaves_auth [OF w6(2)] leaves_view [OF w5(3)] leaves_view [OF w6(2)] by simp_all
  have "m_mem (view w6) brk = Some 0xcc" using run w5(2) v4(2) v6(2) unfolding runs_to_def by simp
  then have mp6: "mapped (m_mem (view w6)) brk (length [instr])" by (simp add: mapped_def)
  obtain w7 where w7: "pt_copyin pk pid [instr] brk w6 = (Some (), w7)" "leaves pk auth caps view ((view w6)\<lparr>m_mem := (m_mem (view w6))(brk \<mapsto> instr)\<rparr>) w6 w7"
    using pt_copyin_view [OF laws(1) v6(1) mp6] by (auto simp: mem_write_1)
  have "run_to_main pk lk pid w = (True, w7)"
    using entry(1,2) p(1) w3(1) w4(1) w5(1) w6(1) w7(1) by (cases ?p) (simp add: run_to_main_def)
  moreover have "auth w7 = auth w"
    using leaves_auth [OF entry(3)] leaves_auth [OF p(2)] leaves_auth [OF w3(2)] leaves_auth [OF w4(2)] leaves_auth [OF w5(3)]
      leaves_auth [OF w6(2)] leaves_auth [OF w7(2)] by simp
  ultimately show ?thesis using w5(2) v4(2) v6(2) leaves_view [OF w7(2)] by (intro exI [of _ v] exI [of _ w7]) simp
qed

text \<open>\<^verbatim>\<open>elfldr_spawn\<close> lets the child run to its \<^verbatim>\<open>main\<close> with a breakpoint instruction 58 bytes after the entry, and when it
  goes on the original instruction is back at that place: apart from what the child itself did on the way, its memory
  is what it was.\<close>

theorem breakpoint_removed:
  assumes laws: "tracee_laws pk pid auth caps view cpu symb" "lk_laws pk lk pid auth caps view" and a: "auth w \<noteq> 0"
    and entry: "lk_entry_addr lk pid 0 w = (brk - 58, w1)" "brk \<noteq> 58" "leaves pk auth caps view (view w) w w1"
    and b: "m_mem (view w) brk = Some instr" and run: "runs_to pk pid auth caps view brk"
  shows "\<exists>v w'. run_to_main pk lk pid w = (True, w')
    \<and> m_mem (view v) = (m_mem (view w))(brk \<mapsto> 0xcc) \<and> m_regs (view v) = m_regs (view w)
    \<and> m_mem (view w') = (m_mem (view (snd (pk_continue pk pid SIGCONT v))))(brk \<mapsto> instr)"
  using run_to_main_stops [OF assms] by fastforce

theorem breakpoint_removed_witness:
  "\<exists>w'. run_to_main sys_pk sim_lk 101 (sys_sim\<lparr>s_mach := \<lparr>m_regs = sim_regs, m_mem = [0x40003a \<mapsto> 0x55]\<rparr>\<rparr>) = (True, w')
    \<and> m_mem (s_mach w') = [0x40003a \<mapsto> 0x55]"
proof -
  let ?w = "sys_sim\<lparr>s_mach := \<lparr>m_regs = sim_regs, m_mem = [0x40003a \<mapsto> 0x55]\<rparr>\<rparr>"
  have c: "pk_continue sys_pk 101 sg v = (Some (), v)" for sg v by (simp add: sim_pk_def)
  have run: "runs_to sys_pk 101 s_auth s_caps s_mach 0x40003a" by (simp add: runs_to_def c keeps_creds_def)
  have "\<exists>v w'. run_to_main sys_pk sim_lk 101 ?w = (True, w')
    \<and> m_mem (s_mach v) = (m_mem (s_mach ?w))(0x40003a \<mapsto> 0xcc) \<and> m_regs (s_mach v) = m_regs (s_mach ?w)
    \<and> m_mem (s_mach w') = (m_mem (s_mach (snd (pk_continue sys_pk 101 SIGCONT v))))(0x40003a \<mapsto> 0x55)"
    by (rule breakpoint_removed [OF sim_laws sim_lk_laws _ _ _ leaves_refl _ run])
       (simp_all add: sys_sim_def sim0_def sim_lk_def)
  then show ?thesis by (auto simp: c)
qed

end
