(* ===== verification/Session_Descriptors.thy ===== *)
theory Session_Descriptors
  imports Descriptors Elf_Frame Elf_Spawn
begin

text \<open>
  Pipelines, the session and the server on the descriptor table. The states of a session at its prompt are an inductive
  relation; the table is an invariant of it, and a session that returns does so from one of these states. The
  theorems are applied on a concrete kernel for the whole program (\<open>term_os\<close> with \<open>term_lk\<close> and \<open>term_pk\<close>), on which
  the interfaces \<open>fd_kernel\<close> and \<open>tracer_frame\<close> are interpreted.
\<close>

section \<open>Pipelines and the session\<close>

text \<open>\<^verbatim>\<open>pipe\<close> does not run out of descriptors.\<close>

definition pipes_ok :: "'w os \<Rightarrow> bool" where
  "pipes_ok os \<longleftrightarrow> (\<forall>w. \<exists>p w1. os_pipe os w = (Inr p, w1))"

text \<open>The states of a session at its prompt, from the one it starts in.\<close>

inductive at_prompt :: "'w os \<Rightarrow> 'w spawner \<Rightarrow> 'w session \<Rightarrow> int \<Rightarrow> 'w \<Rightarrow> 'w \<Rightarrow> bool"
  for os spawn session lpid w0 where
  first: "at_prompt os spawn session lpid w0 w0"
| line_done: "at_prompt os spawn session lpid w0 w \<Longrightarrow> read_line os 0 MAX_LINE (out os ''$ '' w) = Some (Some ln, w1) \<Longrightarrow>
    run_line os spawn session lpid ln w1 = Some (Go_On, w2) \<Longrightarrow> at_prompt os spawn session lpid w0 w2"

text \<open>A session that returns does so from a prompt: at the end of the input, or on a line that leaves.\<close>

lemma session_loop_prompts:
  "session_loop os spawn session lpid w = Some y \<Longrightarrow> at_prompt os spawn session lpid w0 w \<Longrightarrow>
   \<exists>w1. at_prompt os spawn session lpid w0 w1 \<and>
     (case read_line os 0 MAX_LINE (out os ''$ '' w1) of
        Some (None, w2) \<Rightarrow> y = (Ret (), w2)
      | Some (Some ln, w2) \<Rightarrow>
          (\<exists>v w3. run_line os spawn session lpid ln w2 = Some (v, w3) \<and> v \<noteq> Go_On
             \<and> y = (case v of Gone r \<Rightarrow> r | _ \<Rightarrow> Ret (), w3))
      | None \<Rightarrow> False)"
proof (induction os spawn session lpid w y rule: session_loop.raw_induct [rotated 1, consumes 1, case_names step])
  case (step f os spawn session lpid w y)
  from step.hyps obtain line w1 where r: "read_line os 0 MAX_LINE (out os ''$ '' w) = Some (line, w1)"
    by (auto elim!: bind_SomeE)
  show ?case
  proof (cases line)
    case None
    then show ?thesis using step.hyps step.prems r by auto
  next
    case (Some ln)
    then obtain v w2 where v: "run_line os spawn session lpid ln w1 = Some (v, w2)"
      using step.hyps r by (auto elim!: bind_SomeE)
    show ?thesis
    proof (cases "v = Go_On")
      case True
      with step.hyps r Some v have "f os spawn session lpid w2 = Some y" by simp
      moreover have "at_prompt os spawn session lpid w0 w2"
        using at_prompt.line_done [OF step.prems] r Some v True by simp
      ultimately show ?thesis by (rule step.IH)
    next
      case False
      with step.hyps step.prems r Some v show ?thesis by (intro exI [of _ w]) (cases v; simp)
    qed
  qed
qed

context fd_kernel
begin

lemma fd_laws_table: "fd_laws os fdt"
  by (simp add: fd_laws_def dup2_table)

text \<open>What \<^verbatim>\<open>pipe\<close> opened before it failed, or before all were there.\<close>

lemma make_pipes_table:
  "make_pipes os n ps w = (r, w1) \<Longrightarrow>
   \<exists>qs. (\<lambda>fd. if fd \<in> pipe_fds qs then None else fdt w1 fd) = fdt w \<and> (\<forall>fd\<in>pipe_fds qs. fdt w1 fd \<noteq> None)
     \<and> (case r of Some ps1 \<Rightarrow> ps1 = ps @ qs \<and> length qs = n | None \<Rightarrow> length qs < n)"
proof (induction n arbitrary: ps w)
  case 0
  then show ?case by (auto intro!: exI [of _ "[]"] simp: pipe_fds_def)
next
  case (Suc n)
  obtain x v where x: "os_pipe os w = (x, v)" by fastforce
  show ?case
  proof (cases x)
    case (Inl e)
    with Suc.prems x show ?thesis by (auto intro!: exI [of _ "[]"] simp: pipe_fds_def dest!: tables)
  next
    case (Inr p)
    have t: "fdt v (fst p) \<noteq> None" "fdt v (snd p) \<noteq> None" "(fdt v)(fst p := None, snd p := None) = fdt w"
      using pipe_table(2) x Inr by blast+
    obtain qs where qs: "(\<lambda>fd. if fd \<in> pipe_fds qs then None else fdt w1 fd) = fdt v" "\<forall>fd\<in>pipe_fds qs. fdt w1 fd \<noteq> None"
      "case r of Some ps1 \<Rightarrow> ps1 = (ps @ [p]) @ qs \<and> length qs = n | None \<Rightarrow> length qs < n"
      using Suc.IH [of "ps @ [p]" v] Suc.prems x Inr by auto
    have e: "fdt v fd = (if fd \<in> pipe_fds qs then None else fdt w1 fd)" for fd using fun_cong [OF qs(1), of fd] by (rule sym)
    have w: "fdt w fd = ((fdt v)(fst p := None, snd p := None)) fd" for fd using fun_cong [OF t(3), of fd] by (rule sym)
    have "(\<lambda>fd. if fd \<in> pipe_fds (p # qs) then None else fdt w1 fd) = fdt w"
      by (rule ext) (simp add: w e pipe_fds_def)
    moreover have "fdt w1 (fst p) \<noteq> None" "fdt w1 (snd p) \<noteq> None" using t(1,2) by (simp_all add: e split: if_splits)
    then have "\<forall>fd\<in>pipe_fds (p # qs). fdt w1 fd \<noteq> None" using qs(2) by (auto simp: pipe_fds_def)
    ultimately show ?thesis using qs(3) by (intro exI [of _ "p # qs"]) (auto split: option.splits)
  qed
qed

lemma child_exit_Ret: "child_exit x \<noteq> (Ret r, w1)"
  by (cases x rule: child_exit.cases) auto

lemma run_child_Ret: "run_child os spawn session pl pipes i lpid w \<noteq> Some (Ret r, w1)"
  by (auto simp: run_child_def Let_def child_exit_Ret split: prod.splits bool.splits option.splits if_splits)

lemma fork_loop_table [tables]: "fork_loop os spawn session pl pipes lpid i k w = Some (Ret r, w1) \<Longrightarrow> fdt w1 = fdt w"
proof (induction k arbitrary: i w)
  case (Suc k)
  then show ?case by (auto simp: run_child_Ret split: prod.splits sum.splits if_splits dest!: tables)
qed simp

lemma wait_loop_table [tables]: "wait_loop os n c w = (r, w1) \<Longrightarrow> fdt w1 = fdt w"
proof (induction n arbitrary: c w)
  case (Suc n)
  then show ?case by (auto split: prod.splits wait_status.splits dest!: tables)
qed simp

lemma run_builtin_table:
  "run_builtin_in_current os spawn session av w = Some (Ret r, w1) \<Longrightarrow> quiet fdt spawn \<Longrightarrow> fdt w1 = fdt w"
  by (auto simp: run_builtin_in_current_def split: option.splits if_splits dest: call_builtin_table)

lemma execute_pipeline_table:
  assumes "execute_pipeline os spawn session pl lpid w = Some (Ret r, w1)" "quiet fdt spawn" "pipes_ok os"
  shows "fdt w1 = fdt w"
proof -
  let ?n = "length (cmds pl)"
  have pipes: "fst (make_pipes os n ps v) \<noteq> None" for n ps v
  proof (induction n arbitrary: ps v)
    case (Suc n)
    obtain p v1 where "os_pipe os v = (Inr p, v1)" using assms(3) unfolding pipes_ok_def by blast
    with Suc show ?case by simp
  qed simp
  consider "cmds pl = []" | "cmds pl \<noteq> []" "?n = 1 \<and> is_builtin (hd (cmds pl)) \<and> redir_file pl = None"
    | "cmds pl \<noteq> []" "\<not> (?n = 1 \<and> is_builtin (hd (cmds pl)) \<and> redir_file pl = None)" by blast
  then show ?thesis
  proof cases
    case 1
    with assms(1) show ?thesis by (simp add: execute_pipeline_def)
  next
    case 2
    then obtain x where x: "run_builtin_in_current os spawn session (argv (hd (cmds pl))) w = Some (x, w1)"
      "(case x of Ret rc \<Rightarrow> Ret (if rc = 255 then - 2 else rc) | _ \<Rightarrow> x) = Ret r"
      using assms(1) by (auto simp: execute_pipeline_def)
    then obtain rc where "x = Ret rc" by (cases x) auto
    with x(1) run_builtin_table [OF _ assms(2)] show ?thesis by blast
  next
    case 3
    obtain ps v1 where m: "make_pipes os (?n - 1) [] w = (Some ps, v1)" using pipes by (metis option.exhaust prod.collapse)
    obtain qs where qs: "(\<lambda>fd. if fd \<in> pipe_fds qs then None else fdt v1 fd) = fdt w" "ps = qs"
      using make_pipes_table [OF m] by auto
    obtain u v2 where f: "fork_loop os spawn session pl ps lpid 0 ?n v1 = Some (u, v2)"
      using assms(1) 3 m by (auto simp: execute_pipeline_def elim!: bind_SomeE)
    obtain r' where u: "u = Ret r'" "wait_loop os ?n 0 (close_pipes os ps v2) = (r, w1)"
      using assms(1) 3 m f by (auto simp: execute_pipeline_def split: outcome.splits prod.splits)
    have "fdt v2 = fdt v1" using f u(1) by (auto dest: tables)
    moreover have "fdt w1 = fdt (close_pipes os ps v2)" using u(2) by (rule wait_loop_table)
    ultimately have "fdt w1 = (\<lambda>fd. if fd \<in> pipe_fds qs then None else fdt v1 fd)"
      unfolding close_pipes_fdt [OF fd_laws_table] qs(2) by metis
    then show ?thesis unfolding qs(1) .
  qed
qed

lemma run_line_cases:
  assumes "run_line os spawn session lpid ln w = Some (v, w1)"
  obtains (idle) "v = Go_On" "fdt w1 = fdt w" | (fault) "v = Gone Crashed"
    | (pipeline) pl rc where "execute_pipeline os spawn session pl lpid w = Some (Ret rc, w1)" "v = (if rc = - 2 then Leave else Go_On)"
    | (ended) r where "v = Gone r" "r \<noteq> Ret ()"
proof (cases "\<exists>pl. parse_line (map bi_name builtin_table) (c_str ln) = Some (Inr pl)")
  case True
  then obtain pl r where e: "execute_pipeline os spawn session pl lpid w = Some (r, w1)"
    "v = (case r of Ret rc \<Rightarrow> if rc = - 2 then Leave else Go_On | Exit n \<Rightarrow> Gone (Exit n) | Execed \<Rightarrow> Gone Execed | Crashed \<Rightarrow> Gone Crashed)"
    using assms by (auto simp: run_line_def)
  then show thesis by (cases r) (auto intro: pipeline ended)
next
  case False
  with assms show thesis by (auto simp: run_line_def split: option.splits sum.splits parse_error.splits intro: idle fault)
qed

lemma run_line_table:
  assumes "run_line os spawn session lpid ln w = Some (v, w1)" "v \<noteq> Gone Crashed" "quiet fdt spawn" "pipes_ok os"
    "(case v of Gone r \<Rightarrow> r | _ \<Rightarrow> Ret ()) = Ret ()"
  shows "fdt w1 = fdt w"
  using assms(1)
proof (cases rule: run_line_cases)
  case (pipeline pl rc)
  then show ?thesis using execute_pipeline_table [OF _ assms(3,4)] by simp
qed (use assms(2,5) in auto)

lemma read_line_table [tables]: "read_line os fd n w = Some (r, w1) \<Longrightarrow> fdt w1 = fdt w"
proof -
  have "read_line_loop os' fd k b v = Some y \<Longrightarrow> os' = os \<Longrightarrow> fdt (snd y) = fdt v" for os' k b v y
  proof (induction os' fd k b v y rule: read_line_induct)
    case (step f os' fd k b v y)
    show ?case using step(2) step(1) [OF _ step(3)] unfolding step(3)
      by (auto split: prod.splits sum.splits if_splits dest!: tables)
  qed
  then show "read_line os fd n w = Some (r, w1) \<Longrightarrow> fdt w1 = fdt w"
    by (fastforce simp: read_line_def)
qed

lemma prompt_table:
  assumes "at_prompt os spawn session lpid w0 w" "quiet fdt spawn" "pipes_ok os"
  shows "fdt w = fdt w0"
  using assms(1)
proof induction
  case (line_done w ln w1 w2)
  then show ?case using run_line_table [OF line_done(3) _ assms(2,3)] by (auto dest!: tables)
qed simp

lemma session_loop_table:
  assumes "session_loop os spawn session lpid w = Some (Ret (), w1)" "quiet fdt spawn" "pipes_ok os"
  shows "fdt w1 = fdt w"
proof -
  obtain w2 where a: "at_prompt os spawn session lpid w w2"
    "case read_line os 0 MAX_LINE (out os ''$ '' w2) of
        Some (None, w3) \<Rightarrow> (Ret (), w1) = (Ret (), w3)
      | Some (Some ln, w3) \<Rightarrow>
          (\<exists>v w4. run_line os spawn session lpid ln w3 = Some (v, w4) \<and> v \<noteq> Go_On
             \<and> (Ret (), w1) = (case v of Gone r \<Rightarrow> r | _ \<Rightarrow> Ret (), w4))
      | None \<Rightarrow> False" using session_loop_prompts [OF assms(1) at_prompt.first] by blast
  obtain l w3 where r: "read_line os 0 MAX_LINE (out os ''$ '' w2) = Some (l, w3)" using a(2) by (auto split: option.splits)
  have w3: "fdt w3 = fdt w" using prompt_table [OF a(1) assms(2,3)] r by (auto dest!: tables)
  show ?thesis
  proof (cases l)
    case (Some ln)
    with a(2) r obtain v where v: "run_line os spawn session lpid ln w3 = Some (v, w1)" "(case v of Gone r \<Rightarrow> r | _ \<Rightarrow> Ret ()) = Ret ()" "v \<noteq> Go_On" by auto
    show ?thesis using run_line_table [OF v(1) _ assms(2,3) v(2)] v(2) w3 by (cases v) auto
  qed (use a(2) r w3 in simp)
qed

lemma dprintf_table [simp]: "fdt (snd (dprintf os fd s w)) = fdt w"
  by (auto simp: dprintf_def split: prod.split sum.split dest!: tables)

lemma dup_standard_table:
  "fdt w fd \<noteq> None \<Longrightarrow> fdt (os_dup2 os fd 2 (os_dup2 os fd 1 (os_dup2 os fd 0 w))) = (fdt w)(0 := fdt w fd, 1 := fdt w fd, 2 := fdt w fd)"
  by (auto simp: dup2_table fun_upd_def)

lemma session_handle_table:
  assumes "session_handle os spawn session fd ip lpid w = Some (Ret (), w1)" "fdt w fd \<noteq> None" "quiet fdt spawn" "pipes_ok os"
  shows "fdt w1 = (fdt w)(0 := fdt w fd, 1 := fdt w fd, 2 := fdt w fd)"
  using session_loop_table [OF assms(1) [unfolded session_handle_def Let_def] assms(3,4)] assms(2)
  by (simp add: dup_standard_table)

text \<open>The server.\<close>

lemma kill_processes_named_table [simp]: "fdt (snd (kill_processes_named os name self w)) = fdt w"
proof -
  have [simp]: "fdt (snd (kill_named os name self ps k v)) = fdt v" for ps k v
    by (induction ps arbitrary: k v) auto
  show ?thesis by (auto simp: kill_processes_named_def split: prod.splits sum.splits dest!: tables)
qed

lemma create_listener_table [tables]:
  "create_listener os port w = (Inl e, w1) \<Longrightarrow> fdt w1 = fdt w"
  "create_listener os port w = (Inr fd, w1) \<Longrightarrow> (fdt w1)(fd := None) = fdt w"
  by (auto simp: create_listener_def split: prod.splits sum.splits option.splits dest!: tables)

lemma bind_attempts_table:
  "bind_attempts os port force n w = (r, w1) \<Longrightarrow> (case r of None \<Rightarrow> fdt w1 | Some fd \<Rightarrow> (fdt w1)(fd := None)) = fdt w"
proof (induction n arbitrary: w)
  case (Suc n)
  then show ?case by (auto split: prod.splits sum.splits if_splits dest!: tables)
qed auto

lemma write_pidfile_table [simp]: "fdt (snd (write_pidfile os pid w)) = fdt w"
  by (auto simp: write_pidfile_def Let_def split: prod.splits sum.splits dest!: tables)

lemma remove_pidfile_table [simp]: "fdt (remove_pidfile os w) = fdt w"
  by (simp add: remove_pidfile_def)

lemma end_session_Ret: "end_session os fd x \<noteq> (Ret r, w1)"
  by (cases x; cases "fst x") auto

lemma accept_loop_table_of:
  "accept_loop os' session lfd lpid w = Some y \<Longrightarrow> os' = os \<Longrightarrow> fst y = Ret () \<Longrightarrow> fdt (snd y) = fdt w"
proof (induction os' session lfd lpid w y rule: accept_loop_induct)
  case (step f os' session lfd lpid w y)
  have no: "map_option (end_session os c) x \<noteq> Some y" for c x
    using step(4) end_session_Ret by (metis map_option_eq_Some prod.collapse)
  show ?case using step(2) step(1) [OF _ step(3,4)] no unfolding step(3)
    by (auto simp: fun_upd_def cong: if_cong split: prod.splits sum.splits if_splits dest!: tables)
qed

lemma serve_table:
  assumes "serve os session port daemonize force lpid w = Some (Ret (), w1)"
  shows "fdt w1 = fdt w"
proof -
  obtain r w2 where b: "bind_with_retry os port force (os_sigaction os 2 (os_sigaction os SIGTERM w)) = (r, w2)" by fastforce
  show ?thesis
  proof (cases r)
    case None
    then show ?thesis using assms b bind_attempts_table [of port force 30 _ r w2]
      by (auto simp: serve_def bind_with_retry_def Let_def split: if_splits)
  next
    case (Some lfd)
    with b have w2: "(fdt w2)(lfd := None) = fdt w" using bind_attempts_table [of port force 30 _ r w2] by (simp add: bind_with_retry_def)
    let ?w4 = "os_klog os ''pid written'' (snd (write_pidfile os lpid (os_klog os (listening_msg port lpid) w2)))"
    obtain x w5 where a: "accept_loop os session lfd lpid ?w4 = Some (x, w5)"
      using assms b Some by (auto simp: serve_def elim!: bind_SomeE)
    with assms b Some have x: "x = Ret ()" by (cases x) (auto simp: serve_def)
    have "fdt w5 = fdt w2" using accept_loop_table_of [OF a refl] x by simp
    then show ?thesis using assms b Some a x w2 by (auto simp: serve_def Let_def split: if_splits)
  qed
qed

end

lemma elf_spawner_quiet: "tracer_frame pk lk v \<Longrightarrow> quiet v (elf_spawner pk lk)"
  by (auto simp: quiet_def elf_spawner_def dest: tracer_frame.elfldr_spawn_frame)


section \<open>A kernel with a terminal\<close>

text \<open>
  A concrete kernel for the whole program: the traced process of \<open>sim\<close>, the input that is left (each
  connection to the server takes one character of it) and the descriptor table of the process.
\<close>

record tsim = sim +
  t_in :: string
  t_fds :: fdlist

definition t_add :: "string \<Rightarrow> tsim \<Rightarrow> int \<times> tsim" where
  "t_add o1 w = (fresh_fd (t_fds w), w\<lparr>t_fds := (fresh_fd (t_fds w), o1) # t_fds w\<rparr>)"

definition t_del :: "int \<Rightarrow> tsim \<Rightarrow> tsim" where
  "t_del fd w = w\<lparr>t_fds := filter (\<lambda>x. fst x \<noteq> fd) (t_fds w)\<rparr>"

definition t_table :: "tsim \<Rightarrow> int \<Rightarrow> string option" where
  "t_table w = map_of (t_fds w)"

definition term_os :: "tsim os" where
  "term_os = null_os\<lparr>
     os_read := (\<lambda>fd n w. (Inr (take n (t_in w)), w\<lparr>t_in := drop n (t_in w)\<rparr>)),
     os_dup2 := (\<lambda>a b w. case map_of (t_fds w) a of None \<Rightarrow> w | Some o1 \<Rightarrow> w\<lparr>t_fds := (b, o1) # t_fds w\<rparr>),
     os_close := t_del,
     os_open := (\<lambda>f fl w. case t_add f w of (fd, w1) \<Rightarrow> (Inr fd, w1)),
     os_socket := (\<lambda>w. case t_add ''socket'' w of (fd, w1) \<Rightarrow> (Inr fd, w1)),
     os_bind := (\<lambda>fd p w. (None, w)),
     os_listen := (\<lambda>fd n w. (None, w)),
     os_accept := (\<lambda>fd w. case t_add ''client'' (w\<lparr>t_in := tl (t_in w)\<rparr>) of (c, w1) \<Rightarrow> (Inr (c, ''10.0.0.2''), w1)),
     os_term_signal := (\<lambda>w. (t_in w = [], w)),
     os_pipe := (\<lambda>w. case t_add ''pipe'' w of (r, w1) \<Rightarrow> (case t_add ''pipe'' w1 of (x, w2) \<Rightarrow> (Inr (r, x), w2))),
     os_fork := (\<lambda>w. (Inr 7, w))\<rparr>"

definition term_lk :: "tsim lk" where
  "term_lk = any_lk\<lparr>
     lk_kqueue := (\<lambda>w. case t_add ''kqueue'' w of (fd, w1) \<Rightarrow> (Some fd, w1)),
     lk_close := t_del\<rparr>"

abbreviation term_pk :: "tsim pk" where
  "term_pk \<equiv> sim_pk sys_cpu sys_symb"

lemma t_add_table: "t_add o1 w = (fd, w1) \<Longrightarrow> t_table w1 = (t_table w)(fd \<mapsto> o1) \<and> t_table w fd = None"
  by (auto simp: t_add_def t_table_def fresh_fd)

lemma t_del_table [simp]: "t_table (t_del fd w) = (t_table w)(fd := None)"
  by (simp add: t_del_def t_table_def map_of_close)

lemma t_table_update [simp]: "t_table (w\<lparr>t_in := i\<rparr>) = t_table w" "t_table (w\<lparr>s_auth := a\<rparr>) = t_table w"
  "t_table (w\<lparr>s_caps := c\<rparr>) = t_table w" "t_table (w\<lparr>s_mach := m\<rparr>) = t_table w" "t_table (w\<lparr>s_out := l\<rparr>) = t_table w"
  by (simp_all add: t_table_def)

lemma upd_None: "(F :: int \<Rightarrow> 'o option) fd = None \<Longrightarrow> F(fd := None) = F"
  by (simp add: fun_upd_idem)

interpretation term_table: fd_kernel term_os t_table
proof
  fix w :: tsim and a b
  assume "t_table w a \<noteq> None"
  then show "t_table (os_dup2 term_os a b w) = (t_table w)(b := t_table w a)"
    by (auto simp: term_os_def t_table_def fun_eq_iff)
next
  fix w w1 and pp :: "int \<times> int"
  assume "os_pipe term_os w = (Inr pp, w1)"
  then show "fst pp \<noteq> snd pp \<and> t_table w1 (fst pp) \<noteq> None \<and> t_table w1 (snd pp) \<noteq> None
         \<and> (t_table w1)(fst pp := None, snd pp := None) = t_table w"
    by (auto simp: term_os_def upd_None fun_upd_twist split: prod.splits if_splits dest!: t_add_table)
qed (auto simp: term_os_def null_os_def upd_None split: prod.splits dest!: t_add_table)

interpretation term_frame: tracer_frame term_pk term_lk t_table
  by unfold_locales (auto simp: term_lk_def any_lk_def sim_pk_def upd_None split: prod.splits dest!: t_add_table)

lemma term_pipes: "pipes_ok term_os"
  by (simp add: pipes_ok_def term_os_def split: prod.split)

definition term0 :: "string \<Rightarrow> fdlist \<Rightarrow> tsim" where
  "term0 inp t = \<lparr>s_auth = 1, s_caps = replicate 16 0, s_mach = \<lparr>m_regs = sim_regs, m_mem = Map.empty\<rparr>, s_out = [],
                  t_in = inp, t_fds = t\<rparr>"

section \<open>Properties\<close>

text \<open>Property C19.
  No line leaks descriptors into the session: whatever lines it has run, builtins of any kind (transfers, installs,
  ELF programs) and pipelines, when the session is back at its prompt its descriptor table is the one it started
  with, as long as \<^verbatim>\<open>pipe\<close> does not fail.\<close>

theorem prompts_keep_table:
  assumes "fd_kernel os fdt" "tracer_frame pk lk fdt" "pipes_ok os"
    "at_prompt os (elf_spawner pk lk) session lpid w0 w"
  shows "fdt w = fdt w0"
  using fd_kernel.prompt_table [OF assms(1,4) elf_spawner_quiet [OF assms(2)] assms(3)] .

theorem prompts_keep_table_witness:
  "\<exists>w. at_prompt term_os (elf_spawner term_pk term_lk) (\<lambda>fd ip lp w. None) 77 (term0 (''ls | cat > f'' @ ''\<newline>'') [(0, ''client'')]) w
     \<and> t_table w = [0 \<mapsto> ''client'']"
proof -
  let ?sp = "elf_spawner term_pk term_lk" and ?w0 = "term0 (''ls | cat > f'' @ ''\<newline>'') [(0, ''client'')]"
  let ?l = "read_line term_os 0 MAX_LINE (out term_os ''$ '' ?w0)"
  have "map_option fst ?l = Some (Some ''ls | cat > f'')" by code_simp
  then obtain w1 where w1: "?l = Some (Some ''ls | cat > f'', w1)" by auto
  have "map_option fst (run_line term_os ?sp (\<lambda>fd ip lp w. None) 77 ''ls | cat > f'' (snd (the ?l))) = Some Go_On" by code_simp
  then obtain w2 where "run_line term_os ?sp (\<lambda>fd ip lp w. None) 77 ''ls | cat > f'' w1 = Some (Go_On, w2)" using w1 by auto
  with w1 have a: "at_prompt term_os ?sp (\<lambda>fd ip lp w. None) 77 ?w0 w2" by (blast intro: at_prompt.intros)
  from prompts_keep_table [OF term_table.fd_kernel_axioms term_frame.tracer_frame_axioms term_pipes a] a
  show ?thesis by (auto simp: t_table_def term0_def)
qed

text \<open>Property C18.
  A session that ends, at the end of its input or on \<^verbatim>\<open>exit\<close>, leaves its process with the descriptors it had when the
  connection was handed over, and the connection as the three standard ones.\<close>

theorem session_no_leak:
  assumes "fd_kernel os fdt" "tracer_frame pk lk fdt" "pipes_ok os" "fdt w fd \<noteq> None"
    "session_handle os (elf_spawner pk lk) session fd ip lpid w = Some (Ret (), w1)"
  shows "fdt w1 = (fdt w)(0 := fdt w fd, 1 := fdt w fd, 2 := fdt w fd)"
  using fd_kernel.session_handle_table [OF assms(1,5,4) elf_spawner_quiet [OF assms(2)] assms(3)] .

theorem session_no_leak_witness:
  "\<exists>w1. session_handle term_os (elf_spawner term_pk term_lk) (\<lambda>fd ip lp w. None) 3 ''10.0.0.2'' 77
      (term0 (''ls | cat > f'' @ ''\<newline>'' @ ''exit'' @ ''\<newline>'') [(3, ''client'')]) = Some (Ret (), w1)
    \<and> t_table w1 = [0 \<mapsto> ''client'', 1 \<mapsto> ''client'', 2 \<mapsto> ''client'', 3 \<mapsto> ''client'']"
proof -
  let ?w0 = "term0 (''ls | cat > f'' @ ''\<newline>'' @ ''exit'' @ ''\<newline>'') [(3, ''client'')]"
  have "map_option fst (session_handle term_os (elf_spawner term_pk term_lk) (\<lambda>fd ip lp w. None) 3 ''10.0.0.2'' 77 ?w0) = Some (Ret ())"
    by code_simp
  then obtain w1 where w1: "session_handle term_os (elf_spawner term_pk term_lk) (\<lambda>fd ip lp w. None) 3 ''10.0.0.2'' 77 ?w0 = Some (Ret (), w1)"
    by auto
  have "t_table ?w0 3 \<noteq> None" by (simp add: t_table_def term0_def)
  from session_no_leak [OF term_table.fd_kernel_axioms term_frame.tracer_frame_axioms term_pipes this w1] w1
  show ?thesis by (auto simp: t_table_def term0_def fun_eq_iff)
qed

text \<open>Property C20.
  The server does not leak either: when the serving part of \<^verbatim>\<open>sshsvr_run\<close> returns after its signal, every connection it accepted has been
  closed in the server, and so has the listening socket (and the socket of every failed attempt to bind it).\<close>

theorem server_no_leak:
  assumes "fd_kernel os fdt" "serve os session port daemonize force lpid w = Some (Ret (), w1)"
  shows "fdt w1 = fdt w"
  using assms by (rule fd_kernel.serve_table)

theorem server_no_leak_witness:
  "\<exists>w1. serve term_os (\<lambda>fd ip lp w. None) 2222 False False 100 (term0 ''ab'' [(0, ''tty'')]) = Some (Ret (), w1)
    \<and> t_in w1 = [] \<and> t_table w1 = [0 \<mapsto> ''tty'']"
proof -
  let ?s = "serve term_os (\<lambda>fd ip lp w. None) 2222 False False 100 (term0 ''ab'' [(0, ''tty'')])"
  have "map_option fst ?s = Some (Ret ())" "map_option (\<lambda>x. t_in (snd x)) ?s = Some []" by code_simp+
  then obtain w1 where w1: "?s = Some (Ret (), w1)" "t_in w1 = []" by auto
  from server_no_leak [OF term_table.fd_kernel_axioms w1(1)] w1 show ?thesis by (auto simp: t_table_def term0_def)
qed

section \<open>A failed pipe\<close>

lemma make_pipes_add:
  "make_pipes os k ps w = (Some ps1, w1) \<Longrightarrow> make_pipes os (k + m) ps w = make_pipes os m ps1 w1"
  by (induction k arbitrary: ps w) (auto split: prod.splits sum.splits)

context fd_kernel
begin

lemma pipe_failure:
  assumes "Suc k < length (cmds pl)" "make_pipes os k [] w = (Some ps, w1)" "os_pipe os w1 = (Inl e, w2)"
  shows "execute_pipeline os spawn session pl lpid w = Some (Ret (- 1), out os ''pipe error\<newline>'' w2)" "length ps = k"
    "\<forall>fd\<in>pipe_fds ps. fdt w fd = None \<and> fdt w2 fd \<noteq> None"
proof -
  define m where "m = length (cmds pl) - k - 2"
  have m: "length (cmds pl) - 1 = k + Suc m" using assms(1) by (simp add: m_def)
  have "make_pipes os (length (cmds pl) - 1) [] w = (None, w2)"
    unfolding m make_pipes_add [OF assms(2)] using assms(3) by simp
  then show "execute_pipeline os spawn session pl lpid w = Some (Ret (- 1), out os ''pipe error\<newline>'' w2)"
    using assms(1) by (auto simp: execute_pipeline_def)
  obtain qs where q: "(\<lambda>fd. if fd \<in> pipe_fds qs then None else fdt w1 fd) = fdt w" "\<forall>fd\<in>pipe_fds qs. fdt w1 fd \<noteq> None"
    "ps = qs" "length qs = k" using make_pipes_table [OF assms(2)] by auto
  then show "length ps = k" by simp
  have w: "fdt w fd = (if fd \<in> pipe_fds ps then None else fdt w1 fd)" for fd
    using fun_cong [OF q(1), of fd] q(3) by simp
  have "fdt w2 = fdt w1" using assms(3) by (auto dest: tables)
  then show "\<forall>fd\<in>pipe_fds ps. fdt w fd = None \<and> fdt w2 fd \<noteq> None" using q(2,3) by (simp add: w)
qed

end

text \<open>Property C39.
  A pipeline whose \<^verbatim>\<open>pipe\<close> fails does leak: the pipes made before the failing one are not closed. They were free
  before the line, and after it they are open in the session, which goes on.\<close>

theorem pipe_failure_leaks:
  assumes "fd_kernel os fdt" "Suc k < length (cmds pl)" "make_pipes os k [] w = (Some ps, w1)" "os_pipe os w1 = (Inl e, w2)"
  shows "\<exists>w3. execute_pipeline os spawn session pl lpid w = Some (Ret (- 1), w3) \<and> length ps = k
    \<and> (\<forall>fd\<in>pipe_fds ps. fdt w fd = None \<and> fdt w3 fd \<noteq> None)"
  using fd_kernel.pipe_failure [OF assms] fd_kernel.out_table [OF assms(1), of "''pipe error\<newline>''" w2] by auto

text \<open>The terminal with a descriptor table in which a pipe finds room only beside at most two descriptors.\<close>

definition full_os :: "tsim os" where
  "full_os = term_os\<lparr>os_pipe := (\<lambda>w. if 2 < length (t_fds w) then (Inl 24, w) else os_pipe term_os w)\<rparr>"

lemma full_table: "fd_kernel full_os t_table"
  using term_table.fd_kernel_axioms
  by (simp add: full_os_def fd_kernel_def)

theorem pipe_failure_leaks_witness:
  "\<exists>w3. execute_pipeline full_os (\<lambda>d av w. None) (\<lambda>fd ip lp w. None)
      \<lparr>cmds = replicate 3 \<lparr>argv = [''cat''], argc = 1, is_builtin = True\<rparr>, redir_file = None, append_mode = False\<rparr> 77
      (term0 [] [(0, ''client'')]) = Some (Ret (- 1), w3)
    \<and> t_table (term0 [] [(0, ''client'')]) 3 = None \<and> t_table w3 3 \<noteq> None"
proof -
  let ?w = "term0 [] [(0, ''client'')]" and ?w1 = "term0 [] [(6, ''pipe''), (3, ''pipe''), (0, ''client'')]"
  have m: "make_pipes full_os 1 [] ?w = (Some [(3, 6)], ?w1)"
    by (simp add: full_os_def term_os_def t_add_def term0_def fresh_fd_def)
  have p: "os_pipe full_os ?w1 = (Inl 24, ?w1)" by (simp add: full_os_def term0_def)
  show ?thesis
    using pipe_failure_leaks [OF full_table _ m p, of "\<lparr>cmds = replicate 3 \<lparr>argv = [''cat''], argc = 1, is_builtin = True\<rparr>,
        redir_file = None, append_mode = False\<rparr>" "\<lambda>d av w. None" "\<lambda>fd ip lp w. None" 77]
    by (auto simp: pipe_fds_def)
qed

end
