(* ===== verification/Proc_Exec.thy ===== *)
theory Proc_Exec
  imports Os
begin

text \<open>
  The spawning of external programs of \<^verbatim>\<open>src/proc_exec.c\<close>, which no other file calls. The kernel's
  answer to \<^verbatim>\<open>access(path, R_OK | X_OK)\<close> and its \<^verbatim>\<open>execve\<close> (which comes back only on failure) are
  the arguments \<open>access_rx\<close> and \<open>execve\<close>.
\<close>

section \<open>The code\<close>

definition SEARCH_PATHS :: "string list" where
  "SEARCH_PATHS = [''/data/bin'', ''/usb0/bin'', ''/user/home'']"

text \<open>The loop over the directories: the path that is left in the buffer on success.\<close>

fun find_prog_loop :: "(string \<Rightarrow> 'w \<Rightarrow> bool \<times> 'w) \<Rightarrow> string \<Rightarrow> nat \<Rightarrow> string list \<Rightarrow> 'w \<Rightarrow> string option \<times> 'w" where
  "find_prog_loop access_rx name outsz [] w = (None, w)"
| "find_prog_loop access_rx name outsz (p # ps) w =
     (let path = snprintf_buf outsz (p @ ''/'' @ name) in
      case access_rx path w of
        (True, w1) \<Rightarrow> (Some path, w1)
      | (False, w1) \<Rightarrow> find_prog_loop access_rx name outsz ps w1)"

definition find_prog :: "(string \<Rightarrow> 'w \<Rightarrow> bool \<times> 'w) \<Rightarrow> string \<Rightarrow> nat \<Rightarrow> 'w \<Rightarrow> string option \<times> 'w" where
  "find_prog access_rx name outsz w = find_prog_loop access_rx name outsz SEARCH_PATHS w"

text \<open>The child: its name, its descriptors, and the program.\<close>

definition spawn_child ::
    "'w os \<Rightarrow> (string \<Rightarrow> string list \<Rightarrow> string list \<Rightarrow> 'w \<Rightarrow> bool \<times> 'w) \<Rightarrow> int \<Rightarrow> int \<Rightarrow> int \<Rightarrow> string \<Rightarrow> string list \<Rightarrow> 'w
     \<Rightarrow> int outcome \<times> 'w" where
  "spawn_child os execve in_fd out_fd err_fd path av w =
     (let w1 = snd (os_set_name os (hd av) w);
          w2 = os_dup2 os in_fd 0 w1;
          w3 = os_dup2 os out_fd 1 w2;
          w4 = os_dup2 os err_fd 2 w3
      in case execve path av [''TERM=dumb''] w4 of
           (True, w5) \<Rightarrow> (Execed, w5)
         | (False, w5) \<Rightarrow> (Exit 127, os_klog_perror os ''execve'' w5))"

definition spawn_shell_like ::
    "'w os \<Rightarrow> (string \<Rightarrow> 'w \<Rightarrow> bool \<times> 'w) \<Rightarrow> (string \<Rightarrow> string list \<Rightarrow> string list \<Rightarrow> 'w \<Rightarrow> bool \<times> 'w)
     \<Rightarrow> int \<Rightarrow> int \<Rightarrow> int \<Rightarrow> string list \<Rightarrow> 'w \<Rightarrow> int outcome \<times> 'w" where
  "spawn_shell_like os access_rx execve in_fd out_fd err_fd av w =
     (case find_prog access_rx (hd av) 512 w of
        (None, w1) \<Rightarrow> (Ret (- 1), os_klog os (''prog not found: '' @ hd av @ ''\<newline>'') w1)
      | (Some path, w1) \<Rightarrow>
          (case os_fork os w1 of
             (Inl e, w2) \<Rightarrow> (Ret (- 1), os_klog_perror os ''fork'' w2)
           | (Inr pid, w2) \<Rightarrow>
               if pid = 0 then spawn_child os execve in_fd out_fd err_fd path av w2 else (Ret pid, w2)))"

section \<open>The search\<close>

text \<open>When asking does not change what is accessible, the search finds the first accessible path in order.\<close>

lemma find_prog_loop_first:
  assumes "\<And>p v. acc (snd (access_rx p v)) = acc v" "\<And>p v. fst (access_rx p v) = (p \<in> acc v)"
  shows "fst (find_prog_loop access_rx name n ps w) = find (\<lambda>q. q \<in> acc w) (map (\<lambda>p. snprintf_buf n (p @ ''/'' @ name)) ps)"
proof (induction ps arbitrary: w)
  case (Cons p ps)
  obtain ok w1 where a: "access_rx (snprintf_buf n (p @ ''/'' @ name)) w = (ok, w1)" by fastforce
  then have "ok = (snprintf_buf n (p @ ''/'' @ name) \<in> acc w)" "acc w1 = acc w"
    using assms [of "snprintf_buf n (p @ ''/'' @ name)" w] by simp_all
  then show ?case using Cons.IH [of w1] a by (cases ok) (auto simp: Let_def)
qed simp

theorem find_prog_first:
  assumes "\<And>p v. acc (snd (access_rx p v)) = acc v" "\<And>p v. fst (access_rx p v) = (p \<in> acc v)" "length name \<le> 500"
  shows "fst (find_prog access_rx name 512 w) =
    find (\<lambda>q. q \<in> acc w) [''/data/bin/'' @ name, ''/usb0/bin/'' @ name, ''/user/home/'' @ name]"
  using find_prog_loop_first [OF assms(1,2), of name 512 SEARCH_PATHS w] assms(3)
  by (simp add: find_prog_def SEARCH_PATHS_def snprintf_buf_fits)

text \<open>A name too long for the buffer is searched for under a truncated path.\<close>

theorem find_prog_truncates:
  assumes "\<And>p v. access_rx p v = (p = take 511 (''/data/bin/'' @ name), v)"
  shows "find_prog access_rx name 512 w = (Some (take 511 (''/data/bin/'' @ name)), w)"
  by (simp add: find_prog_def SEARCH_PATHS_def snprintf_buf_def assms)

end
