(* ===== verification/Copy_Tree.thy ===== *)
theory Copy_Tree
  imports Files
begin

text \<open>
  \<^verbatim>\<open>cp -r\<close> of \<^verbatim>\<open>src/builtins.c\<close> on a file system with contents: the recursion of \<open>recurse_cp\<close> over a tree computes
  the file system \<open>graft\<close>, in which the tree has been merged into the destination.
\<close>

section \<open>File systems with contents\<close>

datatype node = Folder | File string

type_synonym tree = "string \<Rightarrow> node option"

text \<open>The path that corresponds to \<open>q\<close>, at or under \<open>dst\<close>, in the tree at \<open>src\<close>.\<close>

definition counterpart :: "string \<Rightarrow> string \<Rightarrow> string \<Rightarrow> string" where
  "counterpart src dst q = src @ drop (length dst) q"

text \<open>The tree at \<open>src\<close> merged into \<open>dst\<close>: what it has replaces what is there, everything else stays.\<close>

definition graft :: "string \<Rightarrow> string \<Rightarrow> tree \<Rightarrow> tree" where
  "graft src dst F = (\<lambda>q. if at_below dst q \<and> F (counterpart src dst q) \<noteq> None then F (counterpart src dst q) else F q)"

text \<open>A path whose directory exists.\<close>

definition has_parent :: "tree \<Rightarrow> string \<Rightarrow> bool" where
  "has_parent F p \<longleftrightarrow> (\<exists>d n. p = d @ ''/'' @ n \<and> entry_name n \<and> F d = Some Folder)"

text \<open>A path at which a file can be written: an existing file, or a new one in an existing directory.\<close>

definition takes_file :: "tree \<Rightarrow> string \<Rightarrow> bool" where
  "takes_file F p \<longleftrightarrow> (if F p = None then has_parent F p else F p \<noteq> Some Folder)"

section \<open>Trees to copy\<close>

definition source_tree :: "tree \<Rightarrow> string \<Rightarrow> bool" where
  "source_tree F src \<longleftrightarrow> finite {q. F q \<noteq> None \<and> at_below src q}
     \<and> (\<forall>p c q. at_below src p \<longrightarrow> F p = Some (File c) \<longrightarrow> below p q \<longrightarrow> F q = None)
     \<and> (\<forall>p q. at_below src p \<longrightarrow> F p = Some Folder \<longrightarrow> below p q \<longrightarrow> F q \<noteq> None \<longrightarrow>
          (\<exists>n. entry_name n \<and> F (p @ ''/'' @ n) \<noteq> None \<and> at_below (p @ ''/'' @ n) q))"

text \<open>
  A source that can be merged into a destination: neither is inside the other, a file does not meet a folder, the
  directory of the destination exists, and all paths that are made fit into the buffers.
\<close>

definition copyable :: "tree \<Rightarrow> string \<Rightarrow> string \<Rightarrow> bool" where
  "copyable F src dst \<longleftrightarrow> source_tree F src \<and> F src \<noteq> None \<and> (F dst \<noteq> None \<or> has_parent F dst)
     \<and> \<not> at_below src dst \<and> \<not> at_below dst src
     \<and> (\<forall>q. at_below dst q \<longrightarrow> F (counterpart src dst q) \<noteq> None \<longrightarrow> F q \<noteq> None \<longrightarrow>
          (F (counterpart src dst q) = Some Folder \<longleftrightarrow> F q = Some Folder))
     \<and> (\<forall>q. at_below dst q \<longrightarrow> F (counterpart src dst q) \<noteq> None \<longrightarrow> length q < 1024 \<and> length (counterpart src dst q) < 1024)"

lemma at_below_prefix: "at_below p q \<longleftrightarrow> prefix (p @ ''/'') (q @ ''/'')"
  by (auto simp: at_below_def below_def)

lemma at_below_linear: "at_below a q \<Longrightarrow> at_below b q \<Longrightarrow> at_below a b \<or> at_below b a"
  unfolding at_below_prefix by (rule prefix_same_cases)

lemma at_below_slash: "at_below p (p @ ''/'' @ n)"
  by (simp add: at_below_def below_def)

lemma at_below_parent: "at_below p (d @ ''/'' @ n) \<Longrightarrow> CHR ''/'' \<notin> set n \<Longrightarrow> p = d @ ''/'' @ n \<or> at_below p d"
proof -
  assume "at_below p (d @ ''/'' @ n)" and n: "CHR ''/'' \<notin> set n"
  then consider "p = d @ ''/'' @ n" | "prefix (p @ ''/'') ((d @ ''/'') @ n)" by (auto simp: at_below_def below_def)
  then show ?thesis
  proof cases
    case 2
    then have "prefix (p @ ''/'') (d @ ''/'') \<or> (\<exists>k. p @ ''/'' = (d @ ''/'') @ k \<and> prefix k n)" by (simp only: prefix_append)
    moreover have "k = []" if "p @ ''/'' = (d @ ''/'') @ k" "prefix k n" for k
      using that n by (cases k rule: rev_cases) (auto simp: prefix_def)
    ultimately show ?thesis by (auto simp: at_below_prefix)
  qed simp
qed

lemma counterpart_below: "at_below dst q \<Longrightarrow> at_below src (counterpart src dst q)"
  by (auto simp: at_below_def below_def counterpart_def prefix_def)

lemma counterpart_child: "at_below (dst @ ''/'' @ n) q \<Longrightarrow> counterpart (src @ ''/'' @ n) (dst @ ''/'' @ n) q = counterpart src dst q"
  by (auto simp: at_below_def below_def counterpart_def prefix_def)

lemmas counterpart_simps = counterpart_child counterpart_child [simplified]

lemma counterpart_at_child: "at_below dst q \<Longrightarrow> at_below (src @ ''/'' @ n) (counterpart src dst q) \<longleftrightarrow> at_below (dst @ ''/'' @ n) q"
  by (auto simp: at_below_def below_def counterpart_def prefix_def)

lemma copyable_disjoint: "copyable F src dst \<Longrightarrow> at_below src q \<Longrightarrow> \<not> at_below dst q"
  using at_below_linear unfolding copyable_def by blast

text \<open>An entry of the source, in a state that differs only in other entries of the destination.\<close>

lemma copyable_child:
  assumes c: "copyable F src dst" and n: "entry_name n" "F (src @ ''/'' @ n) \<noteq> None"
    and S: "\<And>q. at_below src q \<Longrightarrow> G q = F q" and D: "\<And>q. at_below (dst @ ''/'' @ n) q \<Longrightarrow> G q = F q" and dst: "G dst = Some Folder"
  shows "copyable G (src @ ''/'' @ n) (dst @ ''/'' @ n)"
proof -
  have sub: "at_below p q" if "at_below (p @ ''/'' @ n) q" for p q using at_below_trans [OF at_below_slash that] .
  have slash: "CHR ''/'' \<notin> set n" using n(1) by (simp add: entry_name_def)
  have st: "source_tree F src" using c by (simp add: copyable_def)
  have "source_tree G (src @ ''/'' @ n)" unfolding source_tree_def
  proof (intro conjI allI impI)
    show "finite {q. G q \<noteq> None \<and> at_below (src @ ''/'' @ n) q}"
      by (rule finite_subset [of _ "{q. F q \<noteq> None \<and> at_below src q}"]) (use st S sub in \<open>auto simp: source_tree_def\<close>)
  next
    fix p c q assume a: "at_below (src @ ''/'' @ n) p" "G p = Some (File c)" "below p q"
    then have "at_below src q" using sub at_below_trans [of src p q] by (simp add: at_below_def)
    then show "G q = None" using a st S sub unfolding source_tree_def by metis
  next
    fix p q assume a: "at_below (src @ ''/'' @ n) p" "G p = Some Folder" "below p q" "G q \<noteq> None"
    have p: "at_below src p" using a(1) by (rule sub)
    then have "at_below src q" using a(3) at_below_trans [of src p q] by (simp add: at_below_def)
    with a p st S obtain m where m: "entry_name m" "F (p @ ''/'' @ m) \<noteq> None" "at_below (p @ ''/'' @ m) q"
      unfolding source_tree_def by metis
    moreover have "at_below src (p @ ''/'' @ m)" using p at_below_slash at_below_trans by blast
    ultimately show "\<exists>n. entry_name n \<and> G (p @ ''/'' @ n) \<noteq> None \<and> at_below (p @ ''/'' @ n) q" using S by metis
  qed
  moreover have "G (src @ ''/'' @ n) \<noteq> None" using n(2) S [OF at_below_slash] by simp
  moreover have "has_parent G (dst @ ''/'' @ n)" using dst n(1) unfolding has_parent_def by blast
  moreover have "\<not> at_below (a @ ''/'' @ n) (b @ ''/'' @ n)" if "\<not> at_below a b" "\<not> at_below b a" for a b
    using that at_below_parent [OF sub slash, of a b] at_below_slash [of b n] by auto
  then have "\<not> at_below (src @ ''/'' @ n) (dst @ ''/'' @ n)" "\<not> at_below (dst @ ''/'' @ n) (src @ ''/'' @ n)"
    using c unfolding copyable_def by blast+
  moreover have "G (counterpart (src @ ''/'' @ n) (dst @ ''/'' @ n) q) = F (counterpart src dst q)" "G q = F q" "at_below dst q"
    "length (counterpart (src @ ''/'' @ n) (dst @ ''/'' @ n) q) = length (counterpart src dst q)" if "at_below (dst @ ''/'' @ n) q" for q
    using that D S sub [OF that] counterpart_below [of dst q src] by (simp_all add: counterpart_simps)
  ultimately show ?thesis using c unfolding copyable_def by simp
qed

text \<open>
  What is documented of the calls of \<^verbatim>\<open>cp -r\<close>, on the file system \<open>fs\<close> and the table \<open>oft\<close> of open files (path and
  position).
\<close>

locale cp_kernel =
  fixes os :: "'w os" and fs :: "'w \<Rightarrow> tree" and oft :: "'w \<Rightarrow> int \<Rightarrow> (string \<times> nat) option"
  assumes lstat: "fs w p = Some t \<Longrightarrow>
      \<exists>st w1. os_lstat os p w = (Inr st, w1) \<and> (st_type st = Dir \<longleftrightarrow> t = Folder) \<and> fs w1 = fs w \<and> oft w1 = oft w"
    and readdir: "fs w p = Some Folder \<Longrightarrow>
      \<exists>ns w1. os_readdir os p w = (Inr ns, w1) \<and> fs w1 = fs w \<and> oft w1 = oft w \<and> distinct ns
         \<and> (\<forall>n. \<not> dot_entry n \<longrightarrow> (n \<in> set ns \<longleftrightarrow> entry_name n \<and> fs w (p @ ''/'' @ n) \<noteq> None))"
    and mkdir: "fs w p \<noteq> None \<or> has_parent (fs w) p \<Longrightarrow> fs (snd (os_mkdir os p w)) = (if fs w p = None then (fs w)(p \<mapsto> Folder) else fs w)"
      "oft (snd (os_mkdir os p w)) = oft w"
    and open_read: "fs w p = Some (File c) \<Longrightarrow>
      \<exists>fd w1. os_open os p [O_RDONLY] w = (Inr fd, w1) \<and> oft w fd = None \<and> fs w1 = fs w \<and> oft w1 = (oft w)(fd \<mapsto> (p, 0))"
    and open_write: "takes_file (fs w) p \<Longrightarrow>
      \<exists>fd w1. os_open os p [O_WRONLY, O_CREAT, O_TRUNC] w = (Inr fd, w1) \<and> oft w fd = None
         \<and> fs w1 = (fs w)(p \<mapsto> File []) \<and> oft w1 = (oft w)(fd \<mapsto> (p, 0))"
    and file_read: "0 < n \<Longrightarrow> oft w fd = Some (p, k) \<Longrightarrow> fs w p = Some (File c) \<Longrightarrow>
      \<exists>m w1. os_read os fd n w = (Inr (take m (drop k c)), w1) \<and> (k < length c \<longrightarrow> 0 < m) \<and> m \<le> n \<and> fs w1 = fs w
         \<and> oft w1 = (oft w)(fd \<mapsto> (p, k + length (take m (drop k c))))"
    and file_write: "oft w fd = Some (p, length c) \<Longrightarrow> fs w p = Some (File c) \<Longrightarrow>
      \<exists>w1. os_write os fd s w = (Inr (length s), w1) \<and> fs w1 = (fs w)(p \<mapsto> File (c @ s))
         \<and> oft w1 = (oft w)(fd \<mapsto> (p, length (c @ s)))"
    and file_close: "fs (os_close os fd w) = fs w" "oft (os_close os fd w) = (oft w)(fd := None)"
begin

text \<open>One file.\<close>

lemma copy_loop_file:
  assumes "src \<noteq> dst" "ifd \<noteq> ofd"
  shows "oft w ifd = Some (src, k) \<Longrightarrow> fs w src = Some (File c) \<Longrightarrow> k \<le> length c \<Longrightarrow>
    oft w ofd = Some (dst, k) \<Longrightarrow> fs w dst = Some (File (take k c)) \<Longrightarrow>
    \<exists>w1. copy_loop os ifd ofd w = Some (Inr (), w1) \<and> fs w1 = (fs w)(dst \<mapsto> File c) \<and> oft w1 = (oft w)(ifd := None, ofd := None)"
proof (induction "length c - k" arbitrary: k w rule: less_induct)
  case less
  obtain m w1 where r: "os_read os ifd 8192 w = (Inr (take m (drop k c)), w1)" "k < length c \<Longrightarrow> 0 < m" "fs w1 = fs w"
    "oft w1 = (oft w)(ifd \<mapsto> (src, k + length (take m (drop k c))))"
    using file_read [of 8192 w ifd src k c] less.prems by auto
  show ?case
  proof (cases "k = length c")
    case True
    then have "(fs w)(dst \<mapsto> File c) = fs w" using less.prems by (simp add: fun_upd_idem)
    then show ?thesis using True r file_close assms(2) by (subst copy_loop.simps) simp
  next
    case False
    let ?b = "take m (drop k c)"
    have k: "k < length c" using False less.prems(3) by simp
    with r(2) have b: "?b \<noteq> []" by simp
    obtain w2 where w2: "os_write os ofd ?b w1 = (Inr (length ?b), w2)" "fs w2 = (fs w1)(dst \<mapsto> File (take k c @ ?b))"
      "oft w2 = (oft w1)(ofd \<mapsto> (dst, length (take k c @ ?b)))"
      using file_write [of w1 ofd dst "take k c" ?b] less.prems r(3,4) assms(2) by auto
    let ?k = "k + length ?b"
    have t: "take k c @ ?b = take ?k c" by (simp add: take_add min_def)
    have "\<exists>w3. copy_loop os ifd ofd w2 = Some (Inr (), w3) \<and> fs w3 = (fs w2)(dst \<mapsto> File c) \<and> oft w3 = (oft w2)(ifd := None, ofd := None)"
    proof (rule less.hyps [of ?k])
      show "length c - ?k < length c - k" using b k r(2) by (cases "m \<le> length c - k") (simp_all add: min_def, linarith)
    qed (use w2 r less.prems assms t in \<open>auto simp: min_def\<close>)
    then show ?thesis using b r w2 assms(2) by (subst copy_loop.simps) (auto simp: fun_upd_twist)
  qed
qed

lemma copy_file_file:
  assumes "src \<noteq> dst" "fs w src = Some (File c)" "takes_file (fs w) dst"
  shows "\<exists>w1. copy_file os src dst w = Some (Inr (), w1) \<and> fs w1 = (fs w)(dst \<mapsto> File c) \<and> oft w1 = oft w"
proof -
  obtain ifd w1 where i: "os_open os src [O_RDONLY] w = (Inr ifd, w1)" "oft w ifd = None" "fs w1 = fs w" "oft w1 = (oft w)(ifd \<mapsto> (src, 0))"
    using open_read [OF assms(2)] by blast
  obtain ofd w2 where o: "os_open os dst [O_WRONLY, O_CREAT, O_TRUNC] w1 = (Inr ofd, w2)" "oft w1 ofd = None"
    "fs w2 = (fs w1)(dst \<mapsto> File [])" "oft w2 = (oft w1)(ofd \<mapsto> (dst, 0))"
    using open_write [of w1 dst] assms(3) i(3) by auto
  have ne: "ifd \<noteq> ofd" using i(4) o(2) by auto
  obtain w3 where w3: "copy_loop os ifd ofd w2 = Some (Inr (), w3)" "fs w3 = (fs w2)(dst \<mapsto> File c)"
    "oft w3 = (oft w2)(ifd := None, ofd := None)"
    using copy_loop_file [OF assms(1) ne, of w2 0 c] i o ne assms(1,2) by auto
  have "oft w3 = oft w" using w3(3) i(2,4) o(2,4) ne by (auto simp: fun_eq_iff)
  then show ?thesis using i(1,3) o(1,3) w3 by (auto simp: copy_file_def)
qed

text \<open>A file copied onto itself: the second \<^verbatim>\<open>open\<close> truncates it before anything is read.\<close>

lemma copy_file_itself:
  assumes "fs w p = Some (File c)"
  shows "\<exists>w1. copy_file os p p w = Some (Inr (), w1) \<and> fs w1 = (fs w)(p \<mapsto> File []) \<and> oft w1 = oft w"
proof -
  obtain ifd w1 where i: "os_open os p [O_RDONLY] w = (Inr ifd, w1)" "oft w ifd = None" "fs w1 = fs w" "oft w1 = (oft w)(ifd \<mapsto> (p, 0))"
    using open_read [OF assms] by blast
  have "takes_file (fs w1) p" using assms i(3) by (simp add: takes_file_def)
  then obtain ofd w2 where o: "os_open os p [O_WRONLY, O_CREAT, O_TRUNC] w1 = (Inr ofd, w2)" "oft w1 ofd = None"
    "fs w2 = (fs w1)(p \<mapsto> File [])" "oft w2 = (oft w1)(ofd \<mapsto> (p, 0))" using open_write by blast
  have ne: "ifd \<noteq> ofd" using i(4) o(2) by auto
  obtain m w3 where r: "os_read os ifd 8192 w2 = (Inr (take m (drop 0 [])), w3)" "fs w3 = fs w2"
    "oft w3 = (oft w2)(ifd \<mapsto> (p, 0 + length (take m (drop 0 []))))"
    using file_read [of 8192 w2 ifd p 0 "[]"] i(4) o(3,4) ne by auto
  have "copy_loop os ifd ofd w2 = Some (Inr (), os_close os ofd (os_close os ifd w3))" using r(1) by (subst copy_loop.simps) simp
  moreover have "oft (os_close os ofd (os_close os ifd w3)) = oft w"
    using i(2,4) o(2,4) r(3) ne by (auto simp: file_close fun_eq_iff)
  ultimately show ?thesis using i(1,3) o(1,3) r(2) by (simp add: copy_file_def file_close)
qed

text \<open>The entries of a folder.\<close>

lemma while_ok_graft:
  assumes c: "copyable F src dst"
    and body: "\<And>n v. n \<in> set ns \<Longrightarrow> copyable (fs v) (src @ ''/'' @ n) (dst @ ''/'' @ n) \<Longrightarrow> \<forall>q. at_below src q \<longrightarrow> fs v q = F q \<Longrightarrow>
      \<exists>v1. f n v = Some (Inr (), v1) \<and> fs v1 = graft (src @ ''/'' @ n) (dst @ ''/'' @ n) (fs v) \<and> oft v1 = oft v"
  shows "distinct ns \<Longrightarrow> \<forall>n\<in>set ns. entry_name n \<and> F (src @ ''/'' @ n) \<noteq> None \<Longrightarrow>
    \<forall>q. at_below src q \<longrightarrow> fs v q = F q \<Longrightarrow> \<forall>n\<in>set ns. \<forall>q. at_below (dst @ ''/'' @ n) q \<longrightarrow> fs v q = F q \<Longrightarrow> fs v dst = Some Folder \<Longrightarrow>
    \<exists>v1. while_ok f ns v = Some (Inr (), v1) \<and> oft v1 = oft v \<and>
      (\<forall>q. fs v1 q = (if (\<exists>n\<in>set ns. at_below (dst @ ''/'' @ n) q) \<and> F (counterpart src dst q) \<noteq> None
                     then F (counterpart src dst q) else fs v q))"
  using body
proof (induction ns arbitrary: v)
  case (Cons n ns)
  let ?D = "dst @ ''/'' @ n"
  have sub: "at_below dst q" if "at_below (dst @ ''/'' @ m) q" for m q using at_below_trans [OF at_below_slash that] .
  have "copyable (fs v) (src @ ''/'' @ n) ?D"
    using Cons.prems by (intro copyable_child [OF c]) auto
  then obtain v1 where v1: "f n v = Some (Inr (), v1)" "fs v1 = graft (src @ ''/'' @ n) ?D (fs v)" "oft v1 = oft v"
    using Cons.prems(6) [of n v] Cons.prems(3) by auto
  have f1: "fs v1 q = (if at_below ?D q \<and> F (counterpart src dst q) \<noteq> None then F (counterpart src dst q) else fs v q)" for q
    using Cons.prems(3) counterpart_below [OF sub, of n q src] unfolding v1(2) graft_def by (auto simp: counterpart_simps)
  have "\<exists>v2. while_ok f ns v1 = Some (Inr (), v2) \<and> oft v2 = oft v1 \<and>
      (\<forall>q. fs v2 q = (if (\<exists>n\<in>set ns. at_below (dst @ ''/'' @ n) q) \<and> F (counterpart src dst q) \<noteq> None
                     then F (counterpart src dst q) else fs v1 q))"
  proof (rule Cons.IH)
    show "\<forall>q. at_below src q \<longrightarrow> fs v1 q = F q" using f1 Cons.prems(3) copyable_disjoint [OF c] sub by metis
    show "\<forall>m\<in>set ns. \<forall>q. at_below (dst @ ''/'' @ m) q \<longrightarrow> fs v1 q = F q"
    proof (intro ballI allI impI)
      fix m q assume m: "m \<in> set ns" "at_below (dst @ ''/'' @ m) q"
      have "\<not> at_below ?D q" using child_disjoint [OF _ _ _ m(2), of n] Cons.prems(1,2) m(1) by auto
      then show "fs v1 q = F q" using f1 [of q] Cons.prems(4) m by auto
    qed
    have "\<not> at_below ?D dst" using below_child [of dst n dst] by auto
    then show "fs v1 dst = Some Folder" using f1 [of dst] Cons.prems(5) by simp
  qed (use Cons.prems in auto)
  then obtain v2 where v2: "while_ok f ns v1 = Some (Inr (), v2)" "oft v2 = oft v1"
    "\<And>q. fs v2 q = (if (\<exists>n\<in>set ns. at_below (dst @ ''/'' @ n) q) \<and> F (counterpart src dst q) \<noteq> None
                     then F (counterpart src dst q) else fs v1 q)" by blast
  have "fs v2 q = (if (\<exists>m\<in>set (n # ns). at_below (dst @ ''/'' @ m) q) \<and> F (counterpart src dst q) \<noteq> None
                     then F (counterpart src dst q) else fs v q)" for q
    using v2(3) [of q] f1 [of q] by auto
  then show ?case using v1(1,3) v2(1,2) by auto
qed simp

lemma recurse_cp_file:
  assumes "copyable (fs w) src dst" "fs w src = Some (File c)"
  shows "\<exists>w1. recurse_cp os src dst w = Some (Inr (), w1) \<and> fs w1 = graft src dst (fs w) \<and> oft w1 = oft w"
proof -
  have ne: "src \<noteq> dst" using assms(1) by (auto simp: copyable_def)
  obtain st w1 where l: "os_lstat os src w = (Inr st, w1)" "st_type st \<noteq> Dir" "fs w1 = fs w" "oft w1 = oft w"
    using lstat [OF assms(2)] by auto
  have cd: "counterpart src dst dst = src" by (simp add: counterpart_def)
  have "takes_file (fs w) dst"
    using assms unfolding copyable_def takes_file_def by (metis at_below_refl cd node.distinct(1) option.inject option.discI)
  then obtain w2 where w2: "copy_file os src dst w1 = Some (Inr (), w2)" "fs w2 = (fs w)(dst \<mapsto> File c)" "oft w2 = oft w"
    using copy_file_file [OF ne, of w1 c] assms(2) l(3,4) by auto
  have "graft src dst (fs w) = (fs w)(dst \<mapsto> File c)"
  proof (rule ext)
    fix q
    have "fs w (counterpart src dst q) = None" if "at_below dst q" "q \<noteq> dst"
    proof -
      have "below src (counterpart src dst q)" using that by (auto simp: at_below_def below_def counterpart_def prefix_def)
      then show ?thesis using assms at_below_refl unfolding copyable_def source_tree_def by metis
    qed
    then show "graft src dst (fs w) q = ((fs w)(dst \<mapsto> File c)) q" using assms(2) by (auto simp: graft_def cd)
  qed
  with l w2 show ?thesis by (subst recurse_cp.simps) simp
qed

lemma recurse_cp_folder:
  assumes c: "copyable (fs w) src dst" and dir: "fs w src = Some Folder"
    and IH: "\<And>n v. entry_name n \<Longrightarrow> fs w (src @ ''/'' @ n) \<noteq> None \<Longrightarrow> copyable (fs v) (src @ ''/'' @ n) (dst @ ''/'' @ n) \<Longrightarrow>
      \<forall>q. at_below src q \<longrightarrow> fs v q = fs w q \<Longrightarrow>
      \<exists>v1. recurse_cp os (src @ ''/'' @ n) (dst @ ''/'' @ n) v = Some (Inr (), v1)
         \<and> fs v1 = graft (src @ ''/'' @ n) (dst @ ''/'' @ n) (fs v) \<and> oft v1 = oft v"
  shows "\<exists>w1. recurse_cp os src dst w = Some (Inr (), w1) \<and> fs w1 = graft src dst (fs w) \<and> oft w1 = oft w"
proof -
  let ?F = "fs w"
  obtain st w1 where l: "os_lstat os src w = (Inr st, w1)" "st_type st = Dir" "fs w1 = ?F" "oft w1 = oft w"
    using lstat [OF dir] by auto
  define w2 where "w2 = snd (os_mkdir os dst w1)"
  have f2: "fs w2 = (if ?F dst = None then ?F(dst \<mapsto> Folder) else ?F)" "oft w2 = oft w"
    using mkdir [where w = w1 and p = dst] c l(3,4) by (auto simp: w2_def copyable_def)
  have cd: "counterpart src dst dst = src" by (simp add: counterpart_def)
  have "?F dst = None \<or> ?F dst = Some Folder" using c dir unfolding copyable_def by (metis at_below_refl cd option.discI)
  then have d2: "fs w2 dst = Some Folder" using f2 by auto
  have nb: "\<not> at_below src dst" using c by (simp add: copyable_def)
  have S: "fs w2 q = ?F q" if "q \<noteq> dst" for q using f2 that by simp
  have src2: "fs w2 q = ?F q" if "at_below src q" for q using S nb that by metis
  then have "fs w2 src = Some Folder" using dir by simp
  then obtain ns w3 where r: "os_readdir os src w2 = (Inr ns, w3)" "fs w3 = fs w2" "oft w3 = oft w2" "distinct ns"
    "\<And>n. \<not> dot_entry n \<Longrightarrow> (n \<in> set ns \<longleftrightarrow> entry_name n \<and> fs w2 (src @ ''/'' @ n) \<noteq> None)" using readdir by meson
  let ?ns = "filter (\<lambda>n. \<not> dot_entry n) ns"
  have entry: "n \<in> set ?ns \<longleftrightarrow> entry_name n \<and> ?F (src @ ''/'' @ n) \<noteq> None" for n
    using r(5) [of n] src2 [OF at_below_slash] by (auto simp: entry_name_def)
  have join: "path_join src n = src @ ''/'' @ n" "path_join dst n = dst @ ''/'' @ n" if "n \<in> set ?ns" for n
  proof -
    have "at_below dst (dst @ ''/'' @ n)" "counterpart src dst (dst @ ''/'' @ n) = src @ ''/'' @ n"
      by (rule at_below_slash) (simp add: counterpart_def)
    then have "length (dst @ ''/'' @ n) < 1024" "length (src @ ''/'' @ n) < 1024"
      using c entry that unfolding copyable_def by metis+
    then show "path_join src n = src @ ''/'' @ n" "path_join dst n = dst @ ''/'' @ n" by (simp_all only: path_join_fits)
  qed
  have "\<exists>v1. while_ok (\<lambda>n v. recurse_cp os (path_join src n) (path_join dst n) v) ?ns w3 = Some (Inr (), v1) \<and> oft v1 = oft w3 \<and>
      (\<forall>q. fs v1 q = (if (\<exists>n\<in>set ?ns. at_below (dst @ ''/'' @ n) q) \<and> ?F (counterpart src dst q) \<noteq> None
                     then ?F (counterpart src dst q) else fs w3 q))"
  proof (rule while_ok_graft [OF c])
    fix n v assume "n \<in> set ?ns" "copyable (fs v) (src @ ''/'' @ n) (dst @ ''/'' @ n)" "\<forall>q. at_below src q \<longrightarrow> fs v q = ?F q"
    then show "\<exists>v1. recurse_cp os (path_join src n) (path_join dst n) v = Some (Inr (), v1)
         \<and> fs v1 = graft (src @ ''/'' @ n) (dst @ ''/'' @ n) (fs v) \<and> oft v1 = oft v"
      unfolding join(1) [OF \<open>n \<in> set ?ns\<close>] join(2) [OF \<open>n \<in> set ?ns\<close>] using IH [of n v] entry [of n] by blast
  next
    show "\<forall>n\<in>set ?ns. \<forall>q. at_below (dst @ ''/'' @ n) q \<longrightarrow> fs w3 q = ?F q"
    proof (intro ballI allI impI)
      fix n q assume "at_below (dst @ ''/'' @ n) q"
      then have "q \<noteq> dst" using below_child [of dst n q] by auto
      then show "fs w3 q = ?F q" using S r(2) by simp
    qed
  qed (use r(2,4) entry src2 d2 in auto)
  then obtain v1 where v1: "while_ok (\<lambda>n v. recurse_cp os (path_join src n) (path_join dst n) v) ?ns w3 = Some (Inr (), v1)" "oft v1 = oft w"
      "\<And>q. fs v1 q = (if (\<exists>n\<in>set ?ns. at_below (dst @ ''/'' @ n) q) \<and> ?F (counterpart src dst q) \<noteq> None
                     then ?F (counterpart src dst q) else fs w2 q)" unfolding r(2,3) f2(2) by blast
  have "fs v1 = graft src dst ?F"
  proof (rule ext)
    fix q
    have no: "\<not> at_below (dst @ ''/'' @ n) q" if "\<not> below dst q" for n using that below_child by blast
    show "fs v1 q = graft src dst ?F q"
    proof (cases "below dst q \<and> ?F (counterpart src dst q) \<noteq> None")
      case True
      then have "below src (counterpart src dst q)" by (auto simp: below_def counterpart_def prefix_def)
      with c dir True obtain n where n: "entry_name n" "?F (src @ ''/'' @ n) \<noteq> None" "at_below (src @ ''/'' @ n) (counterpart src dst q)"
        unfolding copyable_def source_tree_def by (metis at_below_refl)
      then have "at_below (dst @ ''/'' @ n) q" "n \<in> set ?ns"
        using counterpart_at_child [of dst q src n] entry True by (auto simp: at_below_def)
      then have "fs v1 q = ?F (counterpart src dst q)" using v1(3) [of q] True by auto
      then show ?thesis using True by (simp add: graft_def at_below_def)
    next
      case False
      then have "fs v1 q = fs w2 q" using v1(3) [of q] no by auto
      moreover have "fs w2 q = graft src dst ?F q"
      proof (cases "q = dst")
        case True
        then show ?thesis using d2 dir by (simp add: graft_def cd)
      next
        case ne: False
        then show ?thesis using False S by (auto simp: graft_def at_below_def)
      qed
      ultimately show ?thesis by simp
    qed
  qed
  then show ?thesis using l r(1) v1(1,2) by (subst recurse_cp.simps) (simp add: w2_def)
qed

lemma recurse_cp_graft:
  "copyable (fs w) src dst \<Longrightarrow>
    \<exists>w1. recurse_cp os src dst w = Some (Inr (), w1) \<and> fs w1 = graft src dst (fs w) \<and> oft w1 = oft w"
proof (induction "card {q. fs w q \<noteq> None \<and> at_below src q}" arbitrary: src dst w rule: less_induct)
  case less
  obtain t where t: "fs w src = Some t" using less.prems by (auto simp: copyable_def)
  show ?case
  proof (cases t)
    case (File c)
    with recurse_cp_file [OF less.prems] t show ?thesis by simp
  next
    case Folder
    show ?thesis
    proof (rule recurse_cp_folder [OF less.prems])
      fix n v
      assume v: "copyable (fs v) (src @ ''/'' @ n) (dst @ ''/'' @ n)" "\<forall>q. at_below src q \<longrightarrow> fs v q = fs w q"
      show "\<exists>v1. recurse_cp os (src @ ''/'' @ n) (dst @ ''/'' @ n) v = Some (Inr (), v1)
         \<and> fs v1 = graft (src @ ''/'' @ n) (dst @ ''/'' @ n) (fs v) \<and> oft v1 = oft v"
      proof (rule less.hyps [OF _ v(1)])
        have fin: "finite {q. fs w q \<noteq> None \<and> at_below src q}" using less.prems by (simp add: copyable_def source_tree_def)
        have sub: "at_below src q" if "at_below (src @ ''/'' @ n) q" for q using at_below_trans [OF at_below_slash that] .
        show "card {q. fs v q \<noteq> None \<and> at_below (src @ ''/'' @ n) q} < card {q. fs w q \<noteq> None \<and> at_below src q}"
        proof (rule psubset_card_mono [OF fin], rule psubsetI)
          show "{q. fs v q \<noteq> None \<and> at_below (src @ ''/'' @ n) q} \<subseteq> {q. fs w q \<noteq> None \<and> at_below src q}" using v(2) sub by auto
          have "\<not> at_below (src @ ''/'' @ n) src" using below_child [of src n src] by auto
          then show "{q. fs v q \<noteq> None \<and> at_below (src @ ''/'' @ n) q} \<noteq> {q. fs w q \<noteq> None \<and> at_below src q}"
            using t by auto
        qed
      qed
    qed (use t Folder in simp)
  qed
qed

end

section \<open>A disk\<close>

text \<open>A kernel whose state is a list of paths with what is there, and the table of open files.\<close>

type_synonym disk = "(string \<times> node) list \<times> (int \<times> string \<times> nat) list"

definition disk_tree :: "disk \<Rightarrow> tree" where "disk_tree d = map_of (fst d)"

definition disk_open :: "disk \<Rightarrow> int \<Rightarrow> (string \<times> nat) option" where "disk_open d = map_of (snd d)"

definition disk_stat :: "node \<Rightarrow> stat" where
  "disk_stat t = stat_of (case t of Folder \<Rightarrow> Dir | File c \<Rightarrow> Reg)"

definition disk_names :: "string \<Rightarrow> disk \<Rightarrow> string list" where
  "disk_names p d = names_in p (map (\<lambda>x. (fst x, Reg)) (fst d))"

definition disk_os :: "disk os" where
  "disk_os = null_os\<lparr>
     os_lstat := (\<lambda>p d. (case disk_tree d p of None \<Rightarrow> Inl 2 | Some t \<Rightarrow> Inr (disk_stat t), d)),
     os_readdir := (\<lambda>p d. (if disk_tree d p = Some Folder then Inr (''.'' # ''..'' # disk_names p d) else Inl ENOTDIR, d)),
     os_mkdir := (\<lambda>p d. if disk_tree d p = None then (None, ((p, Folder) # fst d, snd d)) else (Some EEXIST, d)),
     os_open := (\<lambda>p fl d.
        let fd = fresh_fd (snd d) in
        if O_TRUNC \<in> set fl then
          (if disk_tree d p = Some Folder then (Inl 21, d) else (Inr fd, ((p, File []) # fst d, (fd, p, 0) # snd d)))
        else (if disk_tree d p = None then (Inl 2, d) else (Inr fd, (fst d, (fd, p, 0) # snd d)))),
     os_read := (\<lambda>fd n d. case disk_open d fd of
        Some (p, k) \<Rightarrow> (case disk_tree d p of
            Some (File c) \<Rightarrow> (Inr (take n (drop k c)), (fst d, (fd, p, k + length (take n (drop k c))) # snd d))
          | _ \<Rightarrow> (Inl 21, d))
      | None \<Rightarrow> (Inl 9, d)),
     os_write := (\<lambda>fd s d. case disk_open d fd of
        Some (p, k) \<Rightarrow> (case disk_tree d p of
            Some (File c) \<Rightarrow> (Inr (length s), ((p, File (take k c @ s)) # fst d, (fd, p, k + length s) # snd d))
          | _ \<Rightarrow> (Inl 21, d))
      | None \<Rightarrow> (Inl 9, d)),
     os_close := (\<lambda>fd d. (fst d, filter (\<lambda>x. fst x \<noteq> fd) (snd d)))\<rparr>"

lemma disk_names_set: "n \<in> set (disk_names p d) \<longleftrightarrow> entry_name n \<and> disk_tree d (p @ ''/'' @ n) \<noteq> None"
  by (force simp: disk_names_def names_in_set disk_tree_def map_of_eq_None_iff image_iff)

lemma disk_names_distinct: "distinct (''.'' # ''..'' # disk_names p d)"
  using disk_names_set [of "''.''" p d] disk_names_set [of "''..''" p d]
  by (simp add: entry_name_def dot_entry_def) (simp add: disk_names_def names_in_def)

interpretation disk: cp_kernel disk_os disk_tree disk_open
proof
  fix w :: disk and p
  assume d: "disk_tree w p = Some Folder"
  have "os_readdir disk_os p w = (Inr (''.'' # ''..'' # disk_names p w), w)" using d by (simp add: disk_os_def)
  moreover have "\<forall>n. \<not> dot_entry n \<longrightarrow> (n \<in> set (''.'' # ''..'' # disk_names p w) \<longleftrightarrow> entry_name n \<and> disk_tree w (p @ ''/'' @ n) \<noteq> None)"
    using disk_names_set [of _ p w] by (auto simp: dot_entry_def)
  ultimately show "\<exists>ns w1. os_readdir disk_os p w = (Inr ns, w1) \<and> disk_tree w1 = disk_tree w \<and> disk_open w1 = disk_open w \<and> distinct ns
         \<and> (\<forall>n. \<not> dot_entry n \<longrightarrow> (n \<in> set ns \<longleftrightarrow> entry_name n \<and> disk_tree w (p @ ''/'' @ n) \<noteq> None))"
    using disk_names_distinct by blast
next
  fix n fd p k c and w :: disk
  assume "0 < (n :: nat)" "disk_open w fd = Some (p, k)" "disk_tree w p = Some (File c)"
  then show "\<exists>m w1. os_read disk_os fd n w = (Inr (take m (drop k c)), w1) \<and> (k < length c \<longrightarrow> 0 < m) \<and> m \<le> n
         \<and> disk_tree w1 = disk_tree w \<and> disk_open w1 = (disk_open w)(fd \<mapsto> (p, k + length (take m (drop k c))))"
    by (intro exI [of _ n]) (auto simp: disk_os_def disk_tree_def disk_open_def)
qed (auto simp: disk_os_def disk_stat_def stat_of_def disk_tree_def disk_open_def takes_file_def fresh_fd map_of_close Let_def
    split: node.splits option.splits if_splits)

text \<open>A folder with a subfolder, and a destination that has one of its files already.\<close>

definition disk1 :: disk where
  "disk1 = ([(''/s'', Folder), (''/s/a'', File ''new''), (''/s/d'', Folder), (''/s/d/b'', File []),
             (''/t'', Folder), (''/t/a'', File ''old''), (''/t/z'', File ''kept'')], [])"

text \<open>The conditions on a tree, checked on the entries of a disk.\<close>

lemma disk_copyable:
  assumes e: "\<forall>x\<in>set fl. \<forall>y\<in>set fl. at_below src (fst x) \<longrightarrow> below (fst x) (fst y) \<longrightarrow> snd x = Folder \<and>
      (\<exists>z\<in>set fl. below (fst x) (fst z) \<and> entry_name (drop (length (fst x) + 1) (fst z)) \<and> at_below (fst z) (fst y))"
    and m: "\<forall>x\<in>set fl. \<forall>y\<in>set fl. at_below src (fst x) \<longrightarrow> fst y = counterpart dst src (fst x) \<longrightarrow> (snd x = Folder \<longleftrightarrow> snd y = Folder)"
    and l: "\<forall>x\<in>set fl. length (fst x) + length dst < 1024"
    and s: "map_of fl src \<noteq> None" "map_of fl dst \<noteq> None" "\<not> at_below src dst" "\<not> at_below dst src"
  shows "copyable (map_of fl) src dst"
proof -
  have mem: "\<exists>x\<in>set fl. q = fst x \<and> map_of fl q = Some (snd x)" if "map_of fl q \<noteq> None" for q
    using that by (auto dest: map_of_SomeD intro: bexI [rotated])
  have in_dom: "map_of fl (fst z) \<noteq> None" if "z \<in> set fl" for z using that by (auto simp: map_of_eq_None_iff)
  have st: "source_tree (map_of fl) src" unfolding source_tree_def
  proof (intro conjI allI impI)
    show "finite {q. map_of fl q \<noteq> None \<and> at_below src q}"
      by (rule finite_subset [OF _ finite_dom_map_of [of fl]]) auto
  next
    fix p c q assume "at_below src p" "map_of fl p = Some (File c)" "below p q"
    with mem [of p] mem [of q] e show "map_of fl q = None" by (metis node.distinct(1) option.discI option.inject)
  next
    fix p q assume "at_below src p" "map_of fl p = Some Folder" "below p q" "map_of fl q \<noteq> None"
    with mem [of p] mem [of q] e obtain z where "z \<in> set fl" "below p (fst z)" "entry_name (drop (length p + 1) (fst z))"
      "at_below (fst z) q" by (metis option.discI)
    then show "\<exists>n. entry_name n \<and> map_of fl (p @ ''/'' @ n) \<noteq> None \<and> at_below (p @ ''/'' @ n) q"
      using in_dom [of z] by (intro exI [of _ "drop (length p + 1) (fst z)"]) (metis below_name)
  qed
  have "counterpart dst src (counterpart src dst q) = q" "length q \<le> length (counterpart src dst q) + length dst"
    if "at_below dst q" for q using that by (auto simp: counterpart_def at_below_def below_def prefix_def)
  note cc = this
  have "map_of fl (counterpart src dst q) = Some Folder \<longleftrightarrow> map_of fl q = Some Folder"
    if q: "at_below dst q" "map_of fl (counterpart src dst q) \<noteq> None" "map_of fl q \<noteq> None" for q
  proof -
    obtain x y where x: "x \<in> set fl" "counterpart src dst q = fst x" "map_of fl (counterpart src dst q) = Some (snd x)"
      and y: "y \<in> set fl" "q = fst y" "map_of fl q = Some (snd y)" using mem [OF q(2)] mem [OF q(3)] by blast
    have "at_below src (fst x)" "fst y = counterpart dst src (fst x)"
      using counterpart_below [OF q(1), of src] cc(1) [OF q(1)] x(2) y(2) by simp_all
    then show ?thesis using m x(1,3) y(1,3) by auto
  qed
  moreover have "length q < 1024" "length (counterpart src dst q) < 1024"
    if q: "at_below dst q" "map_of fl (counterpart src dst q) \<noteq> None" for q
  proof -
    obtain x where x: "x \<in> set fl" "counterpart src dst q = fst x" using mem [OF q(2)] by blast
    then have "length (counterpart src dst q) + length dst < 1024" using l by auto
    then show "length q < 1024" "length (counterpart src dst q) < 1024" using cc(2) [OF q(1)] by simp_all
  qed
  ultimately show ?thesis unfolding copyable_def using s st by blast
qed

text \<open>\<^verbatim>\<open>cp f f\<close> empties the file and returns 0.\<close>

lemma cp_onto_itself_empties:
  assumes "cp_kernel os fs oft" "fs w p = Some (File c)" "p \<noteq> ''-r''"
  shows "\<exists>w1. cmd_cp os [''cp'', p, p] w = Some (0, w1) \<and> fs w1 = (fs w)(p \<mapsto> File [])"
proof -
  obtain w1 where "copy_file os p p w = Some (Inr (), w1)" "fs w1 = (fs w)(p \<mapsto> File [])"
    using cp_kernel.copy_file_itself [OF assms(1,2)] by blast
  then show ?thesis using assms(3) by (simp add: cmd_cp_def)
qed

lemma cp_onto_itself_empties_disk:
  "\<exists>w1. cmd_cp disk_os [''cp'', ''/s/a'', ''/s/a''] disk1 = Some (0, w1) \<and> disk_tree w1 ''/s/a'' = Some (File [])"
  using cp_onto_itself_empties [OF disk.cp_kernel_axioms, of disk1 "''/s/a''" "''new''"] by (auto simp: disk_tree_def disk1_def)

section \<open>Properties\<close>

text \<open>Property C3.
  \<^verbatim>\<open>cp -r\<close> copies a tree: on a file system that behaves as documented, for a source of files and folders and a
  destination outside of it (new in an existing folder, or there already), \<^verbatim>\<open>cp -r\<close> ends and returns 0, every file and folder of
  the source is then at the corresponding place under the destination with its contents, every other
  file is what it was (so an existing destination is merged into, not replaced), and no file is left open.\<close>

theorem cp_r_copies_tree:
  assumes "cp_kernel os fs oft" "copyable (fs w) src dst" "src \<noteq> ''-r''"
  shows "\<exists>w1. cmd_cp os [''cp'', ''-r'', src, dst] w = Some (0, w1) \<and> oft w1 = oft w
    \<and> (\<forall>q. fs w1 q =
         (let s = src @ drop (length dst) q
          in if (q = dst \<or> prefix (dst @ ''/'') q) \<and> fs w s \<noteq> None then fs w s else fs w q))"
proof -
  obtain w1 where "recurse_cp os src dst w = Some (Inr (), w1)" "fs w1 = graft src dst (fs w)" "oft w1 = oft w"
    using cp_kernel.recurse_cp_graft [OF assms(1,2)] by blast
  then show ?thesis by (simp add: cmd_cp_def graft_def at_below_def below_def counterpart_def Let_def)
qed

theorem cp_r_copies_tree_witness:
  "\<exists>w1. cmd_cp disk_os [''cp'', ''-r'', ''/s'', ''/t''] disk1 = Some (0, w1)
    \<and> disk_tree w1 ''/t/a'' = Some (File ''new'') \<and> disk_tree w1 ''/t/d'' = Some Folder \<and> disk_tree w1 ''/t/d/b'' = Some (File [])
    \<and> disk_tree w1 ''/t/z'' = Some (File ''kept'')"
proof -
  have c: "copyable (disk_tree disk1) ''/s'' ''/t''" unfolding disk_tree_def
    by (rule disk_copyable; code_simp)
  from cp_r_copies_tree [OF disk.cp_kernel_axioms c] show ?thesis
    by (fastforce simp: disk_tree_def disk1_def Let_def)
qed

end
