(* ===== verification/Elf_Start.thy ===== *)
theory Elf_Start
  imports Elf_Spawn
begin

unbundle bit_operations_syntax

text \<open>
  The loader from end to end: a traced process that is stopped at its \<^verbatim>\<open>main\<close> is let go at the entry of the ELF, with the
  image, the argument block of the payload and the stack in place.
\<close>

section \<open>Objects in memory\<close>

definition int_at :: "(u64 \<rightharpoonup> byte) \<Rightarrow> u64 \<Rightarrow> int" where
  "int_at m a = to_int32 (uint (le_word (mem_read m a 4) :: u32))"

definition int_bytes :: "int \<Rightarrow> byte list" where
  "int_bytes v = le_bytes 4 (word_of_int v :: u32)"

lemma length_int_bytes [simp]: "length (int_bytes v) = 4"
  by (simp add: int_bytes_def)

lemma to_int32_word: "to_int32 (uint (word_of_int v :: u32)) = to_int32 v"
  by (simp add: to_int32_def uint_word_of_int mod_add_left_eq)

lemma to_int32_fit: "to_int32 (uint (word_of_int (to_int32 v) :: u32)) = to_int32 v"
  by (simp add: to_int32_word) (simp add: to_int32_def)

text \<open>A number is stored and read at an offset of a block.\<close>

lemma mem_read_other:
  assumes "unat k1 + length bs \<le> unat k2 \<or> unat k2 + n \<le> unat k1" "unat k1 + length bs \<le> 2 ^ 64" "unat k2 + n \<le> 2 ^ 64"
  shows "mem_read (mem_write m (a + k1) bs) (a + k2) n = mem_read m (a + k2) n"
  using assms mem_read_frame [of "unat k2" a n "mem_write m (a + k1) bs" m] mem_write_at [of "unat k1" bs m a]
  by auto

lemmas mem_read_other0 = mem_read_other [where ?k1.0 = 0, simplified] mem_read_other [where ?k2.0 = 0, simplified]

lemma int_at_write [simp]: "int_at (mem_write m a (int_bytes v)) a = to_int32 v"
  using mem_read_write [of "int_bytes v" m a]
  by (simp add: int_at_def int_bytes_def le_word_bytes take_bit_word_eq_self to_int32_word)

lemma pointer_at_write [simp]: "pointer_at (mem_write m a (le_bytes 8 v)) a = v"
  using mem_read_write [of "le_bytes 8 v" m a] by (simp add: pointer_at_def le_word_bytes take_bit_word_eq_self)

lemma at_other:
  assumes "unat k1 + length bs \<le> 2 ^ 64"
  shows "unat k1 + length bs \<le> unat k2 \<or> unat k2 + 4 \<le> unat k1 \<Longrightarrow> unat k2 + 4 \<le> 2 ^ 64 \<Longrightarrow> int_at (mem_write m (a + k1) bs) (a + k2) = int_at m (a + k2)"
    "unat k1 + length bs \<le> unat k2 \<or> unat k2 + 8 \<le> unat k1 \<Longrightarrow> unat k2 + 8 \<le> 2 ^ 64 \<Longrightarrow> pointer_at (mem_write m (a + k1) bs) (a + k2) = pointer_at m (a + k2)"
  using assms by (simp_all add: int_at_def pointer_at_def mem_read_other)

lemmas at_others = at_other at_other [where ?k1.0 = 0, simplified] at_other [where ?k2.0 = 0, simplified]

lemma to_int32_idem [simp]: "to_int32 (to_int32 v) = to_int32 v" "to_int32 (int_at m a) = int_at m a"
  by (simp_all add: to_int32_def int_at_def)

lemma unat_max: "unat (- 1 :: u64) = 18446744073709551615"
proof -
  have "(- 1 :: u64) = 18446744073709551615" by simp
  then show ?thesis by (simp only: unat_numeral) simp
qed

text \<open>The bytes of the range of \<open>n\<close> bytes at \<open>a\<close>.\<close>

definition range_at :: "u64 \<Rightarrow> nat \<Rightarrow> u64 set" where
  "range_at a n = {y. unat (y - a) < n}"

lemma offset_of: "y = a + of_nat (unat (y - a))" for y a :: u64
  by simp

lemma mapped_dom: "dom m = dom m' \<Longrightarrow> mapped m a n \<longleftrightarrow> mapped m' a n"
  unfolding mapped_def by (metis domIff)

lemma mapped_range: "n \<le> 2 ^ 64 \<Longrightarrow> mapped m a n \<longleftrightarrow> range_at a n \<subseteq> dom m"
proof
  show "mapped m a n \<Longrightarrow> range_at a n \<subseteq> dom m"
    unfolding mapped_def range_at_def by (metis (mono_tags, lifting) offset_of domIff mem_Collect_eq subsetI)
next
  assume n: "n \<le> 2 ^ 64" and sub: "range_at a n \<subseteq> dom m"
  have "a + of_nat i \<in> range_at a n" if "i < n" for i using that n by (simp add: range_at_def unat_of_nat)
  then show "mapped m a n" using sub by (auto simp: mapped_def)
qed

lemma mem_write_dom: "mapped m a (length bs) \<Longrightarrow> dom (mem_write m a bs) = dom m"
proof -
  assume m: "mapped m a (length bs)"
  have "m y \<noteq> None" if "unat (y - a) < length bs" for y
    using m that offset_of [of y a] unfolding mapped_def by metis
  then show ?thesis by (auto simp: mem_write_def split: if_splits)
qed

lemma mem_write_outside: "y \<notin> range_at a (length bs) \<Longrightarrow> mem_write m a bs y = m y"
  by (simp add: mem_write_def range_at_def)

lemma range_at_sub: "unat k + n' \<le> n \<Longrightarrow> n \<le> 2 ^ 64 \<Longrightarrow> range_at (a + k) n' \<subseteq> range_at a n"
  using unat_offset [of "unat k" n' _ a] by (auto simp: range_at_def)

lemmas range_at_sub0 = range_at_sub [where k = 0, simplified]

lemma mem_read_same: "n \<le> 2 ^ 64 \<Longrightarrow> \<forall>y\<in>range_at a n. M' y = M y \<Longrightarrow> mem_read M' a n = mem_read M a n"
  using mem_read_frame [of 0 a n M' M] by (simp add: range_at_def)

text \<open>The memory \<open>M'\<close> is \<open>M\<close> apart from the contents of \<open>S\<close>.\<close>

definition within :: "u64 set \<Rightarrow> (u64 \<rightharpoonup> byte) \<Rightarrow> (u64 \<rightharpoonup> byte) \<Rightarrow> bool" where
  "within S M M' \<longleftrightarrow> dom M' = dom M \<and> (\<forall>y. y \<notin> S \<longrightarrow> M' y = M y)"

lemma within_refl [simp]: "within S M M"
  by (simp add: within_def)

lemma within_trans: "within S M M' \<Longrightarrow> within S M' M'' \<Longrightarrow> within S M M''"
  by (simp add: within_def)

lemma within_mono: "within S M M' \<Longrightarrow> S \<subseteq> T \<Longrightarrow> within T M M'"
  by (auto simp: within_def)

lemma within_write: "range_at a (length bs) \<subseteq> S \<Longrightarrow> S \<subseteq> dom M \<Longrightarrow> length bs \<le> 2 ^ 64 \<Longrightarrow> within S M (mem_write M a bs)"
  using mapped_range [of "length bs" M a] mem_write_dom [of M a bs] by (auto simp: within_def intro: mem_write_outside)

lemma within_fold:
  assumes "\<And>v. length (enc v) = n" "n \<le> 2 ^ 64"
  shows "\<forall>x\<in>set xs. range_at (fst x) n \<subseteq> S \<Longrightarrow> S \<subseteq> dom M \<Longrightarrow> within S M (fold (\<lambda>(a, v) M. mem_write M a (enc v)) xs M)"
proof (induction xs arbitrary: M)
  case (Cons x xs)
  let ?M = "mem_write M (fst x) (enc (snd x))"
  have w: "within S M ?M" using within_write [of "fst x" "enc (snd x)" S M] Cons.prems assms by simp
  then have "S \<subseteq> dom ?M" using Cons.prems(2) by (simp add: within_def)
  from Cons.IH [OF _ this] Cons.prems(1) w show ?case by (auto simp: split_def intro: within_trans)
qed simp

text \<open>The argument block of the payload at \<open>a\<close>.\<close>

definition payload_ready ::
    "(u64 \<rightharpoonup> byte) \<Rightarrow> u64 \<Rightarrow> u64 \<Rightarrow> (int \<Rightarrow> u64) \<Rightarrow> u64 \<Rightarrow> int set \<Rightarrow> (int \<times> int) set \<Rightarrow> bool" where
  "payload_ready m a getpid kfile data socks pipes \<longleftrightarrow>
     pointer_at m a = getpid \<and> pointer_at m (a + 0x08) = a + 0x100 \<and> pointer_at m (a + 0x10) = a + 0x200
   \<and> pointer_at m (a + 0x18) = kfile (int_at m (a + 0x100)) \<and> pointer_at m (a + 0x20) = data \<and> pointer_at m (a + 0x28) = a + 0x300
   \<and> (int_at m (a + 0x100), int_at m (a + 0x104)) \<in> pipes
   \<and> int_at m (a + 0x200) \<in> socks \<and> int_at m (a + 0x204) \<in> socks \<and> int_at m (a + 0x300) = 0"

lemma payload_ready_cong:
  assumes M: "\<forall>y\<in>range_at a 0x304. M' y = M y"
  shows "payload_ready M' a getpid kfile data socks pipes = payload_ready M a getpid kfile data socks pipes"
proof -
  have at: "mem_read M' (a + k) n = mem_read M (a + k) n" if "unat k + n \<le> 0x304" for k n
    using mem_read_frame [of "unat k" a n M' M] that M by (simp add: range_at_def)
  have at0: "mem_read M' a n = mem_read M a n" if "n \<le> 0x304" for n using at [of 0 n] that by simp
  show ?thesis by (simp add: payload_ready_def pointer_at_def int_at_def at at0)
qed

text \<open>A position-independent file that the loader can load: its header, program headers and the size of its image.\<close>

definition pie :: "u64 \<Rightarrow> nat \<Rightarrow> byte list \<Rightarrow> elf64_ehdr \<Rightarrow> elf64_phdr list \<Rightarrow> u64 \<Rightarrow> bool" where
  "pie page limit elf eh phs sz \<longleftrightarrow>
     read_ehdr elf = Some eh \<and> take 4 (e_ident eh) = elf_magic \<and> e_type eh = ET_DYN
   \<and> read_table (read_phdr elf) (e_phoff eh) 56 (unat (e_phnum eh)) = Some phs
   \<and> sz = snd (vaddr_range page phs) - fst (vaddr_range page phs) \<and> unat sz \<le> limit \<and> e_entry eh < sz
   \<and> (\<forall>b. build_image elf eh phs b sz \<noteq> None)"

text \<open>
  The process \<open>m'\<close> stands at the entry of the file, loaded at \<open>base\<close>: \<^verbatim>\<open>rip\<close> is the entry address, \<^verbatim>\<open>rdi\<close> the address of the
  argument block, \<^verbatim>\<open>rsp\<close> eight bytes below an aligned address, and every other register is as it was; the image, the argument block, on the stack as return address where the process \<open>m\<close> was stopped; and
  nothing else of its memory has changed, apart from the stack below it.
\<close>

definition entry_state ::
    "u64 \<Rightarrow> (int \<Rightarrow> u64) \<Rightarrow> u64 \<Rightarrow> int set \<Rightarrow> (int \<times> int) set \<Rightarrow> u64 set \<Rightarrow> byte list \<Rightarrow> elf64_ehdr \<Rightarrow> elf64_phdr list \<Rightarrow> u64
     \<Rightarrow> machine \<Rightarrow> u64 \<Rightarrow> machine \<Rightarrow> bool" where
  "entry_state getpid kfile data socks pipes stk elf eh phs sz m base m' \<longleftrightarrow>
     (\<exists>args img. m_regs m' = (m_regs m)\<lparr>r_rsp := (r_rsp (m_regs m) AND NOT 0xf) - 8, r_rip := base + e_entry eh, r_rdi := args\<rparr>
      \<and> build_image elf eh phs base sz = Some img \<and> mem_read (m_mem m') base (length img) = img
      \<and> payload_ready (m_mem m') args getpid kfile data socks pipes
      \<and> pointer_at (m_mem m') (r_rsp (m_regs m')) = r_rip (m_regs m)
      \<and> (\<forall>y\<in>dom (m_mem m) - stk - range_at (r_rsp (m_regs m')) 8. m_mem m' y = m_mem m y))"

section \<open>A stopped process\<close>

text \<open>
  What the loader's calls do to a traced process that is stopped with the registers \<open>r0\<close>. A system call of number
  \<open>sysno\<close> answers with a value in \<open>P\<close> and changes neither registers nor memory.
\<close>

definition answers :: "'w pk \<Rightarrow> (machine \<Rightarrow> machine) \<Rightarrow> (u64 \<Rightarrow> string \<Rightarrow> u64) \<Rightarrow> reg \<Rightarrow> int \<Rightarrow> (u64 \<Rightarrow> bool) \<Rightarrow> bool" where
  "answers pk cpu symb r0 sysno P \<longleftrightarrow>
     (\<forall>m args g. m_regs m = r0 \<longrightarrow>
        (\<exists>k v. remote_call cpu k (syscall_regs r0 (gadget symb + 0xa) sysno (given_args pk args g)) m = Some (v, m) \<and> P v))"

text \<open>
  \<^verbatim>\<open>mmap\<close>: as long as there is \<open>room\<close> in the address space, a mapping of at most \<open>limit\<close> bytes is made where nothing was mapped,
  filled with zeros.
\<close>

definition maps :: "'w pk \<Rightarrow> (machine \<Rightarrow> machine) \<Rightarrow> (u64 \<Rightarrow> string \<Rightarrow> u64) \<Rightarrow> reg \<Rightarrow> (u64 set \<Rightarrow> nat) \<Rightarrow> nat \<Rightarrow> bool" where
  "maps pk cpu symb r0 room limit \<longleftrightarrow>
     (\<forall>m len pr fl g. m_regs m = r0 \<longrightarrow> 0 < room (dom (m_mem m)) \<longrightarrow> 0 < unat len \<longrightarrow> unat len \<le> limit \<longrightarrow>
        (\<exists>k b mem. remote_call cpu k (syscall_regs r0 (gadget symb + 0xa) SYS_mmap
              (given_args pk [L64 0, L64 len, I32 pr, I32 fl, I32 (- 1), L64 0] g)) m = Some (b, m\<lparr>m_mem := mem\<rparr>)
           \<and> b \<noteq> 0 \<and> unat b + unat len < 2 ^ 64 \<and> range_at b (unat len) \<inter> dom (m_mem m) = {}
           \<and> (\<forall>y. mem y = (if y \<in> range_at b (unat len) then Some 0 else m_mem m y))
           \<and> room (dom (m_mem m)) \<le> Suc (room (dom mem))))"

text \<open>
  The library function \<^verbatim>\<open>pipe\<close> at the address \<open>f\<close>: it stores one of the \<open>pipes\<close> at its argument, and may use the stack.
\<close>

definition makes_pipe :: "'w pk \<Rightarrow> (machine \<Rightarrow> machine) \<Rightarrow> u64 \<Rightarrow> reg \<Rightarrow> u64 set \<Rightarrow> (int \<times> int) set \<Rightarrow> bool" where
  "makes_pipe pk cpu f r0 stk pipes \<longleftrightarrow>
     (\<forall>m b g. m_regs m = r0 \<longrightarrow> mapped (m_mem m) b 8 \<longrightarrow> range_at b 8 \<inter> stk = {} \<longrightarrow>
        (\<exists>k mem p. remote_call cpu k (call_regs r0 f (given_args pk [L64 b] g)) m = Some (0, m\<lparr>m_mem := mem\<rparr>)
           \<and> (int_at mem b, int_at mem (b + 4)) = p \<and> p \<in> pipes \<and> dom mem = dom (m_mem m)
           \<and> (\<forall>y. y \<notin> stk \<longrightarrow> y \<notin> range_at b 8 \<longrightarrow> mem y = m_mem m y)))"

definition resolves :: "(u64 \<Rightarrow> string \<Rightarrow> u64) \<Rightarrow> string \<Rightarrow> u64" where
  "resolves symb nid = (if symb 0x1 nid \<noteq> 0 then symb 0x1 nid else symb 0x2001 nid)"

lemma gadget_resolves: "gadget symb = resolves symb ''HoLVWNanBBc''"
  by (simp add: gadget_def resolves_def)

text \<open>
  The loader's view of the stopped process \<open>pid\<close> with registers \<open>r0\<close> and the stack \<open>stk\<close>: it answers the system calls of the
  loader, \<open>socks\<close> and \<open>pipes\<close> are the sockets and pipes it can be given, \<open>kfile\<close> the kernel's address of an open file, \<open>tc\<close>
  its capabilities.
\<close>

locale stopped_process =
  fixes pk :: "'w pk" and lk :: "'w lk" and pid :: int
    and auth :: "'w \<Rightarrow> u64" and caps :: "'w \<Rightarrow> byte list" and view :: "'w \<Rightarrow> machine" and tc :: "'w \<Rightarrow> byte list"
    and cpu :: "machine \<Rightarrow> machine" and symb :: "u64 \<Rightarrow> string \<Rightarrow> u64"
    and r0 :: reg and stk :: "u64 set" and room :: "u64 set \<Rightarrow> nat" and limit :: nat
    and socks :: "int set" and pipes :: "(int \<times> int) set" and kfile :: "int \<Rightarrow> u64"
  assumes laws: "tracee_laws pk pid auth caps view cpu symb" and lk: "lk_laws pk lk pid auth caps view"
    and gadget: "gadget symb \<noteq> 0"
    and write_d: "keeps_creds pk auth caps w (snd (pk_write_d pk pid a v w))"
      "mapped (m_mem (view w)) a 4 \<Longrightarrow> fst (pk_write_d pk pid a v w) = Some ()
         \<and> view (snd (pk_write_d pk pid a v w)) = (view w)\<lparr>m_mem := mem_write (m_mem (view w)) a (int_bytes v)\<rparr>"
    and read_d: "keeps_creds pk auth caps w (snd (pk_read_d pk pid a w))" "view (snd (pk_read_d pk pid a w)) = view w"
      "mapped (m_mem (view w)) a 4 \<Longrightarrow> fst (pk_read_d pk pid a w) = Some (int_at (m_mem (view w)) a)"
    and quiet: "answers pk cpu symb r0 SYS_mprotect (\<lambda>v. v = 0)" "answers pk cpu symb r0 SYS_msync (\<lambda>v. v = 0)"
      "answers pk cpu symb r0 SYS_setsockopt (\<lambda>v. v = 0)"
      "answers pk cpu symb r0 SYS_close (\<lambda>v. True)" "answers pk cpu symb r0 SYS_dup2 (\<lambda>v. True)" "answers pk cpu symb r0 0x25b (\<lambda>v. True)"
    and sock: "answers pk cpu symb r0 SYS_socket (\<lambda>v. to_int32 (uint v) \<in> socks)" "s \<in> socks \<Longrightarrow> 0 \<le> s"
    and maps: "maps pk cpu symb r0 room limit"
    and pipe: "makes_pipe pk cpu (resolves symb ''-Jp7F+pXxNg'') r0 stk pipes"
    and overlap: "fst (lk_overlap_sockets lk pid sa sb w)" "leaves pk auth caps view (view w) w (snd (lk_overlap_sockets lk pid sa sb w))"
    and proc_file: "fst (lk_proc_file lk pid f w) = kfile f" "leaves pk auth caps view (view w) w (snd (lk_proc_file lk pid f w))"
    and got_caps: "pk_get_caps pk pid w = (Some (tc w), w)"
    and set_caps: "\<exists>w'. pk_set_caps pk pid c w = (True, w') \<and> tc w' = c \<and> view w' = view w \<and> auth w' = auth w"
begin

text \<open>The process is stopped as \<open>m\<close>, and the loader has its credentials.\<close>

definition stopped :: "machine \<Rightarrow> 'w \<Rightarrow> bool" where
  "stopped m w \<longleftrightarrow> auth w \<noteq> 0 \<and> view w = m \<and> m_regs m = r0"

lemma stopped_leaves: "stopped m w \<Longrightarrow> leaves pk auth caps view m' w w' \<Longrightarrow> m_regs m' = r0 \<Longrightarrow> stopped m' w'"
  by (simp add: stopped_def leaves_def keeps_creds_def)

lemma stopped_same: "stopped m w \<Longrightarrow> leaves pk auth caps view (view w) w w' \<Longrightarrow> stopped m w'"
  by (simp add: stopped_def leaves_def keeps_creds_def)

lemma syscall_answers:
  assumes "answers pk cpu symb r0 sysno P" "stopped m w"
  shows "\<exists>v w'. pt_syscall pk pid sysno args w = Some (v, w') \<and> P v \<and> stopped m w'"
proof -
  have r: "\<forall>g. \<exists>k v m'. remote_call cpu k (syscall_regs (m_regs (view w)) (gadget symb + 0xa) sysno (given_args pk args g)) (view w)
      = Some (v, m') \<and> (P v \<and> m' = m)"
    using assms unfolding answers_def stopped_def by metis
  have "auth w \<noteq> 0" using assms(2) by (simp add: stopped_def)
  from pt_syscall_some [OF laws this gadget_def gadget r] show ?thesis
    using stopped_leaves [OF assms(2)] assms(2) by (auto simp: stopped_def)
qed

lemma int_syscall:
  assumes "answers pk cpu symb r0 sysno P" "stopped m w"
  shows "\<exists>v w'. as_int (pt_syscall pk pid sysno args w) = Some (to_int32 (uint v), w') \<and> P v \<and> stopped m w'"
  using syscall_answers [OF assms, of args] by (auto simp: as_int_def)

lemma setint:
  assumes "stopped m w" "mapped (m_mem m) a 4"
  shows "\<exists>w'. pt_setint pk pid a v w = (Some (), w') \<and> stopped (m\<lparr>m_mem := mem_write (m_mem m) a (int_bytes v)\<rparr>) w'"
proof -
  have "\<exists>w'. sys_ptrace pk (pk_write_d pk pid a v) w = (Some (), w')
      \<and> leaves pk auth caps view (m\<lparr>m_mem := mem_write (m_mem m) a (int_bytes v)\<rparr>) w w'"
    by (rule ptrace_request [OF laws]) (use assms write_d in \<open>auto simp: stopped_def\<close>)
  then show ?thesis using stopped_leaves [OF assms(1)] assms(1) by (auto simp: pt_setint_def stopped_def)
qed

lemma getint:
  assumes "stopped m w" "mapped (m_mem m) a 4"
  shows "\<exists>w'. pt_getint pk pid a w = (int_at (m_mem m) a, w') \<and> stopped m w'"
proof -
  have "\<exists>w'. sys_ptrace pk (pk_read_d pk pid a) w = (Some (int_at (m_mem m) a), w') \<and> leaves pk auth caps view m w w'"
    by (rule ptrace_request [OF laws]) (use assms read_d in \<open>auto simp: stopped_def\<close>)
  then show ?thesis using stopped_leaves [OF assms(1)] assms(1) by (auto simp: pt_getint_def stopped_def)
qed

lemma setlong:
  assumes "stopped m w" "mapped (m_mem m) a 8"
  shows "\<exists>w'. pt_setlong pk pid a v w = (Some (), w') \<and> stopped (m\<lparr>m_mem := mem_write (m_mem m) a (le_bytes 8 v)\<rparr>) w'"
  using pt_setlong_view [OF laws, of w a v] stopped_leaves [OF assms(1)] assms by (auto simp: stopped_def)

lemma set_ints_stopped:
  "stopped m w \<Longrightarrow> \<forall>x\<in>set xs. mapped (m_mem m) (fst x) 4 \<Longrightarrow>
    stopped (m\<lparr>m_mem := fold (\<lambda>(a, v) M. mem_write M a (int_bytes v)) xs (m_mem m)\<rparr>) (set_ints pk pid xs w)"
proof (induction xs arbitrary: m w)
  case (Cons x xs)
  let ?m = "m\<lparr>m_mem := mem_write (m_mem m) (fst x) (int_bytes (snd x))\<rparr>"
  obtain w1 where w1: "pt_setint pk pid (fst x) (snd x) w = (Some (), w1)" "stopped ?m w1"
    using setint [of m w "fst x"] Cons.prems by auto
  have "stopped (?m\<lparr>m_mem := fold (\<lambda>(a, v) M. mem_write M a (int_bytes v)) xs (m_mem ?m)\<rparr>) (set_ints pk pid xs w1)"
    by (rule Cons.IH [OF w1(2)]) (use Cons.prems in \<open>simp add: mapped_write\<close>)
  then show ?case using w1(1) by (cases x) (simp add: set_ints_def)
qed (simp add: set_ints_def)

lemma set_longs_stopped:
  "stopped m w \<Longrightarrow> \<forall>x\<in>set xs. mapped (m_mem m) (fst x) 8 \<Longrightarrow>
    stopped (m\<lparr>m_mem := fold (\<lambda>(a, v) M. mem_write M a (le_bytes 8 v)) xs (m_mem m)\<rparr>) (set_longs pk pid xs w)"
proof (induction xs arbitrary: m w)
  case (Cons x xs)
  let ?m = "m\<lparr>m_mem := mem_write (m_mem m) (fst x) (le_bytes 8 (snd x))\<rparr>"
  obtain w1 where w1: "pt_setlong pk pid (fst x) (snd x) w = (Some (), w1)" "stopped ?m w1"
    using setlong [of m w "fst x"] Cons.prems by auto
  have "stopped (?m\<lparr>m_mem := fold (\<lambda>(a, v) M. mem_write M a (le_bytes 8 v)) xs (m_mem ?m)\<rparr>) (set_longs pk pid xs w1)"
    by (rule Cons.IH [OF w1(2)]) (use Cons.prems in \<open>simp add: mapped_write\<close>)
  then show ?case using w1(1) by (cases x) (simp add: set_longs_def)
qed (simp add: set_longs_def)

lemma mmap:
  assumes "stopped m w" "0 < room (dom (m_mem m))" "0 < unat len" "unat len \<le> limit"
  shows "\<exists>b mem w'. pt_mmap pk pid 0 len pr fl (- 1) 0 w = Some (b, w') \<and> stopped (m\<lparr>m_mem := mem\<rparr>) w'
    \<and> b \<noteq> 0 \<and> b \<noteq> - 1 \<and> unat b + unat len < 2 ^ 64 \<and> range_at b (unat len) \<inter> dom (m_mem m) = {}
    \<and> (\<forall>y. mem y = (if y \<in> range_at b (unat len) then Some 0 else m_mem m y)) \<and> room (dom (m_mem m)) \<le> Suc (room (dom mem))"
proof -
  let ?Q = "\<lambda>b m'. \<exists>mem. m' = m\<lparr>m_mem := mem\<rparr> \<and> b \<noteq> 0 \<and> unat b + unat len < 2 ^ 64 \<and> range_at b (unat len) \<inter> dom (m_mem m) = {}
    \<and> (\<forall>y. mem y = (if y \<in> range_at b (unat len) then Some 0 else m_mem m y)) \<and> room (dom (m_mem m)) \<le> Suc (room (dom mem))"
  have v: "view w = m" "m_regs m = r0" "auth w \<noteq> 0" using assms(1) by (simp_all add: stopped_def)
  have r: "\<forall>g. \<exists>k b m'. remote_call cpu k (syscall_regs (m_regs (view w)) (gadget symb + 0xa) SYS_mmap
      (given_args pk [L64 0, L64 len, I32 pr, I32 fl, I32 (- 1), L64 0] g)) (view w) = Some (b, m') \<and> ?Q b m'"
  proof
    fix g show "\<exists>k b m'. remote_call cpu k (syscall_regs (m_regs (view w)) (gadget symb + 0xa) SYS_mmap
      (given_args pk [L64 0, L64 len, I32 pr, I32 fl, I32 (- 1), L64 0] g)) (view w) = Some (b, m') \<and> ?Q b m'"
      using maps [unfolded maps_def, rule_format, OF v(2) assms(2-4), of pr fl g] unfolding v(1,2) by blast
  qed
  have m1: "b \<noteq> - 1" if "unat b + unat len < 2 ^ 64" for b :: u64 using that assms(3) unat_max by auto
  from pt_syscall_some [OF laws v(3) gadget_def gadget r] obtain w' b m' where
    m': "pt_mmap pk pid 0 len pr fl (- 1) 0 w = Some (b, w')" "leaves pk auth caps view m' w w'" "?Q b m'"
    unfolding pt_mmap_def by blast
  from m'(3) obtain mem where mem: "m' = m\<lparr>m_mem := mem\<rparr>" "b \<noteq> 0" "unat b + unat len < 2 ^ 64" "range_at b (unat len) \<inter> dom (m_mem m) = {}"
    "\<forall>y. mem y = (if y \<in> range_at b (unat len) then Some 0 else m_mem m y)" "room (dom (m_mem m)) \<le> Suc (room (dom mem))" by blast
  have "stopped (m\<lparr>m_mem := mem\<rparr>) w'" using stopped_leaves [OF assms(1) m'(2)] mem(1) v(2) by simp
  with m'(1) mem(2-) m1 [OF mem(3)] show ?thesis by blast
qed

lemma set_ints_in:
  assumes "stopped m w" "S \<subseteq> dom (m_mem m)" "\<forall>x\<in>set xs. range_at (fst x) 4 \<subseteq> S"
  shows "stopped (m\<lparr>m_mem := fold (\<lambda>(a, v) M. mem_write M a (int_bytes v)) xs (m_mem m)\<rparr>) (set_ints pk pid xs w)"
    "within S (m_mem m) (fold (\<lambda>(a, v) M. mem_write M a (int_bytes v)) xs (m_mem m))"
  using set_ints_stopped [OF assms(1), of xs] within_fold [of int_bytes 4 xs S "m_mem m"] mapped_range [of 4 "m_mem m"] assms(2,3)
  by fastforce+

lemma set_longs_in:
  assumes "stopped m w" "S \<subseteq> dom (m_mem m)" "\<forall>x\<in>set xs. range_at (fst x) 8 \<subseteq> S"
  shows "stopped (m\<lparr>m_mem := fold (\<lambda>(a, v) M. mem_write M a (le_bytes 8 v)) xs (m_mem m)\<rparr>) (set_longs pk pid xs w)"
    "within S (m_mem m) (fold (\<lambda>(a, v) M. mem_write M a (le_bytes 8 v)) xs (m_mem m))"
  using set_longs_stopped [OF assms(1), of xs] within_fold [of "le_bytes 8" 8 xs S "m_mem m"] mapped_range [of 8 "m_mem m"] assms(2,3)
  by fastforce+

lemma make_pipe:
  assumes "stopped m w" "mapped (m_mem m) b 8" "range_at b 8 \<inter> stk = {}"
  shows "\<exists>mem w'. pt_pipe pk pid b w = Some (0, w') \<and> stopped (m\<lparr>m_mem := mem\<rparr>) w'
    \<and> (int_at mem b, int_at mem (b + 4)) \<in> pipes \<and> within (range_at b 8 \<union> stk) (m_mem m) mem"
proof -
  let ?f = "resolves symb ''-Jp7F+pXxNg''"
  let ?Q = "\<lambda>v m'. v = 0 \<and> (\<exists>mem. m' = m\<lparr>m_mem := mem\<rparr> \<and> (int_at mem b, int_at mem (b + 4)) \<in> pipes
      \<and> within (range_at b 8 \<union> stk) (m_mem m) mem)"
  obtain w1 where w1: "pt_resolve pk pid ''-Jp7F+pXxNg'' w = (?f, w1)" "stopped m w1"
    using pt_resolve_view [OF laws, of "''-Jp7F+pXxNg''" w] stopped_same [OF assms(1)] by (auto simp: resolves_def)
  have v: "view w1 = m" "m_regs m = r0" "auth w1 \<noteq> 0" using w1(2) by (simp_all add: stopped_def)
  have r: "\<forall>g. \<exists>k x m'. remote_call cpu k (call_regs (m_regs (view w1)) ?f (given_args pk [L64 b] g)) (view w1) = Some (x, m') \<and> ?Q x m'"
  proof
    fix g
    obtain k mem p where "remote_call cpu k (call_regs r0 ?f (given_args pk [L64 b] g)) m = Some (0, m\<lparr>m_mem := mem\<rparr>)"
      "(int_at mem b, int_at mem (b + 4)) = p" "p \<in> pipes" "dom mem = dom (m_mem m)"
      "\<forall>y. y \<notin> stk \<longrightarrow> y \<notin> range_at b 8 \<longrightarrow> mem y = m_mem m y"
      using pipe [unfolded makes_pipe_def, rule_format, OF v(2) assms(2,3), of g] by blast
    then show "\<exists>k x m'. remote_call cpu k (call_regs (m_regs (view w1)) ?f (given_args pk [L64 b] g)) (view w1) = Some (x, m') \<and> ?Q x m'"
      unfolding v(1,2) by (intro exI [of _ k] exI [of _ 0] exI [of _ "m\<lparr>m_mem := mem\<rparr>"]) (auto simp: within_def)
  qed
  from pt_call_some [OF laws v(3) r] obtain w' m' where m': "pt_call pk pid ?f [L64 b] w1 = Some (0, w')"
    "leaves pk auth caps view m' w1 w'" "?Q 0 m'" by blast
  from m'(3) obtain mem where mem: "m' = m\<lparr>m_mem := mem\<rparr>" "(int_at mem b, int_at mem (b + 4)) \<in> pipes"
    "within (range_at b 8 \<union> stk) (m_mem m) mem" by blast
  have "stopped (m\<lparr>m_mem := mem\<rparr>) w'" using stopped_leaves [OF w1(2) m'(2)] mem(1) v(2) by simp
  moreover have "pt_pipe pk pid b w = Some (0, w')"
    using w1(1) m'(1) by (simp add: pt_pipe_def pt_call_nid_def as_int_def to_int32_def)
  ultimately show ?thesis using mem(2,3) by blast
qed

lemma payload_block_ready:
  assumes st: "stopped m w" and S: "range_at a n \<subseteq> dom (m_mem m)" "0x304 \<le> n" "n \<le> 2 ^ 64" "range_at a n \<inter> stk = {}"
    and socks: "ms \<in> socks" "vs \<in> socks" "to_int32 ms = ms" "to_int32 vs = vs"
  shows "\<exists>M w'. payload_block pk lk pid a ms vs w = Some (a, w') \<and> stopped (m\<lparr>m_mem := M\<rparr>) w'
    \<and> within (range_at a n \<union> stk) (m_mem m) M \<and> payload_ready M a (resolves symb ''HoLVWNanBBc'') kfile (lk_data_base lk) socks pipes"
proof -
  have sub: "range_at (a + k) n' \<subseteq> range_at a n" if "unat k + n' \<le> 0x304" for k n' using range_at_sub that S(2,3) by simp
  have sub0: "range_at a n' \<subseteq> range_at a n" if "n' \<le> 0x304" for n' using sub [of 0 n'] that by simp
  have at: "mapped M (a + k) n'" if "unat k + n' \<le> 0x304" "range_at a n \<subseteq> dom M" for M k n'
    using mapped_range [of n' M] sub [OF that(1)] that S(2,3) by auto
  have disj: "range_at a 8 \<inter> stk = {}" using S(4) sub0 [of 8] by auto
  obtain M1 w1 where w1: "pt_pipe pk pid a w = Some (0, w1)" "stopped (m\<lparr>m_mem := M1\<rparr>) w1" "(int_at M1 a, int_at M1 (a + 4)) \<in> pipes"
    "within (range_at a 8 \<union> stk) (m_mem m) M1"
    using make_pipe [OF st, of a] at [of 0 8 "m_mem m"] S(1) disj by auto
  let ?m1 = "m\<lparr>m_mem := M1\<rparr>" and ?p0 = "int_at M1 a" and ?p1 = "int_at M1 (a + 4)"
  have d1: "range_at a n \<subseteq> dom M1" using w1(4) S(1) by (simp add: within_def)
  obtain w2 where w2: "pt_getint pk pid a w1 = (?p0, w2)" "stopped ?m1 w2" using getint [OF w1(2), of a] at [of 0 4 M1] d1 by auto
  obtain w3 where w3: "pt_getint pk pid (a + 4) w2 = (?p1, w3)" "stopped ?m1 w3" using getint [OF w2(2), of "a + 4"] at [of 4 4 M1] d1 by auto
  obtain w4 where w4: "lk_proc_file lk pid ?p0 w3 = (kfile ?p0, w4)" "stopped ?m1 w4"
    using proc_file [where f = "?p0" and w = w3] stopped_same [OF w3(2)] by (metis prod.collapse)
  obtain w5 where w5: "pt_resolve pk pid ''HoLVWNanBBc'' w4 = (resolves symb ''HoLVWNanBBc'', w5)" "stopped ?m1 w5"
    using pt_resolve_view [OF laws, of "''HoLVWNanBBc''" w4] stopped_same [OF w4(2)] by (auto simp: resolves_def)
  let ?ls = "[(a, resolves symb ''HoLVWNanBBc''), (a + 0x08, a + 0x100), (a + 0x10, a + 0x200), (a + 0x18, kfile ?p0),
    (a + 0x20, lk_data_base lk), (a + 0x28, a + 0x300)]"
  let ?is = "[(a + 0x100, ?p0), (a + 0x104, ?p1), (a + 0x200, ms), (a + 0x204, vs), (a + 0x300, 0)]"
  let ?M2 = "fold (\<lambda>(a, v) M. mem_write M a (le_bytes 8 v)) ?ls M1"
  let ?M3 = "fold (\<lambda>(a, v) M. mem_write M a (int_bytes v)) ?is ?M2"
  have l: "\<forall>x\<in>set ?ls. range_at (fst x) 8 \<subseteq> range_at a n" using sub sub0 by simp
  have i: "\<forall>x\<in>set ?is. range_at (fst x) 4 \<subseteq> range_at a n" using sub by simp
  have w6: "stopped (m\<lparr>m_mem := ?M2\<rparr>) (set_longs pk pid ?ls w5)" "within (range_at a n) M1 ?M2"
    using set_longs_in [OF w5(2) _ l] d1 by simp_all
  have d2: "range_at a n \<subseteq> dom ?M2" using w6(2) d1 unfolding within_def by blast
  have w7: "stopped (m\<lparr>m_mem := ?M3\<rparr>) (set_ints pk pid ?is (set_longs pk pid ?ls w5))" "within (range_at a n) ?M2 ?M3"
    using set_ints_in [OF w6(1) _ i] d2 by simp_all
  have "within (range_at a n \<union> stk) (m_mem m) M1" by (rule within_mono [OF w1(4)]) (use sub0 [of 8] in auto)
  moreover have "within (range_at a n \<union> stk) M1 ?M3"
    by (rule within_mono [OF within_trans [OF w6(2) w7(2)]]) simp
  ultimately have "within (range_at a n \<union> stk) (m_mem m) ?M3" by (rule within_trans)
  moreover have "payload_ready ?M3 a (resolves symb ''HoLVWNanBBc'') kfile (lk_data_base lk) socks pipes"
    using w1(3) socks by (simp add: payload_ready_def at_others to_int32_id)
  moreover have "payload_block pk lk pid a ms vs w = Some (a, set_ints pk pid ?is (set_longs pk pid ?ls w5))"
    using w1(1) w2(1) w3(1) w4(1) w5(1) by (simp add: payload_block_def Let_def add.assoc)
  ultimately show ?thesis using w7(1) by blast
qed

lemma payload_args_ready:
  assumes st: "stopped m w" and room: "0 < room (dom (m_mem m))" and page: "0x304 \<le> unat (lk_page lk)" "unat (lk_page lk) \<le> limit"
    and stk: "stk \<subseteq> dom (m_mem m)"
  shows "\<exists>a M w'. elfldr_payload_args pk lk pid w = Some (a, w') \<and> stopped (m\<lparr>m_mem := M\<rparr>) w' \<and> a \<noteq> 0
    \<and> (\<forall>y \<in> dom (m_mem m) - stk. M y = m_mem m y) \<and> dom (m_mem m) \<subseteq> dom M \<and> range_at a 0x304 \<inter> dom (m_mem m) = {}
    \<and> payload_ready M a (resolves symb ''HoLVWNanBBc'') kfile (lk_data_base lk) socks pipes"
proof -
  let ?n = "unat (lk_page lk)"
  obtain a M1 w1 where w1: "pt_mmap pk pid 0 (lk_page lk) (PROT_READ OR PROT_WRITE) (MAP_ANONYMOUS OR MAP_PRIVATE) (- 1) 0 w = Some (a, w1)"
    "stopped (m\<lparr>m_mem := M1\<rparr>) w1" "a \<noteq> 0" "a \<noteq> - 1" "unat a + ?n < 2 ^ 64" "range_at a ?n \<inter> dom (m_mem m) = {}"
    "\<And>y. M1 y = (if y \<in> range_at a ?n then Some 0 else m_mem m y)"
    using mmap [OF st room, of "lk_page lk"] page by fastforce
  have S1: "range_at a ?n \<subseteq> dom M1" using w1(7) by auto
  have sub: "range_at (a + k) n' \<subseteq> range_at a ?n" if "unat k + n' \<le> 0x304" for k n' using range_at_sub that page(1) w1(5) by simp
  have sub0: "range_at a n' \<subseteq> range_at a ?n" if "n' \<le> 0x304" for n' using sub [of 0 n'] that by simp
  let ?i1 = "[(a, 20), (a + 0x04, IPPROTO_IPV6), (a + 0x08, IPV6_TCLASS), (a + 0x0c, 0), (a + 0x10, 0), (a + 0x14, 0)]"
  let ?i2 = "[(a, 0), (a + 0x04, 0), (a + 0x08, 0), (a + 0x0c, 0), (a + 0x10, 0)]"
  have i1: "\<forall>x\<in>set ?i1. range_at (fst x) 4 \<subseteq> range_at a ?n" and i2: "\<forall>x\<in>set ?i2. range_at (fst x) 4 \<subseteq> range_at a ?n"
    using sub sub0 by simp_all
  obtain ms w2 where w2: "pt_socket pk pid AF_INET6 SOCK_DGRAM IPPROTO_UDP w1 = Some (ms, w2)" "stopped (m\<lparr>m_mem := M1\<rparr>) w2"
    "ms \<in> socks" "to_int32 ms = ms" using int_syscall [OF sock(1) w1(2)] unfolding pt_socket_def by fastforce
  obtain M2 where w3: "stopped (m\<lparr>m_mem := M2\<rparr>) (set_ints pk pid ?i1 w2)" "within (range_at a ?n) M1 M2"
    using set_ints_in [OF w2(2) _ i1] S1 by auto
  have S2: "range_at a ?n \<subseteq> dom M2" using w3(2) S1 by (simp add: within_def)
  obtain w4 where w4: "pt_setsockopt pk pid ms IPPROTO_IPV6 IPV6_2292PKTOPTIONS a 24 (set_ints pk pid ?i1 w2) = Some (0, w4)"
    "stopped (m\<lparr>m_mem := M2\<rparr>) w4" using int_syscall [OF quiet(3) w3(1)] unfolding pt_setsockopt_def by (fastforce simp: to_int32_def)
  obtain vs w5 where w5: "pt_socket pk pid AF_INET6 SOCK_DGRAM IPPROTO_UDP w4 = Some (vs, w5)" "stopped (m\<lparr>m_mem := M2\<rparr>) w5"
    "vs \<in> socks" "to_int32 vs = vs" using int_syscall [OF sock(1) w4(2)] unfolding pt_socket_def by fastforce
  obtain M3 where w6: "stopped (m\<lparr>m_mem := M3\<rparr>) (set_ints pk pid ?i2 w5)" "within (range_at a ?n) M2 M3"
    using set_ints_in [OF w5(2) _ i2] S2 by auto
  obtain w7 where w7: "pt_setsockopt pk pid vs IPPROTO_IPV6 IPV6_PKTINFO a 20 (set_ints pk pid ?i2 w5) = Some (0, w7)"
    "stopped (m\<lparr>m_mem := M3\<rparr>) w7" using int_syscall [OF quiet(3) w6(1)] unfolding pt_setsockopt_def by (fastforce simp: to_int32_def)
  obtain w8 where w8: "lk_overlap_sockets lk pid ms vs w7 = (True, w8)" "stopped (m\<lparr>m_mem := M3\<rparr>) w8"
    using overlap [where sa = ms and sb = vs and w = w7] stopped_same [OF w7(2)] by (cases "lk_overlap_sockets lk pid ms vs w7") auto
  have S3: "range_at a ?n \<subseteq> dom M3" using w6(2) S2 by (simp add: within_def)
  have disj: "range_at a ?n \<inter> stk = {}" using w1(6) stk by blast
  obtain M w' where w': "payload_block pk lk pid a ms vs w8 = Some (a, w')" "stopped (m\<lparr>m_mem := M\<rparr>) w'"
    "within (range_at a ?n \<union> stk) M3 M" "payload_ready M a (resolves symb ''HoLVWNanBBc'') kfile (lk_data_base lk) socks pipes"
    using payload_block_ready [OF w8(2), of a ?n ms vs] S3 page(1) disj w2(3,4) w5(3,4) u64_less [of "lk_page lk"] by fastforce
  have pos: "\<not> ms < 0" "\<not> vs < 0" using sock(2) [OF w2(3)] sock(2) [OF w5(3)] by simp_all
  have "elfldr_payload_args pk lk pid w = Some (a, w')"
    using w1(1,4) w2(1) w4(1) w5(1) w7(1) w8(1) w'(1) pos by (simp add: elfldr_payload_args_def Let_def)
  moreover have "within (range_at a ?n \<union> stk) M1 M"
    using within_trans [OF within_mono [OF within_trans [OF w3(2) w6(2)]] w'(3)] by blast
  then have "\<forall>y \<in> dom (m_mem m) - stk. M y = m_mem m y" "dom (m_mem m) \<subseteq> dom M"
    using w1(6,7) by (auto simp: within_def split: if_splits)
  moreover have "range_at a 0x304 \<inter> dom (m_mem m) = {}" using w1(6) sub0 [of "0x304"] by auto
  ultimately show ?thesis using w'(2,4) w1(3) by blast
qed

text \<open>A position-independent file.\<close>

lemma returns_zero: "answers pk cpu symb r0 sysno (\<lambda>v. v = 0) \<Longrightarrow> returns_zero pk cpu symb r0 sysno"
  unfolding answers_def returns_zero_def by blast

lemma load_stopped:
  assumes st: "stopped m w" and room: "0 < room (dom (m_mem m))"
    and eh: "read_ehdr elf = Some eh" "take 4 (e_ident eh) = elf_magic" "e_type eh = ET_DYN"
    and phs: "read_table (read_phdr elf) (e_phoff eh) 56 (unat (e_phnum eh)) = Some phs" "vaddr_range (lk_page lk) phs = (lo, hi)"
    and len: "unat (hi - lo) \<le> limit" "e_entry eh < hi - lo" and img: "\<forall>b. build_image elf eh phs b (hi - lo) \<noteq> None"
  shows "\<exists>base i M w'. elfldr_load pk lk pid elf w = Some (Ret (base + e_entry eh, Some base), w') \<and> base + e_entry eh \<noteq> 0
    \<and> stopped (m\<lparr>m_mem := M\<rparr>) w' \<and> build_image elf eh phs base (hi - lo) = Some i \<and> mem_read M base (length i) = i
    \<and> range_at base (length i) \<subseteq> dom M - dom (m_mem m) \<and> (\<forall>y \<in> dom (m_mem m). M y = m_mem m y)
    \<and> room (dom (m_mem m)) \<le> Suc (room (dom M))"
proof -
  let ?n = "unat (hi - lo)"
  have pos: "0 < ?n" using len(2) by (simp add: word_less_nat_alt)
  obtain base M1 w1 where w1: "pt_mmap pk pid 0 (hi - lo) (PROT_READ OR PROT_WRITE) (MAP_PRIVATE OR MAP_ANONYMOUS) (- 1) 0 w = Some (base, w1)"
    "stopped (m\<lparr>m_mem := M1\<rparr>) w1" "base \<noteq> 0" "base \<noteq> - 1" "unat base + ?n < 2 ^ 64" "range_at base ?n \<inter> dom (m_mem m) = {}"
    "\<And>y. M1 y = (if y \<in> range_at base ?n then Some 0 else m_mem m y)" "room (dom (m_mem m)) \<le> Suc (room (dom M1))"
    using mmap [OF st room pos len(1)] by metis
  obtain i where i: "build_image elf eh phs base (hi - lo) = Some i" using img by blast
  have li: "length i = ?n" using build_image_length [OF i] .
  let ?c = "lk_mmap lk (hi - lo) (PROT_READ OR PROT_WRITE) (MAP_PRIVATE OR MAP_ANONYMOUS) w1"
  have c: "fst ?c" "leaves pk auth caps view (view w1) w1 (snd ?c)" using lk unfolding lk_laws_def by blast+
  have s2: "stopped (m\<lparr>m_mem := M1\<rparr>) (snd ?c)" by (rule stopped_same [OF w1(2) c(2)])
  then have v2: "view (snd ?c) = m\<lparr>m_mem := M1\<rparr>" "auth (snd ?c) \<noteq> 0" "m_regs (view (snd ?c)) = r0" by (simp_all add: stopped_def)
  have mp: "mapped M1 base (length i)" using mapped_range [of "length i" M1 base] w1(7) u64_less [of "hi - lo"] by (auto simp: li)
  obtain w' where w': "install_image pk lk pid eh phs base (hi - lo) i (snd ?c) = Some (Ret (base + e_entry eh, Some base), w')"
    "leaves pk auth caps view (m\<lparr>m_mem := mem_write M1 base i\<rparr>) (snd ?c) w'"
    using install_image_ok [OF laws lk gadget, of "snd ?c" base i eh phs "hi - lo"] returns_zero [OF quiet(1)] returns_zero [OF quiet(2)] v2 mp
    by auto
  have "stopped (m\<lparr>m_mem := mem_write M1 base i\<rparr>) w'"
    by (rule stopped_leaves [OF s2 w'(2)]) (use st in \<open>simp add: stopped_def\<close>)
  moreover have "elfldr_load pk lk pid elf w = Some (Ret (base + e_entry eh, Some base), w')"
    using eh(3) elfldr_load_header [OF eh(1,2) phs] w1(1,4) i c(1) w'(1) by (simp add: map_image_def split_def)
  moreover have "base + e_entry eh \<noteq> 0"
  proof
    assume "base + e_entry eh = 0"
    then have "unat (base + e_entry eh) = 0" by simp
    moreover have "unat (base + e_entry eh) = unat base + unat (e_entry eh)"
      using w1(5) len(2) by (intro unat_add_lem [THEN iffD1]) (simp add: word_less_nat_alt)
    ultimately show False using w1(3) by (simp add: unat_eq_zero)
  qed
  moreover have "mem_read (mem_write M1 base i) base (length i) = i"
    using mem_read_write [of i] u64_less [of "hi - lo"] li by (metis less_imp_le_nat)
  moreover have d: "dom (mem_write M1 base i) = dom M1" by (rule mem_write_dom [OF mp])
  moreover have "range_at base (length i) \<subseteq> dom M1 - dom (m_mem m)" using w1(6,7) by (auto simp: li)
  moreover have "mem_write M1 base i y = m_mem m y" if "y \<in> dom (m_mem m)" for y
  proof -
    have "y \<notin> range_at base (length i)" using that w1(6) li by auto
    then show ?thesis using w1(7) li by (simp add: mem_write_outside)
  qed
  ultimately show ?thesis using i w1(8) by (intro exI [of _ base] exI [of _ i] exI [of _ "mem_write M1 base i"] exI [of _ w']) simp
qed

lemma prepare_exec_ready:
  assumes st: "stopped m w" and room: "2 \<le> room (dom (m_mem m))" and page: "0x304 \<le> unat (lk_page lk)" "unat (lk_page lk) \<le> limit"
    and stk: "stk \<subseteq> dom (m_mem m)" and sp: "mapped (m_mem m) ((r_rsp r0 AND NOT 0xf) - 8) 8"
    and elf: "pie (lk_page lk) limit elf eh phs sz"
  shows "\<exists>base w'. elfldr_prepare_exec pk lk pid elf w = Some (Ret (0, Some base), w') \<and> auth w' \<noteq> 0
    \<and> entry_state (resolves symb ''HoLVWNanBBc'') kfile (lk_data_base lk) socks pipes stk elf eh phs sz m base (view w')"
proof -
  let ?sp = "(r_rsp r0 AND NOT 0xf) - 8"
  have r: "m_regs m = r0" "auth w \<noteq> 0" "view w = m" using st by (simp_all add: stopped_def)
  obtain lo hi where lh: "vaddr_range (lk_page lk) phs = (lo, hi)" "sz = hi - lo" using elf by (cases "vaddr_range (lk_page lk) phs") (simp add: pie_def)
  obtain w1 where w1: "pt_getregs pk pid w = (Some r0, w1)" "stopped m w1"
    using pt_getregs_view [OF laws r(2)] stopped_same [OF st] r by auto
  obtain base i M2 w2 where w2: "elfldr_load pk lk pid elf w1 = Some (Ret (base + e_entry eh, Some base), w2)" "base + e_entry eh \<noteq> 0"
    "stopped (m\<lparr>m_mem := M2\<rparr>) w2" "build_image elf eh phs base sz = Some i" "mem_read M2 base (length i) = i"
    "range_at base (length i) \<subseteq> dom M2 - dom (m_mem m)" "\<And>y. y \<in> dom (m_mem m) \<Longrightarrow> M2 y = m_mem m y"
    "room (dom (m_mem m)) \<le> Suc (room (dom M2))"
    using load_stopped [OF w1(2), of elf eh phs lo hi] room elf lh unfolding pie_def by auto
  have d2: "dom (m_mem m) \<subseteq> dom M2" using w2(7) by (metis domIff subsetI)
  have stk2: "stk \<subseteq> dom M2" using stk d2 by (rule order_trans)
  obtain a M3 w3 where w3: "elfldr_payload_args pk lk pid w2 = Some (a, w3)" "stopped (m\<lparr>m_mem := M3\<rparr>) w3" "a \<noteq> 0"
    "\<forall>y \<in> dom M2 - stk. M3 y = M2 y" "dom M2 \<subseteq> dom M3" "range_at a 0x304 \<inter> dom M2 = {}"
    "payload_ready M3 a (resolves symb ''HoLVWNanBBc'') kfile (lk_data_base lk) socks pipes"
    using payload_args_ready [OF w2(3) _ page] room w2(8) stk2 by auto
  have sp0: "range_at ?sp 8 \<subseteq> dom (m_mem m)" using sp mapped_range [of 8] by simp
  then have sp3: "mapped M3 ?sp 8" using mapped_range [of 8 M3 ?sp] d2 w3(5) by auto
  obtain w4 where w4: "pt_setlong pk pid ?sp (r_rip r0) w3 = (Some (), w4)"
    "stopped (m\<lparr>m_mem := mem_write M3 ?sp (le_bytes 8 (r_rip r0))\<rparr>) w4"
    using setlong [OF w3(2), of ?sp] sp3 by auto
  let ?M4 = "mem_write M3 ?sp (le_bytes 8 (r_rip r0))"
  have v4: "auth w4 \<noteq> 0" "view w4 = m\<lparr>m_mem := ?M4\<rparr>" using w4(2) by (simp_all add: stopped_def)
  obtain w5 where w5: "pt_setregs pk pid (entry_regs (base + e_entry eh) a r0) w4 = (Some (), w5)"
    "leaves pk auth caps view ((view w4)\<lparr>m_regs := entry_regs (base + e_entry eh) a r0\<rparr>) w4 w5"
    using pt_setregs_view [OF laws v4(1)] by blast
  have v5: "auth w5 \<noteq> 0" "view w5 = m\<lparr>m_mem := ?M4, m_regs := entry_regs (base + e_entry eh) a r0\<rparr>"
    using v4 leaves_auth [OF w5(2)] leaves_view [OF w5(2)] by simp_all
  have M4: "?M4 y = M3 y" if "y \<notin> range_at ?sp 8" for y using mem_write_outside [of y ?sp "le_bytes 8 (r_rip r0)"] that by simp
  have li: "length i \<le> 2 ^ 64" using build_image_length [OF w2(4)] u64_less [of sz] by simp
  have "mem_read ?M4 base (length i) = mem_read M2 base (length i)"
  proof (rule mem_read_same [OF li], rule ballI)
    fix y assume "y \<in> range_at base (length i)"
    then have y: "y \<in> dom M2" "y \<notin> dom (m_mem m)" using w2(6) by blast+
    then have "y \<notin> range_at ?sp 8" "y \<notin> stk" using sp0 stk by blast+
    then show "?M4 y = M2 y" using M4 w3(4) y(1) by simp
  qed
  moreover have "payload_ready ?M4 a (resolves symb ''HoLVWNanBBc'') kfile (lk_data_base lk) socks pipes"
  proof -
    have "\<forall>y\<in>range_at a 0x304. ?M4 y = M3 y" using M4 sp0 d2 w3(6) by blast
    from payload_ready_cong [OF this] w3(7) show ?thesis by simp
  qed
  moreover have "?M4 y = m_mem m y" if "y \<in> dom (m_mem m)" "y \<notin> stk" "y \<notin> range_at ?sp 8" for y
  proof -
    have "y \<in> dom M2 - stk" using d2 that(1,2) by blast
    then show ?thesis using M4 [OF that(3)] w3(4) w2(7) [OF that(1)] by simp
  qed
  ultimately have "entry_state (resolves symb ''HoLVWNanBBc'') kfile (lk_data_base lk) socks pipes stk elf eh phs sz m base (view w5)"
    using w2(4,5) r(1) v5(2) unfolding entry_state_def by (intro exI [of _ a] exI [of _ i]) (simp add: entry_regs_def)
  moreover have "elfldr_prepare_exec pk lk pid elf w = Some (Ret (0, Some base), w5)"
    using w1(1) w2(1,2) w3(1,3) w4(1) w5(1) by (simp add: elfldr_prepare_exec_def)
  ultimately show ?thesis using v5(1) by blast
qed

text \<open>The descriptors and the capabilities.\<close>

lemma give_fd_stopped: "stopped m w \<Longrightarrow> \<exists>w'. give_fd pk pid fd std w = Some ((), w') \<and> stopped m w'"
proof (cases "fd < 0")
  case False
  assume st: "stopped m w"
  obtain fd' w1 where w1: "pt_rdup pk pid (pk_getpid pk w) fd w = Some (fd', w1)" "stopped m w1"
    using int_syscall [OF quiet(6) st] unfolding pt_rdup_def by blast
  obtain r2 w2 where w2: "pt_close pk pid std w1 = Some (r2, w2)" "stopped m w2"
    using int_syscall [OF quiet(4) w1(2)] unfolding pt_close_def by blast
  obtain r3 w3 where w3: "pt_dup2 pk pid fd' std w2 = Some (r3, w3)" "stopped m w3"
    using int_syscall [OF quiet(5) w2(2)] unfolding pt_dup2_def by blast
  obtain r4 w4 where w4: "pt_close pk pid fd' w3 = Some (r4, w4)" "stopped m w4"
    using int_syscall [OF quiet(4) w3(2)] unfolding pt_close_def by blast
  show ?thesis using False w1(1) w2(1) w3(1) w4 by (simp add: give_fd_def)
qed (simp add: give_fd_def)

lemma debug_ready:
  assumes st: "stopped m w" and room: "2 \<le> room (dom (m_mem m))" and page: "0x304 \<le> unat (lk_page lk)" "unat (lk_page lk) \<le> limit"
    and stk: "stk \<subseteq> dom (m_mem m)" and sp: "mapped (m_mem m) ((r_rsp r0 AND NOT 0xf) - 8) 8"
    and elf: "pie (lk_page lk) limit elf eh phs sz"
  shows "\<exists>base w'. elfldr_debug pk lk stdin_fd stdout_fd stderr_fd pid elf w = Some (Ret (0, Some base), w') \<and> auth w' \<noteq> 0 \<and> tc w' = tc w
    \<and> entry_state (resolves symb ''HoLVWNanBBc'') kfile (lk_data_base lk) socks pipes stk elf eh phs sz m base (view w')"
proof -
  obtain w2 where w2: "pk_set_caps pk pid privcaps w = (True, w2)" "stopped m w2"
    using set_caps [of privcaps w] st by (auto simp: stopped_def)
  obtain w3 where w3: "give_fd pk pid stdin_fd 0 w2 = Some ((), w3)" "stopped m w3" using give_fd_stopped [OF w2(2)] by blast
  obtain w4 where w4: "give_fd pk pid stdout_fd 1 w3 = Some ((), w4)" "stopped m w4" using give_fd_stopped [OF w3(2)] by blast
  obtain w5 where w5: "give_fd pk pid stderr_fd 2 w4 = Some ((), w5)" "stopped m w5" using give_fd_stopped [OF w4(2)] by blast
  obtain base w6 where w6: "elfldr_prepare_exec pk lk pid elf w5 = Some (Ret (0, Some base), w6)" "auth w6 \<noteq> 0"
    "entry_state (resolves symb ''HoLVWNanBBc'') kfile (lk_data_base lk) socks pipes stk elf eh phs sz m base (view w6)"
    using prepare_exec_ready [OF w5(2) room page stk sp elf] by blast
  obtain w7 where w7: "pk_set_caps pk pid (tc w) w6 = (True, w7)" "tc w7 = tc w" "view w7 = view w6" "auth w7 = auth w6"
    using set_caps [of "tc w" w6] by blast
  have "elfldr_debug pk lk stdin_fd stdout_fd stderr_fd pid elf w = Some (Ret (0, Some base), w7)"
    using got_caps [of w] w2(1) w3(1) w4(1) w5(1) w6(1) w7(1) by (simp add: elfldr_debug_def restore_caps_def)
  then show ?thesis using w6(2,3) w7(2-4) by (intro exI [of _ base] exI [of _ w7]) simp
qed

lemma exec_ready:
  assumes st: "stopped m w" and room: "2 \<le> room (dom (m_mem m))" and page: "0x304 \<le> unat (lk_page lk)" "unat (lk_page lk) \<le> limit"
    and stk: "stk \<subseteq> dom (m_mem m)" and sp: "mapped (m_mem m) ((r_rsp r0 AND NOT 0xf) - 8) 8"
    and elf: "pie (lk_page lk) limit elf eh phs sz"
    and detach: "\<forall>v. keeps_creds pk auth caps v (snd (pk_detach pk pid 0 v)) \<and> fst (pk_detach pk pid 0 v) = Some ()"
  shows "\<exists>base v. elfldr_exec pk lk stdin_fd stdout_fd stderr_fd pid elf w = Some (Ret 0, snd (pt_detach pk pid 0 v))
    \<and> fst (pt_detach pk pid 0 v) = Some () \<and> tc v = tc w
    \<and> entry_state (resolves symb ''HoLVWNanBBc'') kfile (lk_data_base lk) socks pipes stk elf eh phs sz m base (view v)"
proof -
  obtain base v where v: "elfldr_debug pk lk stdin_fd stdout_fd stderr_fd pid elf w = Some (Ret (0, Some base), v)" "auth v \<noteq> 0" "tc v = tc w"
    "entry_state (resolves symb ''HoLVWNanBBc'') kfile (lk_data_base lk) socks pipes stk elf eh phs sz m base (view v)"
    using debug_ready [OF st room page stk sp elf] by blast
  have c: "cred_laws pk auth caps view" using laws by (simp add: tracee_laws_def)
  have d: "fst (pt_detach pk pid 0 v) = Some ()"
    using sys_ptrace_call [of pk auth caps view v "pk_detach pk pid 0", OF c v(2)] detach unfolding pt_detach_def by (metis fst_conv)
  then have "elfldr_exec pk lk stdin_fd stdout_fd stderr_fd pid elf w = Some (Ret 0, snd (pt_detach pk pid 0 v))"
    using v(1) by (cases "pt_detach pk pid 0 v") (simp add: elfldr_exec_def)
  then show ?thesis using v(3,4) d by blast
qed

end

section \<open>A console with room for three mappings\<close>

text \<open>
  \<^verbatim>\<open>mmap\<close> gives the first of three places that is free and \<^verbatim>\<open>munmap\<close> frees it; sockets are all 5, \<^verbatim>\<open>pipe\<close> at \<open>0x9100\<close> stores 3 and 4, the
  function at \<open>0x9200\<close> returns the process parameters at \<open>0x400100\<close>, the other calls return 0.
\<close>

definition place :: "machine \<Rightarrow> u64" where
  "place m = (if m_mem m 0x10000000 = None then 0x10000000 else if m_mem m 0x20000000 = None then 0x20000000 else 0x30000000)"

definition boot_cpu :: "machine \<Rightarrow> machine" where
  "boot_cpu m =
     (let r = m_regs m; ret = (\<lambda>v mem. \<lparr>m_regs = r\<lparr>r_rax := v, r_rsp := r_rsp r + 8\<rparr>, m_mem = mem\<rparr>) in
      if r_rip r = 0x900a \<and> r_rax r = 477
      then ret (place m) (\<lambda>x. if unat (x - place m) < unat (r_rsi r) then Some 0 else m_mem m x)
      else if r_rip r = 0x900a \<and> r_rax r = 73 then ret 0 (\<lambda>x. if unat (x - r_rdi r) < unat (r_rsi r) then None else m_mem m x)
      else if r_rip r = 0x900a \<and> r_rax r = 97 then ret 5 (m_mem m)
      else if r_rip r = 0x9100 then ret 0 (mem_write (mem_write (m_mem m) (r_rdi r) (int_bytes 3)) (r_rdi r + 4) (int_bytes 4))
      else if r_rip r = 0x9200 then ret 0x400100 (m_mem m)
      else ret 0 (m_mem m))"

definition boot_lk :: "sim lk" where
  "boot_lk = sim_lk\<lparr>lk_environ := (\<lambda>w. [''PATH=/bin''])\<rparr>"

definition boot_symb :: "u64 \<Rightarrow> string \<Rightarrow> u64" where
  "boot_symb h nid = (if h = 1 then if nid = ''-Jp7F+pXxNg'' then 0x9100 else if nid = ''+2thxYZ4syk'' then 0x8000
                     else if nid = ''959qrazPIrg'' then 0x9200 else 0x9000 else 0)"

abbreviation boot_pk :: "sim pk" where
  "boot_pk \<equiv> sim_pk boot_cpu boot_symb"

abbreviation boot_area :: "u64 \<Rightarrow> u64 set" where
  "boot_area a \<equiv> range_at a 0x10000000"

definition boot_room :: "u64 set \<Rightarrow> nat" where
  "boot_room D =
     (if boot_area 0x30000000 \<inter> D \<noteq> {} then 0
      else if 0x10000000 \<notin> D then (if (boot_area 0x10000000 \<union> boot_area 0x20000000) \<inter> D = {} then 3 else 0)
      else if 0x20000000 \<notin> D then (if boot_area 0x20000000 \<inter> D = {} then 2 else 0) else 1)"

lemma boot_syscall:
  "m_regs m = sim_regs \<Longrightarrow> remote_call boot_cpu (Suc 0) (syscall_regs sim_regs 0x900a sysno a) m =
     Some (if word_of_int sysno = (477 :: u64)
           then (place m, m\<lparr>m_mem := (\<lambda>x. if unat (x - place m) < unat (a 1) then Some 0 else m_mem m x)\<rparr>)
           else if word_of_int sysno = (73 :: u64)
           then (0, m\<lparr>m_mem := (\<lambda>x. if unat (x - a 0) < unat (a 1) then None else m_mem m x)\<rparr>)
           else (if word_of_int sysno = (97 :: u64) then 5 else 0, m))"
  by (cases m) (auto simp: remote_call_def machine_run.simps boot_cpu_def syscall_regs_def word_sle_eq Let_def sim_regs_def place_def)

lemma boot_answers:
  "word_of_int sysno \<noteq> (477 :: u64) \<Longrightarrow> word_of_int sysno \<noteq> (73 :: u64) \<Longrightarrow> P (if word_of_int sysno = (97 :: u64) then 5 else 0) \<Longrightarrow>
    answers boot_pk boot_cpu boot_symb sim_regs sysno P"
  unfolding answers_def using boot_syscall [of _ sysno] by (fastforce simp: gadget_def boot_symb_def)

lemma area_gap:
  assumes "unat a + n \<le> unat b" "unat b + n' \<le> 2 ^ 64"
  shows "range_at a n \<inter> range_at b n' = {}"
proof -
  have "unat a + n \<le> 2 ^ 64" using assms by simp
  then have "unat y < unat a + n" if "y \<in> range_at a n" for y
    using unat_offset [of "unat a" n y 0] that by (simp add: range_at_def)
  moreover have "unat b \<le> unat y" if "y \<in> range_at b n'" for y
    using unat_offset [of "unat b" n' y 0] that assms by (simp add: range_at_def)
  ultimately show ?thesis using assms(1) by fastforce
qed

lemma boot_gaps:
  "boot_area 0x10000000 \<inter> boot_area 0x20000000 = {}" "boot_area 0x10000000 \<inter> boot_area 0x30000000 = {}"
  "boot_area 0x20000000 \<inter> boot_area 0x30000000 = {}"
  by (rule area_gap; simp)+

lemma area_base: "a \<in> boot_area a"
  by (simp add: range_at_def)

lemma boot_room_step:
  assumes room: "0 < boot_room D" and b: "b = (if 0x10000000 \<notin> D then 0x10000000 else if 0x20000000 \<notin> D then 0x20000000 else 0x30000000)"
    and R: "b \<in> R" "R \<subseteq> boot_area b"
  shows "boot_room D \<le> Suc (boot_room (D \<union> R))"
proof -
  have C: "boot_area 0x30000000 \<inter> D = {}" using room by (auto simp: boot_room_def split: if_splits)
  consider (first) "0x10000000 \<notin> D" | (second) "0x10000000 \<in> D" "0x20000000 \<notin> D" | (third) "0x10000000 \<in> D" "0x20000000 \<in> D" by blast
  then show ?thesis
  proof cases
    case first
    then have AB: "boot_area 0x10000000 \<inter> D = {}" "boot_area 0x20000000 \<inter> D = {}"
      using room by (auto simp: boot_room_def Int_Un_distrib2 split: if_splits)
    have "b = 0x10000000" using b first by simp
    then have "0x10000000 \<in> D \<union> R" "boot_area 0x20000000 \<inter> (D \<union> R) = {}" "boot_area 0x30000000 \<inter> (D \<union> R) = {}"
      using R AB C boot_gaps by auto
    moreover from this(2) have "0x20000000 \<notin> D \<union> R" using area_base [of "0x20000000"] by blast
    ultimately have "boot_room (D \<union> R) = 2" by (simp add: boot_room_def)
    moreover have "boot_room D = 3" using first C AB by (simp add: boot_room_def Int_Un_distrib2)
    ultimately show ?thesis by simp
  next
    case second
    then have B: "boot_area 0x20000000 \<inter> D = {}" using room by (auto simp: boot_room_def split: if_splits)
    have "b = 0x20000000" using b second by simp
    then have "0x10000000 \<in> D \<union> R" "0x20000000 \<in> D \<union> R" "boot_area 0x30000000 \<inter> (D \<union> R) = {}"
      using R second C boot_gaps by auto
    then have "boot_room (D \<union> R) = 1" by (simp add: boot_room_def)
    moreover have "boot_room D = 2" using second C B by (simp add: boot_room_def)
    ultimately show ?thesis by simp
  next
    case third
    then show ?thesis using C by (simp add: boot_room_def)
  qed
qed

lemma boot_maps: "maps boot_pk boot_cpu boot_symb sim_regs boot_room 0x10000000"
  unfolding maps_def
proof (intro allI impI)
  fix m :: machine and len :: u64 and pr fl g
  assume r: "m_regs m = sim_regs" and room: "0 < boot_room (dom (m_mem m))" and len: "0 < unat len" "unat len \<le> 0x10000000"
  let ?b = "place m" and ?a = "given_args boot_pk [L64 0, L64 len, I32 pr, I32 fl, I32 (- 1), L64 0] g"
  let ?mem = "\<lambda>x. if unat (x - ?b) < unat len then Some 0 else m_mem m x"
  have sub: "range_at a (unat len) \<subseteq> range_at a 0x10000000" for a using len by (auto simp: range_at_def)
  have fr: "range_at ?b 0x10000000 \<inter> dom (m_mem m) = {}"
    using room by (auto simp: boot_room_def place_def split: if_splits)
  have d: "dom ?mem = dom (m_mem m) \<union> range_at ?b (unat len)" by (auto simp: range_at_def split: if_splits)
  have "boot_room (dom (m_mem m)) \<le> Suc (boot_room (dom (m_mem m) \<union> range_at ?b (unat len)))"
    by (rule boot_room_step) (use room len sub [of ?b] in \<open>auto simp: place_def domIff range_at_def\<close>)
  then have "boot_room (dom (m_mem m)) \<le> Suc (boot_room (dom ?mem))" unfolding d .
  moreover have "remote_call boot_cpu (Suc 0) (syscall_regs sim_regs (gadget boot_symb + 0xa) SYS_mmap ?a) m = Some (?b, m\<lparr>m_mem := ?mem\<rparr>)"
    using boot_syscall [OF r, of SYS_mmap ?a] by (simp add: gadget_def boot_symb_def SYS_mmap_def given_args_def)
  moreover have "?b \<noteq> 0" "unat ?b + unat len < 2 ^ 64" using len by (simp_all add: place_def)
  ultimately show "\<exists>k b mem. remote_call boot_cpu k (syscall_regs sim_regs (gadget boot_symb + 0xa) SYS_mmap ?a) m = Some (b, m\<lparr>m_mem := mem\<rparr>)
      \<and> b \<noteq> 0 \<and> unat b + unat len < 2 ^ 64 \<and> range_at b (unat len) \<inter> dom (m_mem m) = {}
      \<and> (\<forall>y. mem y = (if y \<in> range_at b (unat len) then Some 0 else m_mem m y)) \<and> boot_room (dom (m_mem m)) \<le> Suc (boot_room (dom mem))"
    using fr sub [of ?b] by (intro exI [of _ "Suc 0"] exI [of _ ?b] exI [of _ ?mem]) (auto simp: range_at_def)
qed

lemma boot_makes_pipe: "makes_pipe boot_pk boot_cpu (resolves boot_symb ''-Jp7F+pXxNg'') sim_regs {} {(3, 4)}"
  unfolding makes_pipe_def
proof (intro allI impI)
  fix m :: machine and b g
  assume r: "m_regs m = sim_regs" and b: "mapped (m_mem m) b 8"
  let ?mem = "mem_write (mem_write (m_mem m) b (int_bytes 3)) (b + 4) (int_bytes 4)"
  have f: "resolves boot_symb ''-Jp7F+pXxNg'' = 0x9100" by (simp add: resolves_def boot_symb_def)
  have "remote_call boot_cpu (Suc 0) (call_regs sim_regs 0x9100 (given_args boot_pk [L64 b] g)) m = Some (0, m\<lparr>m_mem := ?mem\<rparr>)"
    using r by (cases m) (auto simp: remote_call_def machine_run.simps boot_cpu_def call_regs_def word_sle_eq Let_def sim_regs_def given_args_def)
  moreover have "within (range_at b 8) (m_mem m) ?mem"
  proof (rule within_trans)
    have S: "range_at b 8 \<subseteq> dom (m_mem m)" using b mapped_range [of 8] by simp
    show "within (range_at b 8) (m_mem m) (mem_write (m_mem m) b (int_bytes 3))"
      using S by (intro within_write) (simp_all add: range_at_sub0)
    then have "range_at b 8 \<subseteq> dom (mem_write (m_mem m) b (int_bytes 3))" using S by (simp add: within_def)
    then show "within (range_at b 8) (mem_write (m_mem m) b (int_bytes 3)) ?mem"
      by (intro within_write) (simp_all add: range_at_sub)
  qed
  moreover have "int_at ?mem b = 3" "int_at ?mem (b + 4) = 4" by (simp_all add: at_others to_int32_id)
  ultimately show "\<exists>k mem p. remote_call boot_cpu k (call_regs sim_regs (resolves boot_symb ''-Jp7F+pXxNg'') (given_args boot_pk [L64 b] g)) m
        = Some (0, m\<lparr>m_mem := mem\<rparr>)
      \<and> (int_at mem b, int_at mem (b + 4)) = p \<and> p \<in> {(3, 4)} \<and> dom mem = dom (m_mem m)
      \<and> (\<forall>y. y \<notin> {} \<longrightarrow> y \<notin> range_at b 8 \<longrightarrow> mem y = m_mem m y)"
    unfolding f by (intro exI [of _ "Suc 0"] exI [of _ ?mem] exI [of _ "(3, 4)"]) (simp add: within_def)
qed

interpretation boot: stopped_process boot_pk boot_lk 101 s_auth s_caps s_mach s_caps boot_cpu boot_symb sim_regs "{}" boot_room "0x10000000"
    "{5}" "{(3, 4)}" "\<lambda>f. 0x777"
proof
  show "tracee_laws boot_pk 101 s_auth s_caps s_mach boot_cpu boot_symb" by (rule sim_laws)
  show "lk_laws boot_pk boot_lk 101 s_auth s_caps s_mach" by (simp add: lk_laws_def boot_lk_def sim_lk_def leaves_refl)
  show "gadget boot_symb \<noteq> 0" by (simp add: gadget_def boot_symb_def)
  show "maps boot_pk boot_cpu boot_symb sim_regs boot_room 0x10000000" by (rule boot_maps)
  show "makes_pipe boot_pk boot_cpu (resolves boot_symb ''-Jp7F+pXxNg'') sim_regs {} {(3, 4)}" by (rule boot_makes_pipe)
  show "answers boot_pk boot_cpu boot_symb sim_regs SYS_socket (\<lambda>v. to_int32 (uint v) \<in> {5})"
    by (rule boot_answers) (simp_all add: SYS_socket_def to_int32_id)
qed (simp_all add: boot_answers SYS_mprotect_def SYS_msync_def SYS_setsockopt_def SYS_close_def SYS_dup2_def boot_lk_def sim_lk_def leaves_refl,
    simp_all add: keeps_creds_def int_at_def int_bytes_def sim_pk_def)

text \<open>Property C6.
  \<^verbatim>\<open>execelf\<close> from the traced process to the running ELF: on a process that is stopped, answers the loader's system calls and has
  room for two mappings, \<^verbatim>\<open>elfldr_exec\<close> ends and returns 0 for every position-independent file whose image can be built, and it
  lets the process go in a state \<open>v\<close> in which it has its own capabilities again and stands at the entry of the file
  (\<open>entry_state\<close>): the relocated image is at the address the kernel chose, \<^verbatim>\<open>rdi\<close> points to an argument block with the
  address of \<^verbatim>\<open>getpid\<close>, its two sockets, its pipe, the kernel's address of that pipe and of the kernel data, the stack holds the
  address to return to, and all other memory, but for the stack below, is untouched.\<close>

theorem exec_starts_program:
  assumes "stopped_process pk lk pid auth caps view tc cpu symb r0 stk room limit socks pipes kfile"
    and "auth w \<noteq> 0" "m_regs (view w) = r0" "2 \<le> room (dom (m_mem (view w)))" "stk \<subseteq> dom (m_mem (view w))"
    and "mapped (m_mem (view w)) ((r_rsp r0 AND NOT 0xf) - 8) 8"
    and "0x304 \<le> unat (lk_page lk)" "unat (lk_page lk) \<le> limit" "pie (lk_page lk) limit elf eh phs sz"
    and "\<forall>v. keeps_creds pk auth caps v (snd (pk_detach pk pid 0 v)) \<and> fst (pk_detach pk pid 0 v) = Some ()"
  shows "\<exists>base v. elfldr_exec pk lk stdin_fd stdout_fd stderr_fd pid elf w = Some (Ret 0, snd (pt_detach pk pid 0 v))
    \<and> fst (pt_detach pk pid 0 v) = Some () \<and> tc v = tc w
    \<and> entry_state (resolves symb ''HoLVWNanBBc'') kfile (lk_data_base lk) socks pipes stk elf eh phs sz (view w) base (view v)"
proof -
  have "stopped_process.stopped auth view r0 (view w) w"
    using assms(2,3) by (simp add: stopped_process.stopped_def [OF assms(1)])
  from stopped_process.exec_ready [OF assms(1) this assms(4,7,8,5,6,9,10)] show ?thesis .
qed

text \<open>Its memory: zeros, but for two pointers in the process parameters, to \<open>0x400200\<close> and \<open>0x400300\<close>.\<close>

definition boot_mem :: "u64 \<rightharpoonup> byte" where
  "boot_mem x =
     (if x \<in> range_at 0x8000 8 \<union> range_at 0x400000 0x1000 \<union> range_at 0x7ffef000 0x1000
      then Some (if x = 0x400139 then 2 else if x = 0x400211 then 3 else if x = 0x40013a \<or> x = 0x400212 then 0x40 else 0)
      else None)"

definition boot_sim :: sim where
  "boot_sim = sim0\<lparr>s_mach := \<lparr>m_regs = sim_regs, m_mem = boot_mem\<rparr>\<rparr>"

lemma boot_sim_dom: "dom (m_mem (s_mach boot_sim)) = range_at 0x8000 8 \<union> range_at 0x400000 0x1000 \<union> range_at 0x7ffef000 0x1000"
  by (auto simp: boot_sim_def boot_mem_def split: if_splits)

lemma boot_sim_room: "boot_room (dom (m_mem (s_mach boot_sim))) = 3"
proof -
  have g: "range_at x n \<inter> boot_area a = {}" if "unat x + n \<le> unat a" "unat a + 0x10000000 \<le> 2 ^ 64" for x a n
    using area_gap [of x n a "0x10000000"] that by simp
  have h: "boot_area a \<inter> range_at 0x7ffef000 0x1000 = {}" if "unat a + 0x10000000 \<le> 0x7ffef000" for a
    using area_gap [of a "0x10000000" "0x7ffef000" "0x1000"] that by simp
  have "boot_area a \<inter> dom (m_mem (s_mach boot_sim)) = {}" if "a \<in> {0x10000000, 0x20000000, 0x30000000}" for a
    using g [of "0x8000" 8 a] g [of "0x400000" "0x1000" a] h [of a] that unfolding boot_sim_dom by auto
  then have "boot_area 0x10000000 \<inter> dom (m_mem (s_mach boot_sim)) = {}" "boot_area 0x20000000 \<inter> dom (m_mem (s_mach boot_sim)) = {}"
    "boot_area 0x30000000 \<inter> dom (m_mem (s_mach boot_sim)) = {}" by simp_all
  moreover from this(1) have "0x10000000 \<notin> dom (m_mem (s_mach boot_sim))" using area_base [of "0x10000000"] by blast
  ultimately show ?thesis by (simp add: boot_room_def Int_Un_distrib2)
qed

lemma boot_sim_stack: "mapped (m_mem (s_mach boot_sim)) ((r_rsp sim_regs AND NOT 0xf) - 8) 8"
  using mapped_range [of 8 "m_mem (s_mach boot_sim)"] range_at_sub [of "0xff8" 8 "0x1000" "0x7ffef000"]
  by (auto simp: boot_sim_dom sim_regs_def)

lemma boot_sim_stopped: "s_auth boot_sim \<noteq> 0" "m_regs (s_mach boot_sim) = sim_regs"
  by (simp_all add: boot_sim_def sim0_def)

lemma tiny_pie: "pie (lk_page boot_lk) 0x10000000 (tiny_elf ET_DYN 0) (tiny_ehdr ET_DYN 0) [tiny_phdr 0] 0x4000"
  using tiny_elf_ehdr [of ET_DYN 0] tiny_elf_phdrs [of ET_DYN 0] tiny_range [of 0] tiny_image [of ET_DYN]
  by (simp add: pie_def tiny_ehdr_def elf_magic_def boot_lk_def sim_lk_def TRUNC_PG_def ROUND_PG_def)

lemma boot_detach: "\<forall>v. keeps_creds boot_pk s_auth s_caps v (snd (pk_detach boot_pk 101 0 v)) \<and> fst (pk_detach boot_pk 101 0 v) = Some ()"
  by (simp add: keeps_creds_def) (simp add: sim_pk_def)

theorem exec_starts_program_witness:
  "\<exists>base args v. elfldr_exec boot_pk boot_lk 0 1 2 101 (tiny_elf ET_DYN 0) boot_sim = Some (Ret 0, snd (pt_detach boot_pk 101 0 v))
    \<and> m_regs (s_mach v) = sim_regs\<lparr>r_rsp := 0x7ffefff8, r_rip := base + 4, r_rdi := args\<rparr>
    \<and> mem_read (m_mem (s_mach v)) base 0x4000 = [1, 2, 3, 4, 5, 6, 7, 8] @ replicate 0x3ff8 0
    \<and> int_at (m_mem (s_mach v)) (args + 0x100) = 3 \<and> int_at (m_mem (s_mach v)) (args + 0x104) = 4
    \<and> pointer_at (m_mem (s_mach v)) 0x7ffefff8 = 0x400000"
proof -
  obtain base v where v: "elfldr_exec boot_pk boot_lk 0 1 2 101 (tiny_elf ET_DYN 0) boot_sim = Some (Ret 0, snd (pt_detach boot_pk 101 0 v))"
    "entry_state (resolves boot_symb ''HoLVWNanBBc'') (\<lambda>f. 0x777) (lk_data_base boot_lk) {5} {(3, 4)} {} (tiny_elf ET_DYN 0) (tiny_ehdr ET_DYN 0)
       [tiny_phdr 0] 0x4000 (s_mach boot_sim) base (s_mach v)"
    using exec_starts_program [OF boot.stopped_process_axioms boot_sim_stopped _ _ boot_sim_stack _ _ tiny_pie boot_detach, of 0 1 2]
    by (auto simp: boot_lk_def sim_lk_def boot_sim_room)
  from v(2) obtain args where "m_regs (s_mach v) = sim_regs\<lparr>r_rsp := 0x7ffefff8, r_rip := base + 4, r_rdi := args\<rparr>"
    "mem_read (m_mem (s_mach v)) base 0x4000 = [1, 2, 3, 4, 5, 6, 7, 8] @ replicate 0x3ff8 0"
    "int_at (m_mem (s_mach v)) (args + 0x100) = 3" "int_at (m_mem (s_mach v)) (args + 0x104) = 4"
    "pointer_at (m_mem (s_mach v)) 0x7ffefff8 = 0x400000"
    using tiny_image [of ET_DYN base] boot_sim_stopped(2)
    by (auto simp: entry_state_def payload_ready_def entry_regs_def tiny_ehdr_def sim_regs_def)
  then show ?thesis using v(1) by blast
qed

end
