(* ===== verification/Elf_Run.thy ===== *)
theory Elf_Run
  imports Elf_Start
begin

unbundle bit_operations_syntax

text \<open>
  A new process from the stop at its \<^verbatim>\<open>main\<close> to the entry of the ELF: its name, environment and working directory, and
  then what \<open>Elf_Start\<close> shows of the loader.
\<close>

section \<open>A process to set up\<close>

text \<open>\<^verbatim>\<open>munmap\<close> takes the range out of the address space.\<close>

definition unmaps :: "'w pk \<Rightarrow> (machine \<Rightarrow> machine) \<Rightarrow> (u64 \<Rightarrow> string \<Rightarrow> u64) \<Rightarrow> reg \<Rightarrow> bool" where
  "unmaps pk cpu symb r0 \<longleftrightarrow>
     (\<forall>m a len g. m_regs m = r0 \<longrightarrow>
        (\<exists>k mem. remote_call cpu k (syscall_regs r0 (gadget symb + 0xa) SYS_munmap (given_args pk [L64 a, L64 len] g)) m
              = Some (0, m\<lparr>m_mem := mem\<rparr>)
           \<and> (\<forall>y. mem y = (if y \<in> range_at a (unat len) then None else m_mem m y))))"

text \<open>
  A stopped process that also answers \<^verbatim>\<open>munmap\<close>, \<^verbatim>\<open>chdir\<close> and \<^verbatim>\<open>thr_set_name\<close>; \<open>envp\<close> is the environment of the loader, and
  \<open>page\<close> its page size.
\<close>

locale spawned_process = stopped_process +
  fixes envp :: "string list" and k :: nat
  assumes unmaps: "unmaps pk cpu symb r0"
    and quiet2: "answers pk cpu symb r0 SYS_chdir (\<lambda>v. True)" "answers pk cpu symb r0 SYS_thr_set_name (\<lambda>v. True)"
    and env: "lk_environ lk w = envp"
    and set_uid: "leaves pk auth caps view (view w) w (snd (lk_set_uid lk pid u w))"
    and put_error: "leaves pk auth caps view (view w) w (pk_perror pk s w)"
    and page: "lk_page lk = 2 ^ k" "k < 64"
begin

lemma munmap:
  assumes "stopped m w"
  shows "\<exists>mem w'. pt_munmap pk pid a len w = Some (0, w') \<and> stopped (m\<lparr>m_mem := mem\<rparr>) w'
    \<and> (\<forall>y. mem y = (if y \<in> range_at a (unat len) then None else m_mem m y))"
proof -
  let ?Q = "\<lambda>v m'. v = 0 \<and> (\<exists>mem. m' = m\<lparr>m_mem := mem\<rparr> \<and> (\<forall>y. mem y = (if y \<in> range_at a (unat len) then None else m_mem m y)))"
  have v: "view w = m" "m_regs m = r0" "auth w \<noteq> 0" using assms by (simp_all add: stopped_def)
  have r: "\<forall>g. \<exists>k v m'. remote_call cpu k (syscall_regs (m_regs (view w)) (gadget symb + 0xa) SYS_munmap (given_args pk [L64 a, L64 len] g)) (view w)
      = Some (v, m') \<and> ?Q v m'"
  proof
    fix g
    obtain k mem where "remote_call cpu k (syscall_regs r0 (gadget symb + 0xa) SYS_munmap (given_args pk [L64 a, L64 len] g)) m
        = Some (0, m\<lparr>m_mem := mem\<rparr>)" "\<forall>y. mem y = (if y \<in> range_at a (unat len) then None else m_mem m y)"
      using unmaps [unfolded unmaps_def, rule_format, OF v(2), of a len g] by blast
    then show "\<exists>k v m'. remote_call cpu k (syscall_regs (m_regs (view w)) (gadget symb + 0xa) SYS_munmap (given_args pk [L64 a, L64 len] g)) (view w)
      = Some (v, m') \<and> ?Q v m'" unfolding v(1,2) by (intro exI [of _ k] exI [of _ 0] exI [of _ "m\<lparr>m_mem := mem\<rparr>"]) blast
  qed
  from pt_syscall_some [OF laws v(3) gadget_def gadget r] obtain w' m' where
    m': "pt_syscall pk pid SYS_munmap [L64 a, L64 len] w = Some (0, w')" "leaves pk auth caps view m' w w'" "?Q 0 m'" by blast
  from m'(3) obtain mem where mem: "m' = m\<lparr>m_mem := mem\<rparr>" "\<forall>y. mem y = (if y \<in> range_at a (unat len) then None else m_mem m y)" by blast
  have "stopped (m\<lparr>m_mem := mem\<rparr>) w'" using stopped_leaves [OF assms m'(2)] mem(1) v(2) by simp
  moreover have "pt_munmap pk pid a len w = Some (0, w')" using m'(1) by (simp add: pt_munmap_def as_int_def to_int32_def)
  ultimately show ?thesis using mem(2) by blast
qed

lemma getint_any:
  assumes "stopped m w"
  shows "\<exists>v w'. pt_getint pk pid a w = (v, w') \<and> stopped m w'"
proof -
  have c: "cred_laws pk auth caps view" using laws by (simp add: tracee_laws_def)
  have a: "auth w \<noteq> 0" "view w = m" "m_regs m = r0" using assms by (simp_all add: stopped_def)
  obtain v w' where w': "view v = view w" "sys_ptrace pk (pk_read_d pk pid a) w = (fst (pk_read_d pk pid a v), w')"
    "keeps_creds pk auth caps w w'" "view w' = view (snd (pk_read_d pk pid a v))"
    using sys_ptrace_call [of pk auth caps view w "pk_read_d pk pid a", OF c a(1) read_d(1)] by metis
  then have "stopped m w'" using a read_d(2) by (simp add: stopped_def keeps_creds_def)
  then show ?thesis using w'(2) by (cases "fst (pk_read_d pk pid a v)") (simp_all add: pt_getint_def)
qed

lemma copyin:
  assumes "stopped m w" "mapped (m_mem m) a (length bs)"
  shows "\<exists>w'. pt_copyin pk pid bs a w = (Some (), w') \<and> stopped (m\<lparr>m_mem := mem_write (m_mem m) a bs\<rparr>) w'"
  using pt_copyin_view [OF laws, of w a bs] stopped_leaves [OF assms(1)] assms by (auto simp: stopped_def)

text \<open>A string in a page that is given back: the process is as before.\<close>

lemma with_string_stopped:
  assumes st: "stopped m w" and room: "0 < room (dom (m_mem m))" and len: "length s < unat (lk_page lk)" "unat (lk_page lk) \<le> limit"
    and call: "\<And>b m v. stopped m v \<Longrightarrow> \<exists>r v'. call b v = Some (r, v') \<and> stopped m v'"
  shows "\<exists>w'. with_string pk lk pid s call w = Some (0, w') \<and> stopped m w'"
proof -
  let ?n = "unat (lk_page lk)"
  obtain b M1 w1 where w1: "pt_mmap pk pid 0 (lk_page lk) (PROT_READ OR PROT_WRITE) (MAP_ANONYMOUS OR MAP_PRIVATE) (- 1) 0 w = Some (b, w1)"
    "stopped (m\<lparr>m_mem := M1\<rparr>) w1" "b \<noteq> - 1" "range_at b ?n \<inter> dom (m_mem m) = {}"
    "\<And>y. M1 y = (if y \<in> range_at b ?n then Some 0 else m_mem m y)"
    using mmap [OF st room, of "lk_page lk"] len by fastforce
  have lim: "?n \<le> 2 ^ 64" using u64_less [of "lk_page lk"] by simp
  have sub: "range_at b (length s + 1) \<subseteq> range_at b ?n" using range_at_sub0 [of "length s + 1" ?n b] len(1) lim by simp
  have "mapped M1 b (length s + 1)" using mapped_range [of "length s + 1" M1 b] sub w1(5) len(1) lim by auto
  then obtain w2 where w2: "pt_copyin pk pid (cstr_bytes s) b w1 = (Some (), w2)"
    "stopped (m\<lparr>m_mem := mem_write M1 b (cstr_bytes s)\<rparr>) w2"
    using copyin [OF w1(2), of b "cstr_bytes s"] by auto
  obtain r w3 where w3: "call b w2 = Some (r, w3)" "stopped (m\<lparr>m_mem := mem_write M1 b (cstr_bytes s)\<rparr>) w3" using call [OF w2(2)] by blast
  obtain r' w4 where w4: "pt_msync pk pid b (lk_page lk) MS_SYNC w3 = Some (r', w4)" "stopped (m\<lparr>m_mem := mem_write M1 b (cstr_bytes s)\<rparr>) w4"
    using int_syscall [OF quiet(2) w3(2)] unfolding pt_msync_def by blast
  obtain M5 w5 where w5: "pt_munmap pk pid b (lk_page lk) w4 = Some (0, w5)" "stopped (m\<lparr>m_mem := M5\<rparr>) w5"
    "\<And>y. M5 y = (if y \<in> range_at b ?n then None else mem_write M1 b (cstr_bytes s) y)"
    using munmap [OF w4(2), of b "lk_page lk"] by auto
  have "M5 y = m_mem m y" for y
  proof (cases "y \<in> range_at b ?n")
    case True
    then have "y \<notin> dom (m_mem m)" using w1(4) by blast
    then show ?thesis using True w5(3) [of y] by (simp add: domIff)
  next
    case False
    then have "y \<notin> range_at b (length (cstr_bytes s))" using sub by auto
    then show ?thesis using False w5(3) [of y] w1(5) [of y] by (simp add: mem_write_outside)
  qed
  then have "M5 = m_mem m" by (rule ext)
  then have "m\<lparr>m_mem := M5\<rparr> = m" by simp
  then show ?thesis using w1(1,3) w2(1) w3(1) w4(1) w5(1,2) by (simp add: with_string_def)
qed

lemma set_procname:
  assumes "stopped m w" "0 < room (dom (m_mem m))" "length s < unat (lk_page lk)" "unat (lk_page lk) \<le> limit"
  shows "\<exists>w'. elfldr_set_procname pk lk pid s w = Some (0, w') \<and> stopped m w'"
  unfolding elfldr_set_procname_def
  by (rule with_string_stopped [OF assms]) (use syscall_answers [OF quiet2(2)] in blast)

lemma set_cwd:
  assumes "stopped m w" "0 < room (dom (m_mem m))" "length (case d of None \<Rightarrow> ''/'' | Some d \<Rightarrow> d) < unat (lk_page lk)" "unat (lk_page lk) \<le> limit"
  shows "\<exists>w'. elfldr_set_cwd pk lk pid d w = Some (0, w') \<and> stopped m w'"
  unfolding elfldr_set_cwd_def
  by (rule with_string_stopped [OF assms]) (use syscall_answers [OF quiet2(1)] in blast)

text \<open>The environment.\<close>

lemma set_environ_stopped:
  assumes st: "stopped m w" and room: "0 < room (dom (m_mem m))" and ne: "envp \<noteq> []"
    and sz: "(length envp + 1) * 8 + strings_len envp + 2 ^ k \<le> 2 ^ 64" "unat (environ_size (lk_page lk) envp) \<le> limit"
    and ea: "ea = resolves symb ''+2thxYZ4syk''" "ea \<noteq> 0" "range_at ea 8 \<subseteq> dom (m_mem m)"
  shows "\<exists>a M w'. elfldr_set_environ pk lk pid envp w = Some (0, w') \<and> stopped (m\<lparr>m_mem := M\<rparr>) w'
    \<and> pointer_at M ea = a \<and> env_block M a envp \<and> (\<forall>y \<in> dom (m_mem m) - range_at ea 8. M y = m_mem m y)
    \<and> range_at a (unat (environ_size (lk_page lk) envp)) \<inter> dom (m_mem m) = {} \<and> dom (m_mem m) \<subseteq> dom M
    \<and> range_at a (unat (environ_size (lk_page lk) envp)) \<subseteq> dom M
    \<and> room (dom (m_mem m)) \<le> Suc (room (dom M))"
proof -
  let ?n = "unat (environ_size (lk_page lk) envp)"
  have pos: "0 < ?n" using environ_fits [OF page(2) sz(1)] by (simp add: page(1))
  obtain a M1 w1 where w1: "pt_mmap pk pid 0 (environ_size (lk_page lk) envp) 3 0x1002 (- 1) 0 w = Some (a, w1)"
    "stopped (m\<lparr>m_mem := M1\<rparr>) w1" "a \<noteq> - 1" "range_at a ?n \<inter> dom (m_mem m) = {}"
    "\<And>y. M1 y = (if y \<in> range_at a ?n then Some 0 else m_mem m y)" "room (dom (m_mem m)) \<le> Suc (room (dom M1))"
    using mmap [OF st room pos sz(2), of 3 "0x1002"] by blast
  have v1: "auth w1 \<noteq> 0" "m_mem (view w1) = M1" "m_regs (view w1) = r0" using w1(2) by (simp_all add: stopped_def)
  have ma: "mapped M1 a ?n" using mapped_range [of ?n M1 a] w1(5) u64_less [of "environ_size (lk_page lk) envp"] by auto
  have me: "mapped M1 ea 8" using mapped_range [of 8 M1 ea] ea(3) w1(5) by (auto simp: domIff subset_iff)
  have far: "\<forall>i < 8. ?n \<le> unat (ea + of_nat i - a)"
  proof (intro allI impI)
    fix i :: nat assume "i < 8"
    then have "ea + of_nat i \<in> range_at ea 8" by (simp add: range_at_def unat_of_nat)
    then have "ea + of_nat i \<notin> range_at a ?n" using ea(3) w1(4) by blast
    then show "?n \<le> unat (ea + of_nat i - a)" by (simp add: range_at_def)
  qed
  from set_environ_ok [OF laws page sz(1) ne, of w a w1 ea] w1(1,3) v1 ma me far ea(1,2)
  obtain w' where w': "elfldr_set_environ pk lk pid envp w = Some (0, w')" "leaves pk auth caps view (view w') w1 w'"
    "pointer_at (m_mem (view w')) ea = a" "env_block (m_mem (view w')) a envp" "m_regs (view w') = r0"
    "\<And>y. ?n \<le> unat (y - a) \<Longrightarrow> 8 \<le> unat (y - ea) \<Longrightarrow> m_mem (view w') y = M1 y" "mapped (m_mem (view w')) a ?n"
    "mapped (m_mem (view w')) ea 8"
    by (auto simp: page(1) resolves_def)
  let ?M = "m_mem (view w')"
  have n: "?n \<le> 2 ^ 64" using u64_less [of "environ_size (lk_page lk) envp"] by simp
  have in_M: "range_at a ?n \<subseteq> dom ?M" "range_at ea 8 \<subseteq> dom ?M" using w'(7,8) mapped_range n by simp_all
  have in_M1: "range_at a ?n \<subseteq> dom M1" "dom (m_mem m) \<subseteq> dom M1" using w1(5) by (auto simp: domIff)
  have out: "?M y = M1 y" if "y \<notin> range_at a ?n" "y \<notin> range_at ea 8" for y using w'(6) [of y] that by (simp add: range_at_def)
  have ea1: "range_at ea 8 \<subseteq> dom M1" using ea(3) in_M1(2) by (rule order_trans)
  have "y \<in> dom ?M \<longleftrightarrow> y \<in> dom M1" for y
  proof (cases "y \<in> range_at a ?n \<or> y \<in> range_at ea 8")
    case True
    then show ?thesis using in_M in_M1(1) ea1 by blast
  qed (use out in \<open>simp add: domIff\<close>)
  then have d: "dom ?M = dom M1" by blast
  have "view w' = m\<lparr>m_mem := ?M\<rparr>" using w'(5) st by (cases "view w'"; cases m) (simp add: stopped_def)
  moreover have "auth w' \<noteq> 0" "m_regs (m\<lparr>m_mem := ?M\<rparr>) = r0" using leaves_auth [OF w'(2)] v1(1) st by (simp_all add: stopped_def)
  ultimately have "stopped (m\<lparr>m_mem := ?M\<rparr>) w'" unfolding stopped_def by blast
  moreover have "?M y = m_mem m y" if "y \<in> dom (m_mem m)" "y \<notin> range_at ea 8" for y
  proof -
    have "y \<notin> range_at a ?n" using that(1) w1(4) by blast
    then show ?thesis using out [OF _ that(2)] w1(5) by simp
  qed
  ultimately show ?thesis using w'(1,3,4) w1(4,6) in_M(1) in_M1(2) d
    by (intro exI [of _ a] exI [of _ ?M] exI [of _ w']) auto
qed

text \<open>From the stop at \<^verbatim>\<open>main\<close> on.\<close>

lemma spawn_runs:
  assumes pre: "pt_syscall pk pid 599 [] w = Some (0, w1)" "elfldr_set_heap_size pk pid (- 1) w1 = Some (h, w2)"
      "run_to_main pk lk pid w2 = (True, w3)"
    and st: "stopped m w3" and room: "3 \<le> room (dom (m_mem m))" and pg: "0x304 \<le> unat (lk_page lk)" "unat (lk_page lk) \<le> limit"
    and stk: "stk \<subseteq> dom (m_mem m)" and sp: "sp = (r_rsp r0 AND NOT 0xf) - 8" "mapped (m_mem m) sp 8"
    and elf: "pie (lk_page lk) limit elf eh phs sz"
    and detach: "\<forall>v. keeps_creds pk auth caps v (snd (pk_detach pk pid 0 v)) \<and> fst (pk_detach pk pid 0 v) = Some ()"
    and names: "length (hd av) < unat (lk_page lk)" "length (case cwd of None \<Rightarrow> ''/'' | Some d \<Rightarrow> d) < unat (lk_page lk)"
    and ne: "envp \<noteq> []" and fits: "(length envp + 1) * 8 + strings_len envp + 2 ^ k \<le> 2 ^ 64" "unat (environ_size (lk_page lk) envp) \<le> limit"
    and ea: "ea = resolves symb ''+2thxYZ4syk''" "ea \<noteq> 0" "range_at ea 8 \<subseteq> dom (m_mem m) - stk - range_at sp 8"
  shows "\<exists>base v. spawn_stopped pk lk stdin_fd stdout_fd stderr_fd elf av cwd pid w = Some (Ret pid, snd (pt_detach pk pid 0 v))
    \<and> fst (pt_detach pk pid 0 v) = Some ()
    \<and> entry_state (resolves symb ''HoLVWNanBBc'') kfile (lk_data_base lk) socks pipes (stk \<union> range_at ea 8) elf eh phs sz m base (view v)
    \<and> vector_at (m_mem (view v)) (pointer_at (m_mem (view v)) ea) envp"
proof -
  obtain ok w4 where w4: "lk_set_uid lk pid 0 w3 = (ok, w4)" by fastforce
  let ?w5 = "if ok then w4 else pk_perror pk ''kernel_set_ucred_uid failed()'' w4"
  have s4: "stopped m w4" using stopped_same [OF st] set_uid [where u = 0 and w = w3] w4 by simp
  then have s5: "stopped m ?w5" using stopped_same [OF s4 put_error] by simp
  obtain w6 where w6: "elfldr_set_procname pk lk pid (hd av) ?w5 = Some (0, w6)" "stopped m w6"
    using set_procname [OF s5 _ names(1) pg(2)] room by auto
  let ?n = "unat (environ_size (lk_page lk) envp)"
  have ea_m: "range_at ea 8 \<subseteq> dom (m_mem m)" using ea(3) by blast
  obtain a M w7 where w7: "elfldr_set_environ pk lk pid envp w6 = Some (0, w7)" "stopped (m\<lparr>m_mem := M\<rparr>) w7" "pointer_at M ea = a"
    "env_block M a envp" "\<forall>y \<in> dom (m_mem m) - range_at ea 8. M y = m_mem m y" "range_at a ?n \<inter> dom (m_mem m) = {}"
    "dom (m_mem m) \<subseteq> dom M" "range_at a ?n \<subseteq> dom M" "room (dom (m_mem m)) \<le> Suc (room (dom M))"
    using set_environ_stopped [OF w6(2) _ ne fits ea(1,2) ea_m] room by auto
  obtain w8 where w8: "elfldr_set_cwd pk lk pid cwd w7 = Some (0, w8)" "stopped (m\<lparr>m_mem := M\<rparr>) w8"
    using set_cwd [OF w7(2) _ names(2) pg(2)] room w7(9) by auto
  have sp0: "range_at sp 8 \<subseteq> dom (m_mem m)" using sp(2) mapped_range [of 8] by simp
  have stkM: "stk \<subseteq> dom M" and spM: "mapped M ((r_rsp r0 AND NOT 0xf) - 8) 8"
    using stk w7(7) sp0 mapped_range [of 8 M sp] by (auto simp: sp(1))
  obtain base v where v: "elfldr_exec pk lk stdin_fd stdout_fd stderr_fd pid elf w8 = Some (Ret 0, snd (pt_detach pk pid 0 v))"
    "fst (pt_detach pk pid 0 v) = Some ()"
    "entry_state (resolves symb ''HoLVWNanBBc'') kfile (lk_data_base lk) socks pipes stk elf eh phs sz (m\<lparr>m_mem := M\<rparr>) base (view v)"
    using exec_ready [OF w8(2) _ pg _ _ elf detach, of stdin_fd stdout_fd stderr_fd] room w7(9) stkM spM by auto
  have m0: "m_regs m = r0" using st by (simp add: stopped_def)
  have rsp: "r_rsp (m_regs (view v)) = sp" using v(3) m0 sp(1) by (auto simp: entry_state_def entry_regs_def)
  have same: "m_mem (view v) y = M y" if "y \<in> dom M" "y \<notin> stk" "y \<notin> range_at sp 8" for y
    using v(3) that unfolding entry_state_def rsp by auto
  have "entry_state (resolves symb ''HoLVWNanBBc'') kfile (lk_data_base lk) socks pipes (stk \<union> range_at ea 8) elf eh phs sz m base (view v)"
  proof -
    have "\<forall>y \<in> dom (m_mem m) - (stk \<union> range_at ea 8) - range_at sp 8. m_mem (view v) y = m_mem m y"
    proof
      fix y assume y: "y \<in> dom (m_mem m) - (stk \<union> range_at ea 8) - range_at sp 8"
      then have "m_mem (view v) y = M y" using w7(7) by (intro same) auto
      also have "\<dots> = m_mem m y" using w7(5) y by blast
      finally show "m_mem (view v) y = m_mem m y" .
    qed
    then show ?thesis using v(3) unfolding entry_state_def rsp by auto
  qed
  moreover have "pointer_at (m_mem (view v)) ea = a"
  proof -
    have "\<forall>y \<in> range_at ea 8. m_mem (view v) y = M y" using same ea(3) w7(7) by blast
    then have "mem_read (m_mem (view v)) ea 8 = mem_read M ea 8" by (intro mem_read_same) simp
    then show ?thesis using w7(3) by (simp add: pointer_at_def)
  qed
  moreover have "env_block (m_mem (view v)) a envp"
  proof (rule env_block_cong [OF w7(4), where s = ?n])
    show "(length envp + 1) * 8 + strings_len envp \<le> ?n" using environ_fits [OF page(2) fits(1)] by (simp add: page(1))
    show "?n \<le> 2 ^ 64" using u64_less [of "environ_size (lk_page lk) envp"] by simp
    fix y assume "unat (y - a) < ?n"
    then have "y \<in> range_at a ?n" by (simp add: range_at_def)
    then show "m_mem (view v) y = M y" using same w7(6,8) stk sp0 by blast
  qed
  moreover have "spawn_stopped pk lk stdin_fd stdout_fd stderr_fd elf av cwd pid w = Some (Ret pid, snd (pt_detach pk pid 0 v))"
    using pre w4 w6(1) w7(1) w8(1) v(1) by (simp add: spawn_stopped_def env)
  ultimately show ?thesis using v(2) env_block_vector by blast
qed

end

section \<open>A console that answers\<close>

lemma boot_unmaps: "unmaps boot_pk boot_cpu boot_symb sim_regs"
  unfolding unmaps_def
proof (intro allI impI)
  fix m :: machine and a len :: u64 and g
  assume r: "m_regs m = sim_regs"
  let ?mem = "\<lambda>y. if y \<in> range_at a (unat len) then None else m_mem m y"
  have "remote_call boot_cpu (Suc 0) (syscall_regs sim_regs (gadget boot_symb + 0xa) SYS_munmap (given_args boot_pk [L64 a, L64 len] g)) m
      = Some (0, m\<lparr>m_mem := ?mem\<rparr>)"
    using boot_syscall [OF r, of SYS_munmap] by (simp add: gadget_def boot_symb_def SYS_munmap_def given_args_def range_at_def)
  then show "\<exists>k mem. remote_call boot_cpu k (syscall_regs sim_regs (gadget boot_symb + 0xa) SYS_munmap (given_args boot_pk [L64 a, L64 len] g)) m
      = Some (0, m\<lparr>m_mem := mem\<rparr>) \<and> (\<forall>y. mem y = (if y \<in> range_at a (unat len) then None else m_mem m y))" by blast
qed

interpretation boot_run: spawned_process boot_pk boot_lk 101 s_auth s_caps s_mach s_caps boot_cpu boot_symb sim_regs "{}" boot_room
    "0x10000000" "{5}" "{(3, 4)}" "\<lambda>f. 0x777" "[''PATH=/bin'']" 14
proof
  show "unmaps boot_pk boot_cpu boot_symb sim_regs" by (rule boot_unmaps)
qed (simp_all add: boot_answers SYS_chdir_def SYS_thr_set_name_def boot_lk_def sim_lk_def leaves_refl,
    simp add: sim_pk_def leaves_def keeps_creds_def)

section \<open>From main to the program\<close>

text \<open>
  \<^verbatim>\<open>elfldr_spawn\<close> once its child has been stopped at its \<^verbatim>\<open>main\<close>: if the child answers the loader's system calls and has room for three
  mappings, the function ends and returns the child's id for every position-independent file whose image can be built, and lets the
  child go at the entry of the file (\<open>entry_state\<close>: image, argument block, registers, return address) with \<^verbatim>\<open>environ\<close> pointing
  to a vector of exactly the strings of the loader's environment. The pages used for its name and its directory are given back, and
  all other memory that the child had is untouched, apart from the stack below and the variable \<^verbatim>\<open>environ\<close>.\<close>

theorem spawn_starts_program:
  assumes "spawned_process pk lk pid auth caps view tc cpu symb r0 stk room limit socks pipes kfile envp k"
    and "pt_syscall pk pid 599 [] w = Some (0, w1)" "elfldr_set_heap_size pk pid (- 1) w1 = Some (h, w2)" "run_to_main pk lk pid w2 = (True, w3)"
    and "auth w3 \<noteq> 0" "m_regs (view w3) = r0" "3 \<le> room (dom (m_mem (view w3)))" "stk \<subseteq> dom (m_mem (view w3))"
    and "sp = (r_rsp r0 AND NOT 0xf) - 8" "mapped (m_mem (view w3)) sp 8"
    and "0x304 \<le> unat (lk_page lk)" "unat (lk_page lk) \<le> limit" "pie (lk_page lk) limit elf eh phs sz"
    and "\<forall>v. keeps_creds pk auth caps v (snd (pk_detach pk pid 0 v)) \<and> fst (pk_detach pk pid 0 v) = Some ()"
    and "length (hd av) < unat (lk_page lk)" "length (case cwd of None \<Rightarrow> ''/'' | Some d \<Rightarrow> d) < unat (lk_page lk)"
    and "envp \<noteq> []" "(length envp + 1) * 8 + strings_len envp + 2 ^ k \<le> 2 ^ 64" "unat (environ_size (lk_page lk) envp) \<le> limit"
    and "ea = resolves symb ''+2thxYZ4syk''" "ea \<noteq> 0" "range_at ea 8 \<subseteq> dom (m_mem (view w3)) - stk - range_at sp 8"
  shows "\<exists>base v. spawn_stopped pk lk stdin_fd stdout_fd stderr_fd elf av cwd pid w = Some (Ret pid, snd (pt_detach pk pid 0 v))
    \<and> fst (pt_detach pk pid 0 v) = Some ()
    \<and> entry_state (resolves symb ''HoLVWNanBBc'') kfile (lk_data_base lk) socks pipes (stk \<union> range_at ea 8) elf eh phs sz
        (view w3) base (view v)
    \<and> vector_at (m_mem (view v)) (pointer_at (m_mem (view v)) ea) envp"
proof -
  have sp: "stopped_process pk lk pid auth caps view tc cpu symb r0 stk room limit socks pipes kfile"
    using assms(1) by (simp add: spawned_process_def)
  have st: "stopped_process.stopped auth view r0 (view w3) w3" using assms(5,6) by (simp add: stopped_process.stopped_def [OF sp])
  show ?thesis by (rule spawned_process.spawn_runs [OF assms(1-4) st assms(7,11,12,8,9,10,13-22)])
qed

end
