(* ===== verification/Elf_Launch.thy ===== *)
theory Elf_Launch
  imports Elf_Run
begin

unbundle bit_operations_syntax

text \<open>
  \<^verbatim>\<open>elfldr_spawn\<close> as a whole: from the stop after \<^verbatim>\<open>execve\<close> the child links its libraries, gets an unlimited heap
  (\<open>set_heap_size_stores\<close>) and runs to its \<^verbatim>\<open>main\<close> (\<open>boots\<close>); from there \<open>Elf_Run\<close> takes it to the entry of the ELF.
\<close>

section \<open>The heap of the new process\<close>

text \<open>
  What \<^verbatim>\<open>elfldr_set_heap_size\<close> leaves in the memory \<open>M\<close> of a process whose libc parameters are at \<open>lp\<close>: the size in the cell that
  they point to, and for an unlimited heap their entry at 72 copied to the one at 32.
\<close>

definition heap_cell :: "(u64 \<rightharpoonup> byte) \<Rightarrow> u64 \<Rightarrow> u64" where
  "heap_cell M lp = pointer_at M (lp + 16)"

definition heap_set :: "(u64 \<rightharpoonup> byte) \<Rightarrow> u64 \<Rightarrow> u64 \<Rightarrow> (u64 \<rightharpoonup> byte) \<Rightarrow> bool" where
  "heap_set M lp sz M' \<longleftrightarrow>
     dom M' = dom M \<and> pointer_at M' (heap_cell M lp) = sz \<and> (sz = - 1 \<longrightarrow> pointer_at M' (lp + 32) = pointer_at M (lp + 72))
   \<and> (\<forall>y. y \<notin> range_at (heap_cell M lp) 8 \<longrightarrow> (sz = - 1 \<longrightarrow> y \<notin> range_at (lp + 32) 8) \<longrightarrow> M' y = M y)"

definition heap_stored :: "(u64 \<rightharpoonup> byte) \<Rightarrow> u64 \<Rightarrow> u64 \<Rightarrow> (u64 \<rightharpoonup> byte)" where
  "heap_stored M lp sz =
     (let M1 = mem_write M (heap_cell M lp) (le_bytes 8 sz)
      in if sz = - 1 then mem_write M1 (lp + 32) (le_bytes 8 (pointer_at M (lp + 72))) else M1)"

text \<open>Where the parameters are: readable, and with the cell outside them.\<close>

definition heap_params :: "(u64 \<rightharpoonup> byte) \<Rightarrow> u64 \<Rightarrow> u64 \<Rightarrow> bool" where
  "heap_params M pp lp \<longleftrightarrow>
     pp \<noteq> 0 \<and> mapped M (pp + 56) 8 \<and> lp = pointer_at M (pp + 56) \<and> mapped M lp 80 \<and> mapped M (heap_cell M lp) 8
   \<and> range_at (heap_cell M lp) 8 \<inter> range_at lp 80 = {}"

lemma pointer_outside:
  assumes "\<forall>y \<in> range_at a 8. M' y = M y"
  shows "pointer_at M' a = pointer_at M a"
  using mem_read_same [of 8 a M' M] assms unfolding pointer_at_def by (simp add: range_at_def)

text \<open>The reads and writes of the parameters.\<close>

lemma read_pointer:
  assumes "tracee_laws pk pid auth caps view cpu symb" "auth w \<noteq> 0" "mapped (m_mem (view w)) a 8"
  shows "\<exists>bs w'. pt_copyout pk pid a 8 w = (Some bs, w') \<and> le_word bs = pointer_at (m_mem (view w)) a
    \<and> leaves pk auth caps view (view w) w w' \<and> auth w' \<noteq> 0 \<and> view w' = view w"
  using pt_copyout_view [OF assms] assms(2) leaves_auth leaves_view unfolding pointer_at_def by metis

lemma write_pointer:
  assumes "tracee_laws pk pid auth caps view cpu symb" "auth w \<noteq> 0" "mapped (m_mem (view w)) a 8"
  shows "\<exists>w'. pt_setlong pk pid a v w = (Some (), w') \<and> leaves pk auth caps view (view w') w w' \<and> auth w' \<noteq> 0
    \<and> view w' = (view w)\<lparr>m_mem := mem_write (m_mem (view w)) a (le_bytes 8 v)\<rparr>"
  using pt_setlong_view [OF assms, of v] assms(2) leaves_auth leaves_view by metis

lemma get_proc_param:
  assumes laws: "tracee_laws pk pid auth caps view cpu symb" and a: "auth w \<noteq> 0"
    and param: "\<forall>g. \<exists>k. remote_call cpu k (call_regs (m_regs (view w)) (resolves symb ''959qrazPIrg'') g) (view w) = Some (pp, view w)"
  shows "\<exists>w'. pt_sceKernelGetProcParam pk pid w = Some (pp, w') \<and> leaves pk auth caps view (view w) w w' \<and> auth w' \<noteq> 0 \<and> view w' = view w"
proof -
  obtain v where v: "pt_resolve pk pid ''959qrazPIrg'' w = (resolves symb ''959qrazPIrg'', v)" "leaves pk auth caps view (view w) w v"
    using pt_resolve_view [OF laws, of "''959qrazPIrg''" w] unfolding resolves_def by blast
  have v': "auth v \<noteq> 0" "view v = view w" using a leaves_auth [OF v(2)] leaves_view [OF v(2)] by simp_all
  have "\<forall>g. \<exists>k x m. remote_call cpu k (call_regs (m_regs (view v)) (resolves symb ''959qrazPIrg'') (given_args pk [] g)) (view v) = Some (x, m)
      \<and> (x = pp \<and> m = view w)" using param unfolding v'(2) by metis
  from pt_call_some [OF laws v'(1) this] obtain w' where "pt_call pk pid (resolves symb ''959qrazPIrg'') [] v = Some (pp, w')"
    "leaves pk auth caps view (view w) v w'" by blast
  then show ?thesis using v leaves_same [OF v(2)] v' leaves_auth [of pk auth caps view "view w" v w'] leaves_view [of pk auth caps view "view w" v w']
    by (simp add: pt_sceKernelGetProcParam_def pt_call_nid_def)
qed

text \<open>The memory after the cell is written and the entry is copied.\<close>

lemma heap_stored_at:
  fixes M lp sz
  defines "h \<equiv> heap_cell M lp"
  defines "M1 \<equiv> mem_write M h (le_bytes 8 sz)"
  assumes M: "mapped M lp 80" "mapped M h 8" "range_at h 8 \<inter> range_at lp 80 = {}"
  shows "pointer_at M1 (lp + 72) = pointer_at M (lp + 72)" and "heap_set M lp sz (heap_stored M lp sz)"
proof -
  let ?v = "pointer_at M (lp + 72)"
  let ?M2 = "mem_write M1 (lp + 32) (le_bytes 8 ?v)"
  have sub: "range_at (lp + k) 8 \<inter> range_at h 8 = {}" if "unat k + 8 \<le> 80" for k
    using range_at_sub [of k 8 80 lp] M(3) that by auto
  have same: "M1 y = M y" if "y \<notin> range_at h 8" for y using that by (simp add: M1_def mem_write_outside)
  show "pointer_at M1 (lp + 72) = ?v" by (rule pointer_outside) (use sub [of 72] same in auto)
  have same2: "?M2 y = M1 y" if "y \<notin> range_at (lp + 32) 8" for y using that by (simp add: mem_write_outside)
  have "pointer_at ?M2 h = pointer_at M1 h" by (rule pointer_outside) (use sub [of 32] same2 in auto)
  then have cell: "pointer_at ?M2 h = sz" "pointer_at M1 h = sz" by (simp_all add: M1_def)
  have "mapped M1 (lp + 32) 8" using mapped_sub [of M1 lp 80 32 8] mapped_write [OF M(1)] by (simp add: M1_def)
  then have d: "dom ?M2 = dom M" "dom M1 = dom M" using M(2) by (simp_all add: mem_write_dom M1_def)
  show "heap_set M lp sz (heap_stored M lp sz)"
  proof (cases "sz = - 1")
    case True
    then have "heap_stored M lp sz = ?M2" by (simp add: heap_stored_def M1_def h_def)
    then show ?thesis using same same2 True cell(1) d(1) unfolding heap_set_def h_def by (intro conjI allI impI) simp_all
  next
    case False
    then have "heap_stored M lp sz = M1" by (simp add: heap_stored_def M1_def h_def)
    then show ?thesis using same False cell(2) d(2) unfolding heap_set_def h_def by (intro conjI allI impI) simp_all
  qed
qed

lemma set_heap_size_stores:
  assumes laws: "tracee_laws pk pid auth caps view cpu symb" and a: "auth w \<noteq> 0"
    and param: "\<forall>g. \<exists>k. remote_call cpu k (call_regs (m_regs (view w)) (resolves symb ''959qrazPIrg'') g) (view w) = Some (pp, view w)"
    and M: "heap_params (m_mem (view w)) pp lp"
  shows "\<exists>w'. elfldr_set_heap_size pk pid sz w = Some (0, w')
    \<and> leaves pk auth caps view ((view w)\<lparr>m_mem := heap_stored (m_mem (view w)) lp sz\<rparr>) w w'"
proof -
  let ?M = "m_mem (view w)" and ?h = "heap_cell (m_mem (view w)) lp"
  let ?M1 = "mem_write ?M ?h (le_bytes 8 sz)"
  have M: "pp \<noteq> 0" "mapped ?M (pp + 56) 8" "pointer_at ?M (pp + 56) = lp" "mapped ?M lp 80" "mapped ?M ?h 8"
    "range_at ?h 8 \<inter> range_at lp 80 = {}" using M by (auto simp: heap_params_def)
  have blk: "mapped N (lp + of_nat n) 8" if "n + 8 \<le> 80" "mapped N lp 80" for N n using mapped_sub [of N lp 80 n 8] that by simp
  have m1: "mapped ?M1 lp 80" using M(4) by (rule mapped_write)
  obtain w1 where w1: "pt_sceKernelGetProcParam pk pid w = Some (pp, w1)" "leaves pk auth caps view (view w) w w1" "auth w1 \<noteq> 0" "view w1 = view w"
    using get_proc_param [OF laws a param] by blast
  obtain b1 w2 where w2: "pt_copyout pk pid (pp + 56) 8 w1 = (Some b1, w2)" "le_word b1 = lp" "leaves pk auth caps view (view w1) w1 w2"
    "auth w2 \<noteq> 0" "view w2 = view w" using read_pointer [OF laws w1(3), of "pp + 56"] M(2,3) w1(4) by auto
  obtain b2 w3 where w3: "pt_copyout pk pid (lp + 16) 8 w2 = (Some b2, w3)" "le_word b2 = ?h" "leaves pk auth caps view (view w2) w2 w3"
    "auth w3 \<noteq> 0" "view w3 = view w" using read_pointer [OF laws w2(4), of "lp + 16"] blk [of 16 ?M] M(4) w2(5) by (auto simp: heap_cell_def)
  obtain w4 where w4: "pt_setlong pk pid ?h sz w3 = (Some (), w4)" "leaves pk auth caps view (view w4) w3 w4" "auth w4 \<noteq> 0"
    "view w4 = (view w)\<lparr>m_mem := ?M1\<rparr>" using write_pointer [OF laws w3(4), of ?h sz] M(5) w3(5) by auto
  have to4: "leaves pk auth caps view (view w4) w w4"
    using leaves_trans [OF leaves_trans [OF leaves_trans [OF w1(2) w2(3)] w3(3)] w4(2)] .
  show ?thesis
  proof (cases "sz = - 1")
    case False
    then show ?thesis using w1(1) w2(1,2) w3(1,2) w4(1,4) M(1) to4
      by (intro exI [of _ w4]) (simp add: elfldr_set_heap_size_def heap_stored_def)
  next
    case True
    obtain b3 w5 where w5: "pt_copyout pk pid (lp + 72) 8 w4 = (Some b3, w5)" "le_word b3 = pointer_at ?M (lp + 72)"
      "leaves pk auth caps view (view w4) w4 w5" "auth w5 \<noteq> 0" "view w5 = view w4"
      using read_pointer [OF laws w4(3), of "lp + 72"] blk [of 72 ?M1] m1 w4(4) heap_stored_at(1) [OF M(4-6), of sz] by auto
    obtain w6 where w6: "pt_setlong pk pid (lp + 32) (pointer_at ?M (lp + 72)) w5 = (Some (), w6)" "leaves pk auth caps view (view w6) w5 w6"
      "view w6 = (view w)\<lparr>m_mem := mem_write ?M1 (lp + 32) (le_bytes 8 (pointer_at ?M (lp + 72)))\<rparr>"
      using write_pointer [OF laws w5(4), of "lp + 32" "pointer_at ?M (lp + 72)"] blk [of 32 ?M1] m1 w4(4) w5(5) by auto
    have "elfldr_set_heap_size pk pid sz w = Some (0, w6)"
      using True w1(1) w2(1,2) w3(1,2) w4(1) w5(1,2) w6(1) M(1) by (simp add: elfldr_set_heap_size_def)
    then show ?thesis using leaves_trans [OF leaves_trans [OF to4 w5(3)] w6(2)] True w6(3) by (simp add: heap_stored_def)
  qed
qed

section \<open>A new process\<close>

text \<open>
  The child at its \<^verbatim>\<open>main\<close>: \<open>run\<close> from the state \<open>m\<close> with a breakpoint at \<open>brk\<close>, and there the instruction put back.
\<close>

definition at_main :: "(machine \<Rightarrow> machine) \<Rightarrow> u64 \<Rightarrow> machine \<Rightarrow> machine" where
  "at_main run brk m =
     (let x = run (m\<lparr>m_mem := (m_mem m)(brk \<mapsto> 0xcc)\<rparr>) in x\<lparr>m_mem := (m_mem x)(brk := m_mem m brk)\<rparr>)"

text \<open>The state at \<^verbatim>\<open>main\<close> of a child that starts as \<open>m\<close> and whose libc parameters are at \<open>lp\<close>.\<close>

definition main_of :: "(machine \<Rightarrow> machine) \<Rightarrow> (machine \<Rightarrow> machine) \<Rightarrow> u64 \<Rightarrow> u64 \<Rightarrow> machine \<Rightarrow> machine" where
  "main_of linked run brk lp m = at_main run brk ((linked m)\<lparr>m_mem := heap_stored (m_mem (linked m)) lp (- 1)\<rparr>)"

text \<open>
  A process that was just executed and is stopped with the registers \<open>re\<close>: the system call 599 links its libraries, its process
  parameters are at \<open>params\<close>, and continued it \<open>run\<close>s to \<open>brk\<close>, where it has the registers \<open>r0\<close>.
\<close>

locale new_process = spawned_process +
  fixes re :: reg and linked :: "machine \<Rightarrow> machine" and params brk :: u64 and run :: "machine \<Rightarrow> machine"
  assumes linked: "m_regs m = re \<Longrightarrow> \<exists>k. remote_call cpu k (syscall_regs re (gadget symb + 0xa) 599 g) m = Some (0, linked m)"
    and params: "m_regs m = re \<Longrightarrow> \<exists>k. remote_call cpu k (call_regs re (resolves symb ''959qrazPIrg'') g) m = Some (params, m)"
    and entry: "fst (lk_entry_addr lk pid 0 w) = brk - 58" "leaves pk auth caps view (view w) w (snd (lk_entry_addr lk pid 0 w))" "brk \<noteq> 58"
    and continues: "keeps_creds pk auth caps w (snd (pk_continue pk pid SIGCONT w))" "fst (pk_continue pk pid SIGCONT w) = Some ()"
      "view (snd (pk_continue pk pid SIGCONT w)) = run (view w)"
    and run: "m_regs m = re \<Longrightarrow> m_regs (run m) = r0" "m_mem (run m) brk = m_mem m brk"
begin

lemma links:
  assumes "auth w \<noteq> 0" "m_regs (view w) = re"
  shows "\<exists>w'. pt_syscall pk pid 599 [] w = Some (0, w') \<and> auth w' \<noteq> 0 \<and> view w' = linked (view w) \<and> m_regs (view w') = re"
proof -
  have r: "\<forall>g. \<exists>k v m. remote_call cpu k (syscall_regs (m_regs (view w)) (gadget symb + 0xa) 599 (given_args pk [] g)) (view w) = Some (v, m)
      \<and> (v = 0 \<and> m = linked (view w))" using linked [OF assms(2)] unfolding assms(2) by metis
  from pt_syscall_some [OF laws assms(1) gadget_def gadget this] show ?thesis
    using assms by (auto simp: leaves_def keeps_creds_def)
qed

lemma boots:
  assumes w: "auth w \<noteq> 0" "view w = m" "m_regs m = re"
    and M: "heap_params (m_mem (linked m)) params lp" and b: "brk \<in> dom (m_mem (linked m))"
  shows "\<exists>w1 w2 w3. pt_syscall pk pid 599 [] w = Some (0, w1) \<and> elfldr_set_heap_size pk pid (- 1) w1 = Some (0, w2)
    \<and> run_to_main pk lk pid w2 = (True, w3) \<and> stopped (main_of linked run brk lp m) w3"
proof -
  let ?M = "heap_stored (m_mem (linked m)) lp (- 1)"
  obtain w1 where w1: "pt_syscall pk pid 599 [] w = Some (0, w1)" "auth w1 \<noteq> 0" "view w1 = linked m" "m_regs (view w1) = re"
    using links [of w] w by auto
  have "\<forall>g. \<exists>k. remote_call cpu k (call_regs (m_regs (view w1)) (resolves symb ''959qrazPIrg'') g) (view w1) = Some (params, view w1)"
    using params [OF w1(4)] unfolding w1(4) by blast
  then obtain w2 where w2: "elfldr_set_heap_size pk pid (- 1) w1 = Some (0, w2)" "leaves pk auth caps view ((linked m)\<lparr>m_mem := ?M\<rparr>) w1 w2"
    using set_heap_size_stores [OF laws w1(2), of params lp "- 1"] M w1(3) by auto
  have v2: "auth w2 \<noteq> 0" "view w2 = (linked m)\<lparr>m_mem := ?M\<rparr>" using w1(2) leaves_auth [OF w2(2)] leaves_view [OF w2(2)] by simp_all
  have "heap_set (m_mem (linked m)) lp (- 1) ?M" by (rule heap_stored_at(2)) (use M in \<open>auto simp: heap_params_def\<close>)
  then obtain instr where instr: "?M brk = Some instr" using b by (auto simp: heap_set_def)
  then have b2: "m_mem (view w2) brk = Some instr" by (simp add: v2(2))
  have r: "runs_to pk pid auth caps view brk" by (simp add: runs_to_def continues run(2))
  have e: "lk_entry_addr lk pid 0 w2 = (brk - 58, snd (lk_entry_addr lk pid 0 w2))" using entry(1) [of w2] by (metis prod.collapse)
  from run_to_main_stops [OF laws lk v2(1) e entry(3,2) b2 r, unfolded continues(3)] obtain v w3 where
    w3: "run_to_main pk lk pid w2 = (True, w3)" "auth w3 = auth w2" "m_mem (view v) = ?M(brk \<mapsto> 0xcc)" "m_regs (view v) = m_regs (view w2)"
      "view w3 = (run (view v))\<lparr>m_mem := (m_mem (run (view v)))(brk \<mapsto> instr)\<rparr>" unfolding v2(2) by auto
  have "view v = (linked m)\<lparr>m_mem := ?M(brk \<mapsto> 0xcc)\<rparr>" using w3(3,4) v2(2) by (cases "view v"; cases "linked m") simp
  then have "view w3 = main_of linked run brk lp m" using w3(5) instr by (simp add: main_of_def at_main_def Let_def)
  moreover have "m_regs (linked m) = re" using w1(3,4) by simp
  then have "m_regs (main_of linked run brk lp m) = r0" by (simp add: main_of_def at_main_def Let_def run(1))
  ultimately have "stopped (main_of linked run brk lp m) w3" using w3(2) v2(1) by (simp add: stopped_def)
  then show ?thesis using w1(1) w2(1) w3(1) by blast
qed

end

section \<open>The whole of elfldr_spawn\<close>

text \<open>
  The first part of \<^verbatim>\<open>elfldr_spawn\<close> succeeds: it knows its working directory, makes the child \<open>pid\<close>, waits for it to be executed and
  stopped, and has released what it needed for that in the state \<open>ws\<close>.
\<close>

definition child_made :: "'w pk \<Rightarrow> 'w lk \<Rightarrow> string list \<Rightarrow> string option \<Rightarrow> int \<Rightarrow> 'w \<Rightarrow> 'w \<Rightarrow> bool" where
  "child_made pk lk av cwd pid w ws \<longleftrightarrow>
     (\<exists>w0 kq w1 w2 w3 w4 w5.
        (case lk_getenv lk ''PWD'' w of Some d \<Rightarrow> (Some d, w) | None \<Rightarrow> lk_getcwd lk w) = (cwd, w0)
      \<and> lk_kqueue lk w0 = (Some kq, w1) \<and> lk_malloc lk (lk_page lk) w1 = (True, w2)
      \<and> lk_rfork lk (elfldr_rfork_entry lk av) w2 = (Some pid, w3) \<and> lk_kevent_exec lk kq pid w3 = (True, w4)
      \<and> pk_waitpid pk pid w4 = (True, w5) \<and> ws = lk_close lk kq (lk_free lk w5))"

lemma spawn_child_made:
  "child_made pk lk av cwd pid w ws \<Longrightarrow>
    elfldr_spawn pk lk stdin_fd stdout_fd stderr_fd elf av w = spawn_stopped pk lk stdin_fd stdout_fd stderr_fd elf av cwd pid ws"
  by (auto simp: child_made_def elfldr_spawn_def split: prod.splits)

text \<open>The console boots its child: nothing changes up to \<^verbatim>\<open>main\<close> but the cell of the heap size.\<close>

interpretation boot_new: new_process boot_pk boot_lk 101 s_auth s_caps s_mach s_caps boot_cpu boot_symb sim_regs "{}" boot_room
    "0x10000000" "{5}" "{(3, 4)}" "\<lambda>f. 0x777" "[''PATH=/bin'']" 14 sim_regs id "0x400100" "0x40003a" id
proof
  fix m :: machine and g
  assume r: "m_regs m = sim_regs"
  show "\<exists>k. remote_call boot_cpu k (syscall_regs sim_regs (gadget boot_symb + 0xa) 599 g) m = Some (0, id m)"
    using boot_syscall [OF r, of 599 g] by (intro exI [of _ "Suc 0"]) (simp add: gadget_def boot_symb_def)
  have "remote_call boot_cpu (Suc 0) (call_regs sim_regs 0x9200 g) m = Some (0x400100, m)"
    using r by (cases m) (auto simp: remote_call_def machine_run.simps boot_cpu_def call_regs_def word_sle_eq Let_def sim_regs_def)
  then show "\<exists>k. remote_call boot_cpu k (call_regs sim_regs (resolves boot_symb ''959qrazPIrg'') g) m = Some (0x400100, m)"
    by (intro exI [of _ "Suc 0"]) (simp add: resolves_def boot_symb_def)
qed (simp_all add: boot_lk_def sim_lk_def leaves_refl, simp_all add: sim_pk_def keeps_creds_def)

section \<open>From execelf to the program\<close>

text \<open>Property C5.
  \<^verbatim>\<open>elfldr_spawn\<close> from its call to the running ELF: once its child is made and stopped after \<^verbatim>\<open>execve\<close> (\<open>child_made\<close>), if the
  child links its libraries, has readable process parameters, reaches its \<^verbatim>\<open>main\<close> and there answers the loader's system calls
  and has room for three mappings, then the function ends and returns the child's id for every position-independent file whose image can
  be built. It lets the child go at the entry of the file (\<open>entry_state\<close>: image, argument block, registers, return address), with
  \<^verbatim>\<open>environ\<close> pointing to a vector of exactly the strings of the loader's environment; everything else is as in
  the state that the child has at \<^verbatim>\<open>main\<close> when it is started with an unlimited heap (\<open>main_of\<close>: the breakpoint is gone, the
  pages for name and directory are given back), apart from the stack below and the variable \<^verbatim>\<open>environ\<close>.\<close>

theorem elfldr_spawn_starts_program:
  assumes "new_process pk lk pid auth caps view tc cpu symb r0 stk room limit socks pipes kfile envp k re linked params brk run"
    and "child_made pk lk av cwd pid w ws" "auth ws \<noteq> 0" "m_regs (view ws) = re"
    and "heap_params (m_mem (linked (view ws))) params lp" "brk \<in> dom (m_mem (linked (view ws)))"
    and "m = main_of linked run brk lp (view ws)" "3 \<le> room (dom (m_mem m))" "stk \<subseteq> dom (m_mem m)"
    and "sp = (r_rsp r0 AND NOT 0xf) - 8" "mapped (m_mem m) sp 8"
    and "0x304 \<le> unat (lk_page lk)" "unat (lk_page lk) \<le> limit" "pie (lk_page lk) limit elf eh phs sz"
    and "\<forall>v. keeps_creds pk auth caps v (snd (pk_detach pk pid 0 v)) \<and> fst (pk_detach pk pid 0 v) = Some ()"
    and "length (hd av) < unat (lk_page lk)" "length (case cwd of None \<Rightarrow> ''/'' | Some d \<Rightarrow> d) < unat (lk_page lk)"
    and "envp \<noteq> []" "(length envp + 1) * 8 + strings_len envp + 2 ^ k \<le> 2 ^ 64" "unat (environ_size (lk_page lk) envp) \<le> limit"
    and "ea = resolves symb ''+2thxYZ4syk''" "ea \<noteq> 0" "range_at ea 8 \<subseteq> dom (m_mem m) - stk - range_at sp 8"
  shows "\<exists>base v. elfldr_spawn pk lk stdin_fd stdout_fd stderr_fd elf av w = Some (Ret pid, snd (pt_detach pk pid 0 v))
    \<and> fst (pt_detach pk pid 0 v) = Some ()
    \<and> entry_state (resolves symb ''HoLVWNanBBc'') kfile (lk_data_base lk) socks pipes (stk \<union> range_at ea 8) elf eh phs sz m base (view v)
    \<and> vector_at (m_mem (view v)) (pointer_at (m_mem (view v)) ea) envp"
proof -
  have sp: "spawned_process pk lk pid auth caps view tc cpu symb r0 stk room limit socks pipes kfile envp k"
    using assms(1) by (simp add: new_process_def)
  obtain w1 w2 w3 where b: "pt_syscall pk pid 599 [] ws = Some (0, w1)" "elfldr_set_heap_size pk pid (- 1) w1 = Some (0, w2)"
    "run_to_main pk lk pid w2 = (True, w3)" "stopped_process.stopped auth view r0 m w3"
    using new_process.boots [OF assms(1,3) refl assms(4,5,6)] unfolding assms(7) by blast
  show ?thesis unfolding spawn_child_made [OF assms(2)]
    by (rule spawned_process.spawn_runs [OF sp b assms(8,12,13,9-11,14-23)])
qed

text \<open>The memory of the console's child, and the state that it has at its \<^verbatim>\<open>main\<close>.\<close>

lemma boot_mapped: "0x400000 \<le> a \<Longrightarrow> unat a + n \<le> 0x401000 \<Longrightarrow> mapped boot_mem a n"
proof -
  assume a: "0x400000 \<le> a" "unat a + n \<le> 0x401000"
  then have u: "unat (a - 0x400000) = unat a - 0x400000" "0x400000 \<le> unat a" by (simp_all add: unat_sub word_le_nat_alt)
  then have "range_at (0x400000 + (a - 0x400000)) n \<subseteq> range_at 0x400000 0x1000" using a(2) by (intro range_at_sub) auto
  then have "range_at a n \<subseteq> dom boot_mem" using boot_sim_dom by (auto simp: boot_sim_def)
  then show ?thesis using mapped_range [of n boot_mem a] a(2) by simp
qed

lemma boot_pointers: "pointer_at boot_mem 0x400138 = 0x400200" "heap_cell boot_mem 0x400200 = 0x400300"
proof -
  have r: "pointer_at M a = le_word (map (\<lambda>i. the (M (a + of_nat i))) [0, 1, 2, 3, 4, 5, 6, 7])" for M a
  proof -
    have "[0..<8] = [0, 1, 2, 3, 4, 5, 6, 7 :: nat]" by (simp add: upt_rec)
    then show ?thesis by (simp only: pointer_at_def mem_read_def)
  qed
  show "pointer_at boot_mem 0x400138 = 0x400200" "heap_cell boot_mem 0x400200 = 0x400300"
    by (simp_all add: heap_cell_def r boot_mem_def range_at_def)
qed

lemma boot_params: "heap_params boot_mem 0x400100 0x400200"
  using area_gap [of "0x400200" 80 "0x400300" 8] by (simp add: heap_params_def boot_mapped boot_pointers Int_commute)

abbreviation boot_main :: machine where
  "boot_main \<equiv> main_of id id 0x40003a 0x400200 (s_mach boot_sim)"

lemma boot_main: "m_regs boot_main = sim_regs" "m_mem boot_main = heap_stored boot_mem 0x400200 (- 1)" "dom (m_mem boot_main) = dom boot_mem"
proof -
  show "m_regs boot_main = sim_regs" "m_mem boot_main = heap_stored boot_mem 0x400200 (- 1)"
    by (simp_all add: main_of_def at_main_def Let_def boot_sim_def)
  moreover have "heap_set boot_mem 0x400200 (- 1) (heap_stored boot_mem 0x400200 (- 1))"
    by (rule heap_stored_at(2)) (use boot_params in \<open>simp_all add: heap_params_def\<close>)
  ultimately show "dom (m_mem boot_main) = dom boot_mem" by (simp add: heap_set_def)
qed

lemma boot_child: "child_made boot_pk boot_lk [''a.elf''] (Some ''/data'') 101 boot_sim boot_sim"
  by (simp add: child_made_def boot_lk_def sim_lk_def)

theorem elfldr_spawn_starts_program_witness:
  "\<exists>base v args. elfldr_spawn boot_pk boot_lk 0 1 2 (tiny_elf ET_DYN 0) [''a.elf''] boot_sim = Some (Ret 101, snd (pt_detach boot_pk 101 0 v))
    \<and> m_regs (s_mach v) = sim_regs\<lparr>r_rsp := 0x7ffefff8, r_rip := base + 4, r_rdi := args\<rparr>
    \<and> mem_read (m_mem (s_mach v)) base 0x4000 = [1, 2, 3, 4, 5, 6, 7, 8] @ replicate 0x3ff8 0
    \<and> vector_at (m_mem (s_mach v)) (pointer_at (m_mem (s_mach v)) 0x8000) [''PATH=/bin'']"
proof -
  have mem: "s_mach boot_sim = \<lparr>m_regs = sim_regs, m_mem = boot_mem\<rparr>" by (simp add: boot_sim_def)
  have p: "heap_params (m_mem (id (s_mach boot_sim))) 0x400100 0x400200" using boot_params by (simp add: mem)
  have b: "0x40003a \<in> dom (m_mem (id (s_mach boot_sim)))" by (simp add: mem domIff boot_mem_def range_at_def)
  have d: "dom (m_mem boot_main) = dom (m_mem (s_mach boot_sim))" using boot_main(3) by (simp add: mem)
  have room: "3 \<le> boot_room (dom (m_mem boot_main))" using boot_sim_room by (simp add: d)
  have sp: "0x7ffefff8 = (r_rsp sim_regs AND NOT 0xf) - 8" by (simp add: sim_regs_def)
  have spm: "mapped (m_mem boot_main) 0x7ffefff8 8" using boot_sim_stack mapped_dom [OF d] by (simp add: sp)
  have ea: "range_at 0x8000 8 \<subseteq> dom (m_mem boot_main) - {} - range_at 0x7ffefff8 8"
    using area_gap [of "0x8000" 8 "0x7ffefff8" 8] by (auto simp: d boot_sim_dom)
  have esz: "environ_size 0x4000 [''PATH=/bin''] = 0x4000" by (simp add: environ_size_def ROUND_PG_def)
  obtain base v where v: "elfldr_spawn boot_pk boot_lk 0 1 2 (tiny_elf ET_DYN 0) [''a.elf''] boot_sim = Some (Ret 101, snd (pt_detach boot_pk 101 0 v))"
    "entry_state (resolves boot_symb ''HoLVWNanBBc'') (\<lambda>f. 0x777) (lk_data_base boot_lk) {5} {(3, 4)} ({} \<union> range_at 0x8000 8) (tiny_elf ET_DYN 0)
       (tiny_ehdr ET_DYN 0) [tiny_phdr 0] 0x4000 boot_main base (s_mach v)"
    "vector_at (m_mem (s_mach v)) (pointer_at (m_mem (s_mach v)) 0x8000) [''PATH=/bin'']"
    using elfldr_spawn_starts_program [OF boot_new.new_process_axioms boot_child boot_sim_stopped p b refl room _ sp spm _ _ tiny_pie boot_detach,
        of "0x8000" 0 1 2] ea
    by (auto simp: boot_lk_def sim_lk_def esz strings_len_def resolves_def boot_symb_def)
  from v(2) obtain args where "m_regs (s_mach v) = sim_regs\<lparr>r_rsp := 0x7ffefff8, r_rip := base + 4, r_rdi := args\<rparr>"
    "mem_read (m_mem (s_mach v)) base 0x4000 = [1, 2, 3, 4, 5, 6, 7, 8] @ replicate 0x3ff8 0"
    using tiny_image [of ET_DYN base] boot_main(1) by (auto simp: entry_state_def entry_regs_def tiny_ehdr_def sim_regs_def)
  then show ?thesis using v(1,3) by blast
qed

section \<open>The heap size\<close>

text \<open>Property C25.
  \<^verbatim>\<open>elfldr_set_heap_size\<close> on a stopped process with readable parameters: it ends, returns 0 and stores the size in the cell that the
  libc parameters point to; for an unlimited heap (-1), and only then, it copies their entry at offset 72 to the one at 32. Nothing
  else in the memory changes, and the registers are as before the remote call.\<close>

theorem heap_size_stored:
  assumes "tracee_laws pk pid auth caps view cpu symb" "auth w \<noteq> 0"
    and "\<forall>g. \<exists>k. remote_call cpu k (call_regs (m_regs (view w)) (resolves symb ''959qrazPIrg'') g) (view w) = Some (pp, view w)"
    and "heap_params (m_mem (view w)) pp lp" "cell = pointer_at (m_mem (view w)) (lp + 16)"
  shows "\<exists>w'. elfldr_set_heap_size pk pid sz w = Some (0, w') \<and> m_regs (view w') = m_regs (view w) \<and> auth w' = auth w
    \<and> pointer_at (m_mem (view w')) cell = sz
    \<and> (sz = - 1 \<longrightarrow> pointer_at (m_mem (view w')) (lp + 32) = pointer_at (m_mem (view w)) (lp + 72))
    \<and> (\<forall>y. y \<notin> range_at cell 8 \<longrightarrow> (sz = - 1 \<longrightarrow> y \<notin> range_at (lp + 32) 8) \<longrightarrow> m_mem (view w') y = m_mem (view w) y)"
proof -
  have "heap_set (m_mem (view w)) lp sz (heap_stored (m_mem (view w)) lp sz)"
    by (rule heap_stored_at(2)) (use assms(4) in \<open>auto simp: heap_params_def\<close>)
  then show ?thesis using set_heap_size_stores [OF assms(1-4), of sz] assms(5)
    by (auto simp: leaves_def keeps_creds_def heap_set_def heap_cell_def)
qed

theorem heap_size_stored_witness:
  "\<exists>w'. elfldr_set_heap_size boot_pk 101 0x20000 boot_sim = Some (0, w') \<and> pointer_at (m_mem (s_mach w')) 0x400300 = 0x20000
    \<and> m_mem (s_mach w') 0x400220 = Some 0"
proof -
  have mem: "m_mem (s_mach boot_sim) = boot_mem" by (simp add: boot_sim_def)
  have p: "\<forall>g. \<exists>k. remote_call boot_cpu k (call_regs (m_regs (s_mach boot_sim)) (resolves boot_symb ''959qrazPIrg'') g) (s_mach boot_sim)
      = Some (0x400100, s_mach boot_sim)" using boot_new.params boot_sim_stopped(2) by simp
  have b: "boot_mem 0x400220 = Some 0" "0x400220 \<notin> range_at 0x400300 8" by (simp_all add: boot_mem_def range_at_def)
  from heap_size_stored [OF boot.laws boot_sim_stopped(1) p _ refl, of "0x400200" "0x20000"] show ?thesis
    using boot_params boot_pointers(2) b by (auto simp: mem heap_cell_def)
qed

end
