(* ===== verification/Syscalls.thy ===== *)
theory Syscalls
  imports Pt
begin

text \<open>
  The table of system call numbers (\<^verbatim>\<open>syscall.h\<close>): every number has one name, the numbers that the tracer calls by name are
  those of the table, and the numbers that tracer and loader call without a name lie outside it.
\<close>

section \<open>The table\<close>

definition syscalls1 :: "(string \<times> int) list" where
  "syscalls1 = [
     (''SYS_syscall'', 0), (''SYS_exit'', 1), (''SYS_fork'', 2), (''SYS_read'', 3), (''SYS_write'', 4), (''SYS_open'', 5),
     (''SYS_close'', 6), (''SYS_wait4'', 7), (''SYS_link'', 9), (''SYS_unlink'', 10), (''SYS_chdir'', 12), (''SYS_fchdir'', 13),
     (''SYS_mknod'', 14), (''SYS_chmod'', 15), (''SYS_chown'', 16), (''SYS_break'', 17), (''SYS_getpid'', 20), (''SYS_mount'', 21),
     (''SYS_unmount'', 22), (''SYS_setuid'', 23), (''SYS_getuid'', 24), (''SYS_geteuid'', 25), (''SYS_ptrace'', 26),
     (''SYS_recvmsg'', 27), (''SYS_sendmsg'', 28), (''SYS_recvfrom'', 29), (''SYS_accept'', 30), (''SYS_getpeername'', 31),
     (''SYS_getsockname'', 32), (''SYS_access'', 33), (''SYS_chflags'', 34), (''SYS_fchflags'', 35), (''SYS_sync'', 36),
     (''SYS_kill'', 37), (''SYS_getppid'', 39), (''SYS_dup'', 41), (''SYS_freebsd10_pipe'', 42), (''SYS_getegid'', 43),
     (''SYS_profil'', 44), (''SYS_ktrace'', 45), (''SYS_getgid'', 47), (''SYS_getlogin'', 49), (''SYS_setlogin'', 50),
     (''SYS_acct'', 51), (''SYS_sigaltstack'', 53), (''SYS_ioctl'', 54), (''SYS_reboot'', 55), (''SYS_revoke'', 56),
     (''SYS_symlink'', 57), (''SYS_readlink'', 58), (''SYS_execve'', 59), (''SYS_umask'', 60), (''SYS_chroot'', 61),
     (''SYS_msync'', 65), (''SYS_vfork'', 66), (''SYS_sbrk'', 69), (''SYS_sstk'', 70), (''SYS_vadvise'', 72), (''SYS_munmap'', 73),
     (''SYS_mprotect'', 74), (''SYS_madvise'', 75), (''SYS_mincore'', 78), (''SYS_getgroups'', 79), (''SYS_setgroups'', 80),
     (''SYS_getpgrp'', 81), (''SYS_setpgid'', 82), (''SYS_setitimer'', 83), (''SYS_swapon'', 85), (''SYS_getitimer'', 86),
     (''SYS_getdtablesize'', 89), (''SYS_dup2'', 90), (''SYS_fcntl'', 92), (''SYS_select'', 93), (''SYS_fsync'', 95),
     (''SYS_setpriority'', 96), (''SYS_socket'', 97), (''SYS_connect'', 98), (''SYS_getpriority'', 100), (''SYS_bind'', 104),
     (''SYS_setsockopt'', 105), (''SYS_listen'', 106), (''SYS_gettimeofday'', 116), (''SYS_getrusage'', 117)]"

definition syscalls2 :: "(string \<times> int) list" where
  "syscalls2 = [
     (''SYS_getsockopt'', 118), (''SYS_readv'', 120), (''SYS_writev'', 121), (''SYS_settimeofday'', 122), (''SYS_fchown'', 123),
     (''SYS_fchmod'', 124), (''SYS_setreuid'', 126), (''SYS_setregid'', 127), (''SYS_rename'', 128), (''SYS_flock'', 131),
     (''SYS_mkfifo'', 132), (''SYS_sendto'', 133), (''SYS_shutdown'', 134), (''SYS_socketpair'', 135), (''SYS_mkdir'', 136),
     (''SYS_rmdir'', 137), (''SYS_utimes'', 138), (''SYS_adjtime'', 140), (''SYS_setsid'', 147), (''SYS_quotactl'', 148),
     (''SYS_nlm_syscall'', 154), (''SYS_nfssvc'', 155), (''SYS_lgetfh'', 160), (''SYS_getfh'', 161), (''SYS_sysarch'', 165),
     (''SYS_rtprio'', 166), (''SYS_semsys'', 169), (''SYS_msgsys'', 170), (''SYS_shmsys'', 171), (''SYS_setfib'', 175),
     (''SYS_ntp_adjtime'', 176), (''SYS_setgid'', 181), (''SYS_setegid'', 182), (''SYS_seteuid'', 183), (''SYS_stat'', 188),
     (''SYS_fstat'', 189), (''SYS_lstat'', 190), (''SYS_pathconf'', 191), (''SYS_fpathconf'', 192), (''SYS_getrlimit'', 194),
     (''SYS_setrlimit'', 195), (''SYS_getdirentries'', 196), (''SYS___syscall'', 198), (''SYS___sysctl'', 202), (''SYS_mlock'', 203),
     (''SYS_munlock'', 204), (''SYS_undelete'', 205), (''SYS_futimes'', 206), (''SYS_getpgid'', 207), (''SYS_poll'', 209),
     (''SYS_freebsd7___semctl'', 220), (''SYS_semget'', 221), (''SYS_semop'', 222), (''SYS_freebsd7_msgctl'', 224),
     (''SYS_msgget'', 225), (''SYS_msgsnd'', 226), (''SYS_msgrcv'', 227), (''SYS_shmat'', 228), (''SYS_freebsd7_shmctl'', 229),
     (''SYS_shmdt'', 230), (''SYS_shmget'', 231), (''SYS_clock_gettime'', 232), (''SYS_clock_settime'', 233),
     (''SYS_clock_getres'', 234), (''SYS_ktimer_create'', 235), (''SYS_ktimer_delete'', 236), (''SYS_ktimer_settime'', 237),
     (''SYS_ktimer_gettime'', 238), (''SYS_ktimer_getoverrun'', 239), (''SYS_nanosleep'', 240), (''SYS_ffclock_getcounter'', 241),
     (''SYS_ffclock_setestimate'', 242), (''SYS_ffclock_getestimate'', 243), (''SYS_clock_nanosleep'', 244),
     (''SYS_clock_getcpuclockid2'', 247), (''SYS_ntp_gettime'', 248), (''SYS_minherit'', 250), (''SYS_rfork'', 251),
     (''SYS_openbsd_poll'', 252), (''SYS_issetugid'', 253), (''SYS_lchown'', 254), (''SYS_aio_read'', 255), (''SYS_aio_write'', 256),
     (''SYS_lio_listio'', 257), (''SYS_getdents'', 272), (''SYS_lchmod'', 274), (''SYS_netbsd_lchown'', 275), (''SYS_lutimes'', 276),
     (''SYS_netbsd_msync'', 277), (''SYS_nstat'', 278), (''SYS_nfstat'', 279), (''SYS_nlstat'', 280), (''SYS_preadv'', 289)]"

definition syscalls3 :: "(string \<times> int) list" where
  "syscalls3 = [
     (''SYS_pwritev'', 290), (''SYS_fhopen'', 298), (''SYS_fhstat'', 299), (''SYS_modnext'', 300), (''SYS_modstat'', 301),
     (''SYS_modfnext'', 302), (''SYS_modfind'', 303), (''SYS_kldload'', 304), (''SYS_kldunload'', 305), (''SYS_kldfind'', 306),
     (''SYS_kldnext'', 307), (''SYS_kldstat'', 308), (''SYS_kldfirstmod'', 309), (''SYS_getsid'', 310), (''SYS_setresuid'', 311),
     (''SYS_setresgid'', 312), (''SYS_aio_return'', 314), (''SYS_aio_suspend'', 315), (''SYS_aio_cancel'', 316),
     (''SYS_aio_error'', 317), (''SYS_yield'', 321), (''SYS_mlockall'', 324), (''SYS_munlockall'', 325), (''SYS___getcwd'', 326),
     (''SYS_sched_setparam'', 327), (''SYS_sched_getparam'', 328), (''SYS_sched_setscheduler'', 329),
     (''SYS_sched_getscheduler'', 330), (''SYS_sched_yield'', 331), (''SYS_sched_get_priority_max'', 332),
     (''SYS_sched_get_priority_min'', 333), (''SYS_sched_rr_get_interval'', 334), (''SYS_utrace'', 335), (''SYS_kldsym'', 337),
     (''SYS_jail'', 338), (''SYS_nnpfs_syscall'', 339), (''SYS_sigprocmask'', 340), (''SYS_sigsuspend'', 341),
     (''SYS_sigpending'', 343), (''SYS_sigtimedwait'', 345), (''SYS_sigwaitinfo'', 346), (''SYS___acl_get_file'', 347),
     (''SYS___acl_set_file'', 348), (''SYS___acl_get_fd'', 349), (''SYS___acl_set_fd'', 350), (''SYS___acl_delete_file'', 351),
     (''SYS___acl_delete_fd'', 352), (''SYS___acl_aclcheck_file'', 353), (''SYS___acl_aclcheck_fd'', 354), (''SYS_extattrctl'', 355),
     (''SYS_extattr_set_file'', 356), (''SYS_extattr_get_file'', 357), (''SYS_extattr_delete_file'', 358),
     (''SYS_aio_waitcomplete'', 359), (''SYS_getresuid'', 360), (''SYS_getresgid'', 361), (''SYS_kqueue'', 362),
     (''SYS_kevent'', 363), (''SYS_extattr_set_fd'', 371), (''SYS_extattr_get_fd'', 372), (''SYS_extattr_delete_fd'', 373),
     (''SYS___setugid'', 374), (''SYS_eaccess'', 376), (''SYS_afs3_syscall'', 377), (''SYS_nmount'', 378),
     (''SYS___mac_get_proc'', 384), (''SYS___mac_set_proc'', 385), (''SYS___mac_get_fd'', 386), (''SYS___mac_get_file'', 387),
     (''SYS___mac_set_fd'', 388), (''SYS___mac_set_file'', 389), (''SYS_kenv'', 390), (''SYS_lchflags'', 391), (''SYS_uuidgen'', 392),
     (''SYS_sendfile'', 393), (''SYS_mac_syscall'', 394), (''SYS_getfsstat'', 395), (''SYS_statfs'', 396), (''SYS_fstatfs'', 397),
     (''SYS_fhstatfs'', 398), (''SYS_ksem_close'', 400), (''SYS_ksem_post'', 401), (''SYS_ksem_wait'', 402),
     (''SYS_ksem_trywait'', 403), (''SYS_ksem_init'', 404), (''SYS_ksem_open'', 405), (''SYS_ksem_unlink'', 406),
     (''SYS_ksem_getvalue'', 407), (''SYS_ksem_destroy'', 408), (''SYS___mac_get_pid'', 409), (''SYS___mac_get_link'', 410),
     (''SYS___mac_set_link'', 411), (''SYS_extattr_set_link'', 412), (''SYS_extattr_get_link'', 413),
     (''SYS_extattr_delete_link'', 414), (''SYS___mac_execve'', 415), (''SYS_sigaction'', 416), (''SYS_sigreturn'', 417),
     (''SYS_getcontext'', 421), (''SYS_setcontext'', 422), (''SYS_swapcontext'', 423), (''SYS_swapoff'', 424),
     (''SYS___acl_get_link'', 425), (''SYS___acl_set_link'', 426), (''SYS___acl_delete_link'', 427),
     (''SYS___acl_aclcheck_link'', 428)]"

definition syscalls4 :: "(string \<times> int) list" where
  "syscalls4 = [
     (''SYS_sigwait'', 429), (''SYS_thr_create'', 430), (''SYS_thr_exit'', 431), (''SYS_thr_self'', 432), (''SYS_thr_kill'', 433),
     (''SYS_jail_attach'', 436), (''SYS_extattr_list_fd'', 437), (''SYS_extattr_list_file'', 438), (''SYS_extattr_list_link'', 439),
     (''SYS_ksem_timedwait'', 441), (''SYS_thr_suspend'', 442), (''SYS_thr_wake'', 443), (''SYS_kldunloadf'', 444),
     (''SYS_audit'', 445), (''SYS_auditon'', 446), (''SYS_getauid'', 447), (''SYS_setauid'', 448), (''SYS_getaudit'', 449),
     (''SYS_setaudit'', 450), (''SYS_getaudit_addr'', 451), (''SYS_setaudit_addr'', 452), (''SYS_auditctl'', 453),
     (''SYS__umtx_op'', 454), (''SYS_thr_new'', 455), (''SYS_sigqueue'', 456), (''SYS_kmq_open'', 457), (''SYS_kmq_setattr'', 458),
     (''SYS_kmq_timedreceive'', 459), (''SYS_kmq_timedsend'', 460), (''SYS_kmq_notify'', 461), (''SYS_kmq_unlink'', 462),
     (''SYS_abort2'', 463), (''SYS_thr_set_name'', 464), (''SYS_aio_fsync'', 465), (''SYS_rtprio_thread'', 466),
     (''SYS_sctp_peeloff'', 471), (''SYS_sctp_generic_sendmsg'', 472), (''SYS_sctp_generic_sendmsg_iov'', 473),
     (''SYS_sctp_generic_recvmsg'', 474), (''SYS_pread'', 475), (''SYS_pwrite'', 476), (''SYS_mmap'', 477), (''SYS_lseek'', 478),
     (''SYS_truncate'', 479), (''SYS_ftruncate'', 480), (''SYS_thr_kill2'', 481), (''SYS_shm_open'', 482), (''SYS_shm_unlink'', 483),
     (''SYS_cpuset'', 484), (''SYS_cpuset_setid'', 485), (''SYS_cpuset_getid'', 486), (''SYS_cpuset_getaffinity'', 487),
     (''SYS_cpuset_setaffinity'', 488), (''SYS_faccessat'', 489), (''SYS_fchmodat'', 490), (''SYS_fchownat'', 491),
     (''SYS_fexecve'', 492), (''SYS_fstatat'', 493), (''SYS_futimesat'', 494), (''SYS_linkat'', 495), (''SYS_mkdirat'', 496),
     (''SYS_mkfifoat'', 497), (''SYS_mknodat'', 498), (''SYS_openat'', 499), (''SYS_readlinkat'', 500), (''SYS_renameat'', 501),
     (''SYS_symlinkat'', 502), (''SYS_unlinkat'', 503), (''SYS_posix_openpt'', 504), (''SYS_gssd_syscall'', 505),
     (''SYS_jail_get'', 506), (''SYS_jail_set'', 507), (''SYS_jail_remove'', 508), (''SYS_closefrom'', 509), (''SYS___semctl'', 510),
     (''SYS_msgctl'', 511), (''SYS_shmctl'', 512), (''SYS_lpathconf'', 513), (''SYS___cap_rights_get'', 515),
     (''SYS_cap_enter'', 516), (''SYS_cap_getmode'', 517), (''SYS_pdfork'', 518), (''SYS_pdkill'', 519), (''SYS_pdgetpid'', 520),
     (''SYS_pselect'', 522), (''SYS_getloginclass'', 523), (''SYS_setloginclass'', 524), (''SYS_rctl_get_racct'', 525),
     (''SYS_rctl_get_rules'', 526), (''SYS_rctl_get_limits'', 527), (''SYS_rctl_add_rule'', 528), (''SYS_rctl_remove_rule'', 529),
     (''SYS_posix_fallocate'', 530), (''SYS_posix_fadvise'', 531), (''SYS_wait6'', 532), (''SYS_cap_rights_limit'', 533),
     (''SYS_cap_ioctls_limit'', 534), (''SYS_cap_ioctls_get'', 535), (''SYS_cap_fcntls_limit'', 536), (''SYS_cap_fcntls_get'', 537),
     (''SYS_bindat'', 538), (''SYS_connectat'', 539), (''SYS_chflagsat'', 540), (''SYS_accept4'', 541), (''SYS_pipe2'', 542),
     (''SYS_aio_mlock'', 543), (''SYS_procctl'', 544), (''SYS_ppoll'', 545), (''SYS_futimens'', 546), (''SYS_utimensat'', 547),
     (''SYS_numa_getaffinity'', 548), (''SYS_numa_setaffinity'', 549), (''SYS_fdatasync'', 550)]"

definition syscall_table :: "(string \<times> int) list" where
  "syscall_table = syscalls1 @ syscalls2 @ syscalls3 @ syscalls4"

definition SYS_MAXSYSCALL :: int where "SYS_MAXSYSCALL = 551"

text \<open>The number of a name, and the name of a number.\<close>

definition syscall_number :: "string \<Rightarrow> int option" where
  "syscall_number s = map_of syscall_table s"

definition syscall_name :: "int \<Rightarrow> string option" where
  "syscall_name n = map_of (map prod.swap syscall_table) n"

section \<open>Numbers and names\<close>

lemma table_ascending: "successively (<) (map snd syscall_table)"
  by (simp add: syscall_table_def syscalls1_def syscalls2_def syscalls3_def syscalls4_def)

lemma table_bounds: "list_all (\<lambda>e. 0 \<le> snd e \<and> snd e < SYS_MAXSYSCALL) syscall_table"
  by (simp add: syscall_table_def syscalls1_def syscalls2_def syscalls3_def syscalls4_def SYS_MAXSYSCALL_def)

lemma numbers_distinct: "distinct (map snd syscall_table)"
  using table_ascending by (simp add: successively_conv_sorted_wrt strict_sorted_iff)

lemma entry_named: "(s, n) \<in> set syscall_table \<Longrightarrow> syscall_name n = Some s"
proof -
  assume "(s, n) \<in> set syscall_table"
  then have "(n, s) \<in> set (map prod.swap syscall_table)" by force
  moreover have "distinct (map fst (map prod.swap syscall_table))" using numbers_distinct by (simp add: comp_def)
  ultimately show ?thesis by (simp add: syscall_name_def)
qed

lemma number_named: "syscall_number s = Some n \<Longrightarrow> syscall_name n = Some s"
  by (rule entry_named) (simp add: syscall_number_def map_of_SomeD)

lemma unnamed: "n < 0 \<or> SYS_MAXSYSCALL \<le> n \<Longrightarrow> syscall_name n = None"
  using table_bounds by (auto simp: syscall_name_def map_of_eq_None_iff list_all_iff)

text \<open>The calls that the tracer makes by name, and the calls of the console that the table does not know.\<close>

lemma tracer_entries1:
  "(''SYS_close'', SYS_close) \<in> set syscalls1"
  "(''SYS_chdir'', SYS_chdir) \<in> set syscalls1"
  "(''SYS_recvmsg'', SYS_recvmsg) \<in> set syscalls1"
  "(''SYS_msync'', SYS_msync) \<in> set syscalls1"
  "(''SYS_munmap'', SYS_munmap) \<in> set syscalls1"
  "(''SYS_mprotect'', SYS_mprotect) \<in> set syscalls1"
  "(''SYS_dup2'', SYS_dup2) \<in> set syscalls1"
  "(''SYS_socket'', SYS_socket) \<in> set syscalls1"
  "(''SYS_bind'', SYS_bind) \<in> set syscalls1"
  "(''SYS_setsockopt'', SYS_setsockopt) \<in> set syscalls1"
  by (simp_all add: syscalls1_def SYS_close_def SYS_chdir_def SYS_recvmsg_def SYS_msync_def SYS_munmap_def SYS_mprotect_def SYS_dup2_def SYS_socket_def SYS_bind_def SYS_setsockopt_def)

lemma tracer_entries4:
  "(''SYS_thr_set_name'', SYS_thr_set_name) \<in> set syscalls4"
  "(''SYS_mmap'', SYS_mmap) \<in> set syscalls4"
  by (simp_all add: syscalls4_def SYS_thr_set_name_def SYS_mmap_def)

lemma tracer_numbers:
  "syscall_name SYS_close = Some ''SYS_close''"
  "syscall_name SYS_chdir = Some ''SYS_chdir''"
  "syscall_name SYS_recvmsg = Some ''SYS_recvmsg''"
  "syscall_name SYS_msync = Some ''SYS_msync''"
  "syscall_name SYS_munmap = Some ''SYS_munmap''"
  "syscall_name SYS_mprotect = Some ''SYS_mprotect''"
  "syscall_name SYS_dup2 = Some ''SYS_dup2''"
  "syscall_name SYS_socket = Some ''SYS_socket''"
  "syscall_name SYS_bind = Some ''SYS_bind''"
  "syscall_name SYS_setsockopt = Some ''SYS_setsockopt''"
  "syscall_name SYS_thr_set_name = Some ''SYS_thr_set_name''"
  "syscall_name SYS_mmap = Some ''SYS_mmap''"
  by (rule entry_named; simp add: syscall_table_def tracer_entries1 tracer_entries4)+

lemma console_numbers: "syscall_name 599 = None" "syscall_name 0x25b = None" "syscall_name 0x23b = None"
  by (simp_all add: unnamed SYS_MAXSYSCALL_def)

end
