(* ===== verification/Spec2Isabelle.thy ===== *)
theory Spec2Isabelle
  imports Session_Descriptors Proc_Exec Copy_Tree Elf_Launch Syscalls
begin

text \<open>
  \<^bold>\<open>The program.\<close> A payload for a game console that listens on a TCP port and gives every client a
  line-oriented session with file commands, file transfer, package installation, process control
  and the execution of ELF files. Its parts, and the theories that model them:

  \<^item> The listener (\<^verbatim>\<open>src/sshsvr.c\<close>, \<^verbatim>\<open>tools/kill_sshsvr.c\<close>): pidfile, replacement of an earlier
    instance, bind with retries, accept loop, \<^verbatim>\<open>main\<close>. Theories \<open>Server\<close> and \<open>Serverctl\<close> (the latter with
    the builtins \<^verbatim>\<open>serverctl\<close> and \<^verbatim>\<open>kill\<close> of \<^verbatim>\<open>src/builtins.c\<close>, which work on the same pidfile).
  \<^item> The session (\<^verbatim>\<open>src/session.c\<close>): reading a line (\<open>Line_Input\<close>, with \<^verbatim>\<open>safe_read_line\<close>), tokens and
    pipelines (\<open>Session_Parse\<close>), the processes and descriptors of a pipeline and the prompt loop (\<open>Session\<close>).
  \<^item> The builtins (\<^verbatim>\<open>src/builtins.c\<close>): files and processes (\<open>Files\<close>), \<^verbatim>\<open>put\<close> and \<^verbatim>\<open>get\<close>
    (\<open>File_Transfer\<close>, over the codec of \<^verbatim>\<open>src/base64.c\<close> in \<open>Base64\<close>), \<^verbatim>\<open>install\<close> with its KLOG monitor (\<open>Install\<close>),
    \<^verbatim>\<open>execelf\<close>, \<^verbatim>\<open>debugelf\<close>, the rest and the table (\<open>Commands\<close>).
  \<^item> The tracer (\<^verbatim>\<open>shsrv/pt.c\<close>): \<open>Pt\<close>. The ELF loader (\<^verbatim>\<open>shsrv/elfldr.c\<close>): \<open>Elfldr\<close> holds the code, \<open>Elf_Image\<close>
    the theory of the image it builds, \<open>Elf_Exec\<close> what it leaves in the traced process, \<open>Elf_Spawn\<close> the new
    process and the loader as \<^verbatim>\<open>execelf\<close> calls it (\<open>elf_spawner\<close>), \<open>Elf_Start\<close> the loader from the stopped process
    to the entry of the ELF, \<open>Elf_Run\<close> the new process from its \<^verbatim>\<open>main\<close> to that entry and \<open>Elf_Launch\<close> from the
    call of \<^verbatim>\<open>elfldr_spawn\<close> to it.
  \<^item> The system call numbers (\<^verbatim>\<open>syscall.h\<close>): \<open>Syscalls\<close>, the table with its lookups.
  \<^item> Across components: \<open>Elf_Frame\<close> (what the loader leaves alone in the process that calls it), \<open>Descriptors\<close> and
    \<open>Session_Descriptors\<close> (the descriptor table of sessions and server), \<open>Copy_Tree\<close> (\<^verbatim>\<open>cp -r\<close> on a tree of files with contents).
  \<^item> Helpers: \<open>Prelude\<close> (the C library on strings and numbers), \<open>Os\<close> (the kernel interface and
    \<^verbatim>\<open>src/util.c\<close>, \<^verbatim>\<open>include/util.h\<close>), \<open>Trace\<close> (a kernel that records its calls), \<open>Proc_Exec\<close>
    (\<^verbatim>\<open>src/proc_exec.c\<close>, which nothing calls).

  \<^bold>\<open>State and effects.\<close> The kernel and the console's SDK are not part of the repository. They are records of
  functions, \<open>'w os\<close>, \<open>'w pk\<close> (one function per \<^verbatim>\<open>ptrace\<close> request and SDK call of the tracer) and \<open>'w lk\<close>
  (the loader's calls), over an arbitrary state \<open>'w\<close> of the world that every definition passes on. What a
  theorem needs of them is a named predicate over their functions that states documented behaviour:
  \<open>reads_from\<close>, \<open>writes_all\<close>, \<open>read_keeps\<close>, \<open>write_keeps\<close> and \<open>write_progress\<close> for descriptors, \<open>fs_laws\<close> and \<open>fs_shrinks\<close> for a file
  system, \<open>pidfile_kernel\<close> for the pidfile, \<open>cred_laws\<close>, \<open>tracee_laws\<close>, \<open>lk_laws\<close>, \<open>returns_zero\<close>, \<open>caps_cell\<close>, \<open>kill_laws\<close> and \<open>runs_to\<close> for the tracer and the
  loader. Each is shown to hold of a concrete instance (\<open>console_os\<close>, \<open>tree_os\<close>, \<open>host_os\<close>, \<open>fd_os\<close>, \<open>file_os\<close>, \<open>sim_pk\<close>,
  \<open>sim_lk\<close>, \<open>kill_pk\<close>, \<open>term_os\<close>, \<open>disk_os\<close>), on which the theorems are applied in their witnesses.

  Return codes and errors are values: \<open>Inl errno\<close> and \<open>Inr v\<close> for calls, \<open>None\<close> for a failed request,
  and \<open>outcome\<close> for code that may end its process: \<open>Ret\<close>, \<open>Exit\<close>, \<open>Execed\<close>, and \<open>Crashed\<close> for an access out of the
  bounds of an array (the token array of the session, the file and the mirror of the ELF loader).
  \<^verbatim>\<open>fork\<close> returns as in C, so a run in a world where it returned 0 is a run of the child.
  Machine integers are words where they wrap: the groups of the codec (32 bits), addresses, sizes and
  registers of the loader (64 bits), the fields of ELF headers at their widths.

  \<^bold>\<open>Loops.\<close> Loops over lists are structural recursion. Loops that end only if the kernel answers as expected
  (reads, writes, waits, single steps, the session and accept loops) are \<open>partial_function (option)\<close>,
  whose value \<open>None\<close> is a run that never ends; theorems about them prove that they end with \<open>Some\<close> under the
  laws of the kernel. The only bound is the depth \<open>n\<close> of \<open>session_at\<close>: a session can start a
  server (\<^verbatim>\<open>serverctl start\<close>) whose sessions can do so again, and \<open>n\<close> counts these generations; every theorem
  about sessions holds for any inner session.

  \<^bold>\<open>Interfaces.\<close> \<open>line_reader\<close> (the two line readers), \<open>block_codec\<close> (what the transfer needs of an encoding,
  interpreted by the Base64 codec), \<open>pid_reader\<close> (the two readers of the pidfile) and \<open>remote_cell\<close> (integers in
  the traced process, interpreted at 1, 2 and 8 bytes) are locales, interpreted on the model's definitions. \<open>fd_kernel\<close> (the
  kernel on the descriptor table) and \<open>tracer_frame\<close> (the loader's calls on a view of their process) are interfaces of
  parameters, interpreted on a kernel for the whole program, \<open>cp_kernel\<close> (a file system with contents), interpreted
  on a disk, and \<open>stopped_process\<close> (a traced process that answers the loader's system calls), interpreted on a console with
  room for three mappings; \<open>spawned_process\<close> extends it by the calls that set up a new process, and \<open>new_process\<close>
  by the way of a child from \<^verbatim>\<open>execve\<close> to its \<^verbatim>\<open>main\<close>; the same console is an instance.

  \<^bold>\<open>What is shown.\<close>
  \<^item> Parsing inverts spelling; every pipeline handed on is well formed; the children of a pipeline have exactly the
    descriptors of their place in it, and the session keeps its own; a session prompts, answers and ends on \<^verbatim>\<open>exit\<close>; a
    builtin on a line reaches its function with its words (below).
  \<^item> At its prompt, after any lines, and when it ends, a session has the descriptors it started with; so has
    the server. The exception is a failed \<^verbatim>\<open>pipe\<close>, which leaks the pipes made before it.
  \<^item> The codec is RFC 4648 with its standard alphabet and inverts; \<^verbatim>\<open>put\<close> stores and \<^verbatim>\<open>get\<close> sends exactly the file, within the buffers, and on any
    lines \<^verbatim>\<open>put\<close> is the receiver \<open>receive\<close>.
  \<^item> \<^verbatim>\<open>rm -r\<close> removes the tree and nothing else; whichever calls fail, it never leaves the tree through \<^verbatim>\<open>..\<close> or a symbolic
    link, as long as the names fit the buffer (a longer one can be cut to \<^verbatim>\<open>..\<close>); \<^verbatim>\<open>cp -r\<close> merges the
    tree of its source into the destination, every file with its exact contents, and changes nothing else.
  \<^item> At most one instance: a new server starts only when the old process is gone, also by \<^verbatim>\<open>serverctl restart\<close> with any
    options; signals go to the process of the pidfile, or without one to the servers of the process table.
  \<^item> The KLOG monitor does not depend on how the log is cut into reads.
  \<^item> Every \<^verbatim>\<open>ptrace\<close> request runs under raised credentials that are taken back; a remote call is the call
    that the specification \<open>remote_call\<close> describes; stores and loads in the traced process are inverse.
  \<^item> The loader's image is the reference image of segments and relocations, which never leave the mirror of a
    well-formed file that starts in page 0, and after loading it is what the
    traced process has at the mapping; the environment block reads back as the given strings; the
    registers are those of a function entry; breakpoint and capabilities are restored; failures kill the child; and
    all of this together: from the call of \<^verbatim>\<open>elfldr_spawn\<close> to a process let go at the entry of the ELF with all in place.
  \<^item> Where the code does not do what it means to, a theorem says what it does instead: \<^verbatim>\<open>put\<close> rejects the
    full blocks of \<^verbatim>\<open>get\<close>, \<^verbatim>\<open>install -w\<close> never reports success, a line of 256 bars overruns the token array, \<^verbatim>\<open>cp f f\<close> empties
    the file, an
    \<^verbatim>\<open>ET_EXEC\<close> file linked above its own size is written outside the loader's mirror.

  \<^bold>\<open>Not modelled.\<close> The heap (\<^verbatim>\<open>free_tokens\<close>, \<^verbatim>\<open>free_pipeline\<close> and the \<^verbatim>\<open>free\<close> calls have no counterpart); changes of
  \<^verbatim>\<open>errno\<close> by \<^verbatim>\<open>close\<close> and the logging calls between a failure and its report; the buffering of \<^verbatim>\<open>stdio\<close>, whose pidfile
  stream is one read or write; the other branches of \<^verbatim>\<open>#ifdef\<close>s that the build does not take; the
  prototypes of the header files, which have no content of their own. The upper halves of \<^verbatim>\<open>int\<close> arguments of
  \<^verbatim>\<open>pt_syscall\<close>, which the language leaves open, are the parameter \<open>pk_widen\<close>, and the arguments that its callers do
  not pass the parameter \<open>pk_va\<close>.
\<close>

section \<open>Properties that span components\<close>

lemma table_names: "map bi_name builtin_table =
   [''help'', ''exit'', ''ls'', ''ll'', ''rm'', ''cp'', ''mv'', ''mkdir'', ''pwd'', ''cd'', ''cat'', ''ps'', ''put'', ''get'',
    ''install'', ''klogtail'', ''execelf'', ''debugelf'', ''kill'', ''serverctl'']"
  by (simp add: builtin_table_def g_builtins_def bi_def)

lemma find_builtin: "find (\<lambda>b. bi_name b = n) builtin_table = None \<longleftrightarrow> n \<notin> set (map bi_name builtin_table)"
  by (auto simp: find_None_iff)

text \<open>The parser and the dispatcher agree on what a builtin is: a command that the parser marked as a builtin
  is found by \<^verbatim>\<open>run_builtin_in_current\<close> and one it did not mark is not, and \<^verbatim>\<open>ll\<close> with any arguments does
  exactly what \<^verbatim>\<open>ls -l\<close> with those arguments does.\<close>

theorem builtin_dispatch:
  "(cmd_is_builtin (map bi_name builtin_table) (c # args) \<longleftrightarrow> find (\<lambda>b. bi_name b = c) builtin_table \<noteq> None)
   \<and> run_builtin_in_current os spawn session (''ll'' # args) w
       = run_builtin_in_current os spawn session (''ls'' # ''-l'' # args) w"
proof
  show "cmd_is_builtin (map bi_name builtin_table) (c # args) \<longleftrightarrow> find (\<lambda>b. bi_name b = c) builtin_table \<noteq> None"
  proof -
    have "''ll'' \<in> set (map bi_name builtin_table)" by (simp add: table_names)
    then show ?thesis unfolding find_builtin cmd_is_builtin_def list_ex_iff list.sel by blast
  qed
  show "run_builtin_in_current os spawn session (''ll'' # args) w
       = run_builtin_in_current os spawn session (''ls'' # ''-l'' # args) w"
    by (simp add: run_builtin_in_current_def builtin_table_def g_builtins_def bi_def)
qed

section \<open>A line with a builtin\<close>

text \<open>The whole program: the listener and its sessions, with the ELF loader behind \<^verbatim>\<open>execelf\<close>.\<close>

definition server :: "'w os \<Rightarrow> 'w pk \<Rightarrow> 'w lk \<Rightarrow> nat \<Rightarrow> string list \<Rightarrow> 'w \<Rightarrow> (int outcome \<times> 'w) option" where
  "server os pk lk n av w = program os (elf_spawner pk lk) n av w"

text \<open>What the session makes of the outcome of a builtin.\<close>

fun verdict_of :: "int outcome \<Rightarrow> verdict" where
  "verdict_of (Ret rc) = (if rc = 255 \<or> rc = - 2 then Leave else Go_On)"
| "verdict_of (Exit n) = Gone (Exit n)"
| "verdict_of Execed = Gone Execed"
| "verdict_of Crashed = Gone Crashed"

lemma builtin_line:
  assumes sp: "list_all2 spells ss ws" and ws: "ws \<noteq> []" "list_all (\<lambda>t. \<not> is_operator t) ws" "length ws < MAX_TOKS"
    and bi: "hd ws \<in> set (map bi_name builtin_table)" and nul: "CHR 0x00 \<notin> set (join_sp ss)"
  shows "run_line os spawn session lpid (join_sp ss) w =
    map_option (apfst verdict_of) (run_builtin_in_current os spawn session ws w)"
proof -
  let ?tbl = "map bi_name builtin_table"
  have "parse_line ?tbl (join_sp ss) = Some (Inr (mk_pipeline ?tbl [ws] None))"
    using sp ws by (intro parse_line_spelled) (simp_all add: well_formed_words_def MAX_PIPE_def comp_def)
  moreover have "cmd_is_builtin ?tbl ws" using bi by (auto simp: cmd_is_builtin_def list_ex_iff)
  ultimately show ?thesis
    using nul
    by (auto simp: run_line_def c_str_id execute_pipeline_def mk_pipeline_def mk_command_def option.map_comp apfst_def map_prod_def
             intro!: option.map_cong split: outcome.splits)
qed

text \<open>Property C34.
  A line \<^verbatim>\<open>execelf FILE\<close> at the prompt hands the bytes of the file and the argument vector to the ELF loader. When the loader
  returns a process, the session waits for it, reports its exit status and goes on; when it returns a failure the session
  says so and goes on; but the loader runs in the process of the session, and when it accesses memory out of bounds
  the session is gone.\<close>

theorem execelf_line:
  assumes "spells_word s path" "\<not> is_operator path" "CHR 0x00 \<notin> set s" "path \<noteq> ''--heap''" "path \<noteq> ''--env''"
    and data: "load_file os path w = (Inr data, w1)"
    and load: "elfldr_spawn pk lk 0 1 2 (bytes_of data) [path] w1 = Some (r, w2)"
  shows "run_line os (elf_spawner pk lk) session lpid (''execelf '' @ s) w =
    Some (case r of
       Ret pid \<Rightarrow>
         (Go_On,
          if pid < 0 then out os ''elf spawn failed\<newline>'' w2
          else case os_waitpid os pid w2 of
                 (Exited_With n, w3) \<Rightarrow> out os (''exit '' @ show_int n @ ''\<newline>'') w3
               | (Signalled n, w3) \<Rightarrow> w3)
     | _ \<Rightarrow> (verdict_of r, w2))"
proof -
  have line: "''execelf '' @ s = join_sp [''execelf'', s]" by simp
  have sp: "list_all2 spells [''execelf'', s] [''execelf'', path]"
    using assms(1) by (auto simp: spells_def spells_word_def plain_char_def c_isspace_def is_op_def)
  have "exec_options [path] 0 [] = (0, [], [path])" by simp
  then have "run_builtin_in_current os (elf_spawner pk lk) session [''execelf'', path] w
      = exec_image os (elf_spawner pk lk) False [] path [] w"
    by (simp add: run_builtin_in_current_def builtin_table_def g_builtins_def bi_def cmd_execelf_def do_exec_common_def)
  moreover have "run_line os (elf_spawner pk lk) session lpid (join_sp [''execelf'', s]) w
      = map_option (apfst verdict_of) (run_builtin_in_current os (elf_spawner pk lk) session [''execelf'', path] w)"
    by (rule builtin_line [OF sp]) (use assms(2,3) in \<open>simp_all add: is_operator_def MAX_TOKS_def table_names\<close>)
  ultimately show ?thesis
    unfolding line using data load
    by (auto simp: exec_image_def elf_spawner_def split: outcome.splits prod.splits wait_status.splits)
qed


text \<open>A console with one file of four bytes, on which no event queue can be made.\<close>

definition exec_os :: "sim os" where
  "exec_os = null_os\<lparr>
     os_open := (\<lambda>p fl w. (Inr 3, w)), os_lseek_end := (\<lambda>fd w. (4, w)), os_lseek_start := (\<lambda>fd w. w),
     os_malloc_ok := (\<lambda>n w. True), os_read := (\<lambda>fd n w. (Inr ''ELF!'', w)), os_close := (\<lambda>fd w. w),
     os_write := (\<lambda>fd s w. (Inr (length s), w\<lparr>s_out := s_out w @ [s]\<rparr>))\<rparr>"

theorem execelf_line_witness:
  "run_line exec_os (elf_spawner sys_pk (sim_lk\<lparr>lk_kqueue := (\<lambda>w. (None, w))\<rparr>)) (\<lambda>fd ip lp w. None) 77 ''execelf /data/a.elf'' sim0
   = Some (Go_On, sim0\<lparr>s_out := [''kqueue'', ''elf spawn failed\<newline>'']\<rparr>)"
proof -
  let ?lk = "sim_lk\<lparr>lk_kqueue := (\<lambda>w. (None, w))\<rparr>"
  have w: "spells_word ''/data/a.elf'' ''/data/a.elf''" "\<not> is_operator ''/data/a.elf''"
    by (simp_all add: spells_word_def plain_char_def c_isspace_def is_op_def is_operator_def)
  have f: "load_file exec_os ''/data/a.elf'' sim0 = (Inr ''ELF!'', sim0)" by (simp add: load_file_def exec_os_def)
  have l: "elfldr_spawn sys_pk ?lk 0 1 2 (bytes_of ''ELF!'') [''/data/a.elf''] sim0 = Some (Ret (- 1), sim0\<lparr>s_out := [''kqueue'']\<rparr>)"
    by (simp add: elfldr_spawn_def sim_lk_def) (simp add: sim_pk_def sim0_def)
  from execelf_line [OF w _ _ _ f l, of "\<lambda>fd ip lp w. None" 77] show ?thesis
    by (simp add: out_def dprintf_def dprintf_bytes_def snprintf_buf_def exec_os_def)
qed

end
